(* ===== verification/Prelude.thy ===== *)
theory Prelude
  imports Complex_Main "HOL-Library.Word" "HOL-Library.Multiset"
begin

text \<open>
  Shared vocabulary of the Bourse development.

  \<^item> Go's \<open>int64\<close> arithmetic: values are integers, and every arithmetic operation of the code is
    followed by \<open>wrap64\<close>, the two's complement reduction to 64 bits.
  \<^item> SQL tables as lists of rows with a primary key: \<open>row_get\<close> (\<open>SELECT .. WHERE id=$1\<close>),
    \<open>row_upd\<close> (\<open>UPDATE .. WHERE id=$1\<close>) and \<open>row_del\<close> (\<open>DELETE .. WHERE id=$1\<close>).
  \<^item> \<open>show_int\<close>, the verb \<open>%d\<close> of \<open>fmt.Sprintf\<close>.
  \<^item> The locale \<open>step_system\<close>: an invariant kept by every step of a transition relation holds
    after any number of steps.
\<close>

named_theorems keeps_intros \<open>rules for the preservation of a predicate by an effectful operation\<close>
named_theorems run_simps \<open>equations that run one effectful operation\<close>

section \<open>Signed 64-bit arithmetic\<close>

definition wrap64 :: "int \<Rightarrow> int" where
  "wrap64 x = (x + 2 ^ 63) mod 2 ^ 64 - 2 ^ 63"

definition in_int64 :: "int \<Rightarrow> bool" where
  "in_int64 x \<longleftrightarrow> - (2 ^ 63) \<le> x \<and> x < 2 ^ 63"

lemma in_int64_wrap64 [simp]: "in_int64 (wrap64 x)"
  by (auto simp: in_int64_def wrap64_def)

lemma wrap64_id [simp]: "in_int64 x \<Longrightarrow> wrap64 x = x"
  by (auto simp: in_int64_def wrap64_def)

lemma wrap64_eq_iff: "wrap64 x = x \<longleftrightarrow> in_int64 x"
  by (metis in_int64_wrap64 wrap64_id)

lemma wrap64_cong_iff: "wrap64 x = wrap64 y \<longleftrightarrow> x mod 2 ^ 64 = y mod 2 ^ 64"
proof -
  have "wrap64 x = wrap64 y \<longleftrightarrow> (x + 2 ^ 63) mod 2 ^ 64 = (y + 2 ^ 63) mod (2 ^ 64 :: int)"
    by (simp add: wrap64_def)
  also have "\<dots> \<longleftrightarrow> x mod 2 ^ 64 = y mod 2 ^ 64"
    by (simp add: mod_eq_dvd_iff)
  finally show ?thesis .
qed

lemma wrap64_mod [simp]: "wrap64 x mod 2 ^ 64 = x mod 2 ^ 64"
  using wrap64_cong_iff [of "wrap64 x" x] by simp

lemma wrap64_sint: "wrap64 x = sint (word_of_int x :: 64 word)"
proof -
  have "sint (word_of_int x :: 64 word) = signed_take_bit 63 x"
    by (simp add: sint_sbintrunc')
  also have "\<dots> = take_bit (Suc 63) (x + 2 ^ 63) - 2 ^ 63"
    by (rule signed_take_bit_eq_take_bit_shift)
  finally show ?thesis
    by (simp only: wrap64_def take_bit_eq_mod) simp
qed

lemma wrap64_add_left [simp]: "wrap64 (wrap64 x + y) = wrap64 (x + y)"
  unfolding wrap64_cong_iff by (rule mod_add_cong) (rule wrap64_mod, rule refl)

lemma wrap64_add_right [simp]: "wrap64 (x + wrap64 y) = wrap64 (x + y)"
  using wrap64_add_left [of y x] by (simp add: add.commute)

lemma wrap64_mult_left [simp]: "wrap64 (wrap64 x * y) = wrap64 (x * y)"
  unfolding wrap64_cong_iff by (rule mod_mult_cong) (rule wrap64_mod, rule refl)

lemma wrap64_mult_right [simp]: "wrap64 (x * wrap64 y) = wrap64 (x * y)"
  using wrap64_mult_left [of y x] by (simp add: mult.commute)

lemma wrap64_add_mid: "wrap64 (x + (wrap64 y + z)) = wrap64 (x + (y + z))"
  using wrap64_add_left [of y "x + z"] by (simp add: algebra_simps)

lemma wrap64_0 [simp]: "wrap64 0 = 0"
  by (simp add: wrap64_def)

section \<open>Rows with a primary key\<close>

definition row_get :: "('r \<Rightarrow> 'k) \<Rightarrow> 'k \<Rightarrow> 'r list \<Rightarrow> 'r option" where
  "row_get key k rs = find (\<lambda>r. key r = k) rs"

definition row_upd :: "('r \<Rightarrow> 'k) \<Rightarrow> 'k \<Rightarrow> ('r \<Rightarrow> 'r) \<Rightarrow> 'r list \<Rightarrow> 'r list" where
  "row_upd key k f rs = map (\<lambda>r. if key r = k then f r else r) rs"

definition row_del :: "('r \<Rightarrow> 'k) \<Rightarrow> 'k \<Rightarrow> 'r list \<Rightarrow> 'r list" where
  "row_del key k rs = filter (\<lambda>r. key r \<noteq> k) rs"

lemma row_get_Nil [simp]: "row_get key k [] = None"
  by (simp add: row_get_def)

lemma row_get_Cons [simp]:
  "row_get key k (r # rs) = (if key r = k then Some r else row_get key k rs)"
  by (simp add: row_get_def)

lemma row_get_append:
  "row_get key k (rs @ ss) = (case row_get key k rs of None \<Rightarrow> row_get key k ss | Some r \<Rightarrow> Some r)"
  by (induction rs) auto

lemma row_get_SomeD: "row_get key k rs = Some r \<Longrightarrow> r \<in> set rs \<and> key r = k"
  by (induction rs) (auto split: if_splits)

lemma row_get_None_iff: "row_get key k rs = None \<longleftrightarrow> k \<notin> key ` set rs"
  by (induction rs) auto

lemma row_get_unique: "distinct (map key rs) \<Longrightarrow> r \<in> set rs \<Longrightarrow> row_get key (key r) rs = Some r"
  by (induction rs) (auto simp: image_iff)

lemma row_get_upd:
  assumes "\<And>r. key (f r) = key r"
  shows "row_get key k' (row_upd key k f rs) =
    (if k' = k then map_option f (row_get key k rs) else row_get key k' rs)"
  by (induction rs) (auto simp: row_upd_def assms)

lemma row_upd_keys:
  assumes "\<And>r. key (f r) = key r"
  shows "map key (row_upd key k f rs) = map key rs"
  by (simp add: row_upd_def comp_def assms)

lemma row_upd_mem:
  "r' \<in> set (row_upd key k f rs) \<Longrightarrow> \<exists>r \<in> set rs. r' = (if key r = k then f r else r)"
  by (auto simp: row_upd_def)

lemma length_row_upd [simp]: "length (row_upd key k f rs) = length rs"
  by (simp add: row_upd_def)

lemma row_upd_absent: "k \<notin> key ` set rs \<Longrightarrow> row_upd key k f rs = rs"
  by (simp add: row_upd_def) (rule map_idI, auto)

lemma row_del_keys: "map key (row_del key k rs) = filter (\<lambda>x. x \<noteq> k) (map key rs)"
  by (induction rs) (auto simp: row_del_def)

lemma row_get_del: "row_get key k' (row_del key k rs) = (if k' = k then None else row_get key k' rs)"
  by (induction rs) (auto simp: row_del_def)

lemma distinct_row_del: "distinct (map key rs) \<Longrightarrow> distinct (map key (row_del key k rs))"
  by (simp add: row_del_keys)

lemma row_del_absent: "k \<notin> key ` set rs \<Longrightarrow> row_del key k rs = rs"
  by (induction rs) (auto simp: row_del_def)

section \<open>Printing integers\<close>

fun show_nat :: "nat \<Rightarrow> string" where
  "show_nat n = (if n < 10 then [char_of (48 + n)] else show_nat (n div 10) @ [char_of (48 + n mod 10)])"

declare show_nat.simps [simp del]

definition show_int :: "int \<Rightarrow> string" where
  "show_int i = (if i < 0 then CHR ''-'' # show_nat (nat (- i)) else show_nat (nat i))"

text \<open>Different numbers are printed differently, and the print has no sign or dash.\<close>

definition read_nat :: "string \<Rightarrow> nat" where
  "read_nat s = foldl (\<lambda>a c. a * 10 + (of_char c - 48)) 0 s"

lemma read_show_nat: "read_nat (show_nat n) = n"
proof (induction n rule: show_nat.induct)
  case (1 n)
  show ?case
  proof (cases "n < 10")
    case True
    then show ?thesis by (simp add: show_nat.simps [of n] read_nat_def)
  next
    case False
    with 1 show ?thesis by (simp add: show_nat.simps [of n] read_nat_def)
  qed
qed

lemma show_nat_inj: "show_nat m = show_nat n \<longleftrightarrow> m = n"
  by (metis read_show_nat)

lemma show_nat_digits: "c \<in> set (show_nat n) \<Longrightarrow> 48 \<le> (of_char c :: nat)"
proof (induction n rule: show_nat.induct)
  case (1 n)
  then show ?case by (cases "n < 10") (auto simp: show_nat.simps [of n])
qed

lemma show_nat_no_dash: "CHR ''-'' \<notin> set (show_nat n)"
  using show_nat_digits [of "CHR ''-''" n] by auto

section \<open>Transition systems and invariants\<close>

locale step_system =
  fixes step :: "'s \<Rightarrow> 's \<Rightarrow> bool"
    and inv :: "'s \<Rightarrow> bool"
  assumes step_inv: "inv s \<Longrightarrow> step s t \<Longrightarrow> inv t"
begin

lemma steps_inv: "step\<^sup>*\<^sup>* s t \<Longrightarrow> inv s \<Longrightarrow> inv t"
  by (induction rule: rtranclp_induct) (auto intro: step_inv)

end

end
