(* ===== verification/Model.thy ===== *)
theory Model
  imports Prelude
begin

text \<open>
  The domain types of \<open>internal/model/model.go\<close>, the rows of the schema in
  \<open>migrations/0001_init.sql\<close>, and the errors the code returns.

  Conventions. A UUID is a natural number. A time stamp is an integer number of milliseconds.
  An \<open>int64\<close> is an integer whose operations are followed by \<open>wrap64\<close>. A nil pointer is \<open>None\<close>.
  \<open>Order.IdempotencyKey\<close> is the string of the struct; the column holds NULL exactly where the
  struct holds the empty string (\<open>OrderRepository.Create\<close> and \<open>Get\<close> translate both ways), so the
  row and the struct are one record.
\<close>

type_synonym uuid = nat
type_synonym time = int

section \<open>Errors\<close>

text \<open>
  \<open>ValidationError\<close> and \<open>InvariantError\<close> are the types of \<open>service/errors.go\<close>, \<open>ErrNotFound\<close> and
  \<open>ErrMiss\<close> the sentinels of the repositories and of the cache. \<open>ErrIO\<close> is any failure of an
  external call (connection lost, context cancelled); the violations are the errors PostgreSQL
  raises for the constraints of the schema and for casts out of range; \<open>WrongType\<close> is Redis's
  error for a command against a key that holds another kind of data; \<open>ErrDecode\<close> is a failed
  JSON decoding or UUID parse; \<open>ErrMsg\<close> is an error made by \<open>fmt.Errorf\<close>, \<open>ErrWrap\<close> one that
  wraps another with the verb \<open>%w\<close>. \<open>GoPanic\<close> is a run-time panic, which no caller handles as an error.
\<close>

datatype err =
    ValidationError string
  | InvariantError string
  | ErrNotFound
  | ErrMiss
  | ErrIO
  | UniqueViolation
  | CheckViolation
  | ForeignKeyViolation
  | OutOfRange
  | WrongType
  | ErrDecode
  | ErrMsg string
  | ErrWrap string err
  | GoPanic

section \<open>Ledger\<close>

record entry =
  entry_id :: int
  trade_id :: uuid
  entry_portfolio :: uuid
  entry_instrument :: string
  direction :: int
  entry_quantity :: int
  entry_price :: "int option"
  entry_created :: time
  entry_seq :: int

definition CASH :: string where
  "CASH = ''CASH''"

definition SignedValue :: "entry \<Rightarrow> int" where
  "SignedValue e =
     (let unit = (case entry_price e of None \<Rightarrow> 1 | Some p \<Rightarrow> p)
      in wrap64 (wrap64 (direction e * entry_quantity e) * unit))"

record portfolio =
  pf_id :: uuid
  pf_name :: string
  pf_created :: time
  seq_counter :: int

record order =
  order_id :: uuid
  order_portfolio :: uuid
  idempotency_key :: string
  side :: string
  order_instrument :: string
  order_quantity :: int
  order_type :: string
  limit_price :: "int option"
  order_status :: string
  fill_price :: "int option"
  reason :: "string option"
  order_created :: time

section \<open>Jobs and alerts\<close>

text \<open>
  A job's payload is JSON. The code marshals four shapes: the order payload of \<open>execute_order\<close> and
  \<open>settle\<close>, the empty object of \<open>poll_quotes\<close> and the alert payload; \<open>RawPayload\<close> is any other text.
\<close>

datatype payload =
    OrderPayload uuid
  | EmptyPayload
  | AlertPayload uuid string int int string string
  | RawPayload string

record job =
  job_id :: uuid
  job_type :: string
  job_payload :: payload
  priority :: int
  run_at :: time
  job_status :: string
  attempts :: int
  max_attempts :: int
  leased_until :: "time option"
  last_error :: "string option"
  job_created :: time

record dead_letter =
  dl_id :: uuid
  dl_type :: string
  dl_payload :: payload
  dl_attempts :: int
  dl_last_error :: "string option"
  died_at :: time

record alert =
  alert_id :: uuid
  alert_symbol :: string
  alert_direction :: string
  threshold :: int
  webhook_url :: string
  triggered :: bool
  alert_created :: time

definition JobExecuteOrder :: string where
  "JobExecuteOrder = ''execute_order''"

definition JobSettle :: string where
  "JobSettle = ''settle''"

definition JobPollQuotes :: string where
  "JobPollQuotes = ''poll_quotes''"

definition JobAlertWebhook :: string where
  "JobAlertWebhook = ''alert_webhook''"

lemmas job_type_defs = JobExecuteOrder_def JobSettle_def JobPollQuotes_def JobAlertWebhook_def

section \<open>Quotes and views\<close>

record quote =
  quote_symbol :: string
  quote_price :: int
  quote_as_of :: time

record position =
  pos_instrument :: string
  pos_quantity :: int
  pos_price :: int
  pos_market_value :: int

record portfolio_view =
  view_portfolio :: uuid
  view_cash :: int
  view_positions :: "position list"
  view_market_value :: int
  view_total_value :: int
  view_as_of :: time

section \<open>Facts about signed values\<close>

lemma in_int64_SignedValue [simp]: "in_int64 (SignedValue e)"
  by (simp add: SignedValue_def Let_def)

lemma SignedValue_wrap:
  "SignedValue e =
     wrap64 (direction e * entry_quantity e * (case entry_price e of None \<Rightarrow> 1 | Some p \<Rightarrow> p))"
  by (simp add: SignedValue_def Let_def)

end
