(* ===== verification/Store.thy ===== *)
theory Store
  imports Model
begin

text \<open>
  The state the program shares and the way it is reached: the PostgreSQL database (one record
  field per table of the schema), the Redis keyspace, the clock and the random source, in one
  record \<open>world\<close>, and effectful operations as functions of type \<open>'a io\<close> that return an error or a
  result together with the new world.

  Every external call (an SQL statement, the begin and commit of a transaction, a Redis command)
  takes one element of the \<^emph>\<open>fault plan\<close> \<open>faults\<close>: on \<open>True\<close> the call fails and has no effect,
  on \<open>False\<close> or an exhausted plan it is carried out. A theorem that holds for every world therefore
  holds whichever calls fail.

  \<open>runTx\<close> is \<open>TradingService.runTx\<close>: any error, or a failed commit, restores the tables; sequence
  values drawn for \<open>BIGSERIAL\<close> columns and effects outside the database are not undone.
\<close>

section \<open>Database and Redis\<close>

record db =
  portfolios :: "portfolio list"
  entries :: "entry list"
  orders :: "order list"
  jobs :: "job list"
  dead_letters :: "dead_letter list"
  processed_keys :: "string list"
  alerts :: "alert list"
  entries_serial :: int

record rl_config =
  mode :: string
  rate :: rat
  burst :: int
  window_ms :: int

text \<open>
  Keys of the Redis keyspace: \<open>quoteKey\<close> and \<open>snapKey\<close> of the cache, \<open>cfgKey\<close> and \<open>bucketKey\<close> of
  the limiter, whose prefixes keep the four families apart. The values are the JSON documents the
  code stores, the hash of a token bucket and the sorted set of a sliding window.
\<close>

datatype rkey =
    quoteKey string
  | snapKey uuid
  | cfgKey string
  | bucketKey string

datatype rval =
    RQuote quote
  | RSnapshot portfolio_view
  | RConfig rl_config
  | RHash rat int
  | RZSet "(int \<times> string) list"

type_synonym redis = "rkey \<Rightarrow> (rval \<times> time option) option"

record world =
  wdb :: db
  wredis :: redis
  clock :: time
  rng :: "nat \<Rightarrow> uuid"
  drawn :: nat
  faults :: "bool list"

section \<open>Effectful operations\<close>

type_synonym 'a io = "world \<Rightarrow> (err + 'a) \<times> world"

definition ret :: "'a \<Rightarrow> 'a io" where
  "ret x w = (Inr x, w)"

definition raise :: "err \<Rightarrow> 'a io" where
  "raise e w = (Inl e, w)"

definition bindE :: "'a io \<Rightarrow> ('a \<Rightarrow> 'b io) \<Rightarrow> 'b io" where
  "bindE m f w = (case m w of (Inl e, w') \<Rightarrow> (Inl e, w') | (Inr x, w') \<Rightarrow> f x w')"

definition attempt :: "'a io \<Rightarrow> (err + 'a) io" where
  "attempt m w = (case m w of (r, w') \<Rightarrow> (Inr r, w'))"

definition getW :: "world io" where
  "getW w = (Inr w, w)"

definition ext :: "'a io \<Rightarrow> 'a io" where
  "ext m w =
     (case faults w of
        [] \<Rightarrow> m w
      | b # bs \<Rightarrow> (if b then (Inl ErrIO, w\<lparr>faults := bs\<rparr>) else m (w\<lparr>faults := bs\<rparr>)))"

definition uuid_New :: "uuid io" where
  "uuid_New w = (Inr (rng w (drawn w)), w\<lparr>drawn := Suc (drawn w)\<rparr>)"

definition timeNow :: "time io" where
  "timeNow w = (Inr (clock w), w)"

text \<open>An SQL statement sees the database time and the tables; it fails or returns new tables.\<close>

definition sql :: "(time \<Rightarrow> db \<Rightarrow> err + 'a \<times> db) \<Rightarrow> 'a io" where
  "sql q = ext (\<lambda>w. case q (clock w) (wdb w) of
                      Inl e \<Rightarrow> (Inl e, w)
                    | Inr (x, d) \<Rightarrow> (Inr x, w\<lparr>wdb := d\<rparr>))"

definition rollback :: "world \<Rightarrow> world \<Rightarrow> world" where
  "rollback w0 w = w\<lparr>wdb := (wdb w0)\<lparr>entries_serial := entries_serial (wdb w)\<rparr>\<rparr>"

definition runTx :: "'a io \<Rightarrow> 'a io" where
  "runTx fn w =
     (case ext (ret ()) w of
        (Inl e, w1) \<Rightarrow> (Inl e, w1)
      | (Inr _, w1) \<Rightarrow>
          (case fn w1 of
             (Inl e, w2) \<Rightarrow> (Inl e, rollback w1 w2)
           | (Inr x, w2) \<Rightarrow>
               (case ext (ret x) w2 of
                  (Inl e, w3) \<Rightarrow> (Inl e, rollback w1 w3)
                | (Inr y, w3) \<Rightarrow> (Inr y, w3))))"

section \<open>Redis commands\<close>

definition rlive :: "time \<Rightarrow> redis \<Rightarrow> rkey \<Rightarrow> rval option" where
  "rlive now r k =
     (case r k of
        None \<Rightarrow> None
      | Some (v, None) \<Rightarrow> Some v
      | Some (v, Some t) \<Rightarrow> (if t < now then None else Some v))"

definition redis_get :: "rkey \<Rightarrow> rval option io" where
  "redis_get k = ext (\<lambda>w. (Inr (rlive (clock w) (wredis w) k), w))"

definition redis_set :: "rkey \<Rightarrow> rval \<Rightarrow> time option \<Rightarrow> unit io" where
  "redis_set k v ttl = ext (\<lambda>w.
     (Inr (), w\<lparr>wredis := (wredis w)(k \<mapsto> (v, map_option (\<lambda>t. clock w + t) ttl))\<rparr>))"

definition redis_del :: "rkey \<Rightarrow> unit io" where
  "redis_del k = ext (\<lambda>w. (Inr (), w\<lparr>wredis := (wredis w)(k := None)\<rparr>))"

section \<open>Running operations\<close>

lemma same_faults [simp]: "\<exists>bs. (w :: world) = w\<lparr>faults := bs\<rparr>"
  by (rule exI [of _ "faults w"]) simp

lemma same_serial [simp]: "\<exists>n. (d :: db) = d\<lparr>entries_serial := n\<rparr>"
  by (rule exI [of _ "entries_serial d"]) simp

lemma ret_run [run_simps]: "ret x w = (Inr x, w)"
  by (simp add: ret_def)

lemma raise_run [run_simps]: "raise e w = (Inl e, w)"
  by (simp add: raise_def)

lemma bindE_Inr_iff:
  "bindE m f w = (Inr y, w') \<longleftrightarrow> (\<exists>x w1. m w = (Inr x, w1) \<and> f x w1 = (Inr y, w'))"
  by (auto simp: bindE_def split: prod.splits sum.splits)

lemma bindE_InrE:
  assumes "bindE m f w = (Inr y, w')"
  obtains x w1 where "m w = (Inr x, w1)" and "f x w1 = (Inr y, w')"
  using assms by (auto simp: bindE_Inr_iff)

lemma bindE_Inl_iff:
  "bindE m f w = (Inl e, w') \<longleftrightarrow>
     m w = (Inl e, w') \<or> (\<exists>x w1. m w = (Inr x, w1) \<and> f x w1 = (Inl e, w'))"
  by (auto simp: bindE_def split: prod.splits sum.splits)

lemma bindE_ok: "m w = (Inr x, w1) \<Longrightarrow> bindE m f w = f x w1"
  by (simp add: bindE_def)

lemma bindE_err: "m w = (Inl e, w1) \<Longrightarrow> bindE m f w = (Inl e, w1)"
  by (simp add: bindE_def)

lemma timeNow_run [run_simps]: "timeNow w = (Inr (clock w), w)"
  by (simp add: timeNow_def)

lemma uuid_New_run [run_simps]:
  "uuid_New w = (Inr (rng w (drawn w)), w\<lparr>drawn := Suc (drawn w)\<rparr>)"
  by (simp add: uuid_New_def)

lemma ext_no_fault [run_simps]: "faults w = [] \<Longrightarrow> ext m w = m w"
  by (simp add: ext_def)

lemma sql_no_fault [run_simps]:
  "faults w = [] \<Longrightarrow> sql q w =
     (case q (clock w) (wdb w) of Inl e \<Rightarrow> (Inl e, w) | Inr (x, d) \<Rightarrow> (Inr x, w\<lparr>wdb := d\<rparr>))"
  by (simp add: sql_def ext_def)

text \<open>A successful statement ran on some remainder of the fault plan.\<close>

lemma sql_Inr_iff:
  "sql q w = (Inr x, w') \<longleftrightarrow>
     (\<exists>d bs. q (clock w) (wdb w) = Inr (x, d) \<and> w' = w\<lparr>wdb := d, faults := bs\<rparr> \<and>
        (faults w = [] \<and> bs = [] \<or> faults w = False # bs))"
proof -
  have "w\<lparr>wdb := d\<rparr> = w\<lparr>wdb := d, faults := []\<rparr>" if "faults w = []" for d
    using that by (cases w) simp
  then show ?thesis
    by (auto simp: sql_def ext_def split: list.splits sum.splits if_splits)
qed

lemma sql_Inl_wdb: "sql q w = (Inl e, w') \<Longrightarrow> wdb w' = wdb w"
  by (auto simp: sql_def ext_def split: list.splits sum.splits if_splits prod.splits)

lemma sql_InrE:
  assumes "sql q w = (Inr x, w')"
  obtains d where "q (clock w) (wdb w) = Inr (x, d)" and "wdb w' = d" and "wredis w' = wredis w"
    and "clock w' = clock w" and "rng w' = rng w" and "drawn w' = drawn w"
  using assms by (auto simp: sql_Inr_iff)

lemma ext_ret_Inr: "ext (ret x) w = (Inr y, w') \<Longrightarrow> y = x \<and> (\<exists>bs. w' = w\<lparr>faults := bs\<rparr>)"
  by (auto simp: ext_def ret_def split: list.splits if_splits)

lemma ext_ret_Inl: "ext (ret x) w = (Inl e, w') \<Longrightarrow> e = ErrIO \<and> (\<exists>bs. w' = w\<lparr>faults := bs\<rparr>)"
  by (auto simp: ext_def ret_def split: list.splits if_splits)

section \<open>Atomicity of transactions\<close>

lemma runTx_InrE:
  assumes "runTx fn w = (Inr x, w')"
  obtains bs w2 cs where "fn (w\<lparr>faults := bs\<rparr>) = (Inr x, w2)" and "w' = w2\<lparr>faults := cs\<rparr>"
  using assms by (auto simp: runTx_def split: prod.splits sum.splits dest!: ext_ret_Inr)

lemma runTx_Inl_tables:
  assumes "runTx fn w = (Inl e, w')"
  shows "\<exists>n. wdb w' = (wdb w)\<lparr>entries_serial := n\<rparr>"
  using assms
  by (auto simp: runTx_def rollback_def split: prod.splits sum.splits
      dest!: ext_ret_Inr ext_ret_Inl)

lemma runTx_no_fault [run_simps]:
  "faults w = [] \<Longrightarrow> runTx fn w =
     (case fn w of
        (Inl e, w2) \<Rightarrow> (Inl e, rollback w w2)
      | (Inr x, w2) \<Rightarrow> (case ext (ret x) w2 of
           (Inl e, w3) \<Rightarrow> (Inl e, rollback w w3) | (Inr y, w3) \<Rightarrow> (Inr y, w3)))"
  by (simp add: runTx_def ext_def ret_def)

section \<open>Preservation\<close>

text \<open>
  \<open>keeps I m\<close>: the operation keeps a predicate on the world whatever it returns and whichever calls
  fail. \<open>table_pred\<close> singles out predicates that look at the tables only.
\<close>

definition keeps :: "(world \<Rightarrow> bool) \<Rightarrow> 'a io \<Rightarrow> bool" where
  "keeps I m \<longleftrightarrow> (\<forall>w. I w \<longrightarrow> I (snd (m w)))"

lemma keepsD: "keeps I m \<Longrightarrow> I w \<Longrightarrow> m w = (r, w') \<Longrightarrow> I w'"
  by (metis keeps_def snd_conv)

lemma keeps_ret [keeps_intros]: "keeps I (ret x)"
  by (simp add: keeps_def ret_def)

lemma keeps_raise [keeps_intros]: "keeps I (raise e)"
  by (simp add: keeps_def raise_def)

lemma keeps_timeNow [keeps_intros]: "keeps I timeNow"
  by (simp add: keeps_def timeNow_def)

lemma keeps_getW [keeps_intros]: "keeps I getW"
  by (simp add: keeps_def getW_def)

lemma keeps_bindE [keeps_intros]: "keeps I m \<Longrightarrow> (\<And>x. keeps I (f x)) \<Longrightarrow> keeps I (bindE m f)"
  by (force simp: keeps_def bindE_def split: prod.splits sum.splits)

lemma keeps_bindE_post:
  assumes "keeps I m" and "\<And>w x w'. I w \<Longrightarrow> m w = (Inr x, w') \<Longrightarrow> J x w'"
    and "\<And>x w. I w \<Longrightarrow> J x w \<Longrightarrow> I (snd (f x w))"
  shows "keeps I (bindE m f)"
  unfolding keeps_def
proof (intro allI impI)
  fix w assume I: "I w"
  obtain r w1 where m: "m w = (r, w1)" by fastforce
  have I1: "I w1" using keepsD [OF assms(1) I m] .
  show "I (snd (bindE m f w))"
    using I I1 m assms(2,3) by (cases r) (auto simp: bindE_def)
qed

lemma keeps_attempt [keeps_intros]: "keeps I m \<Longrightarrow> keeps I (attempt m)"
  by (auto simp: keeps_def attempt_def split: prod.splits)

lemma keeps_If [keeps_intros]: "(b \<Longrightarrow> keeps I m) \<Longrightarrow> (\<not> b \<Longrightarrow> keeps I n) \<Longrightarrow> keeps I (if b then m else n)"
  by simp

definition on_tables :: "(db \<Rightarrow> bool) \<Rightarrow> world \<Rightarrow> bool" where
  "on_tables P w \<longleftrightarrow> P (wdb w)"

lemma keeps_uuid_New [keeps_intros]: "keeps (on_tables P) uuid_New"
  by (simp add: keeps_def uuid_New_def on_tables_def)

text \<open>An operation that keeps every predicate on the tables does not change them.\<close>

lemma keeps_all_wdb: "(\<And>P. keeps (on_tables P) m) \<Longrightarrow> m w = (r, w') \<Longrightarrow> wdb w' = wdb w"
  using keepsD [of "on_tables (\<lambda>d. d = wdb w)" m w r w'] by (simp add: on_tables_def)

lemma keeps_sql [keeps_intros]:
  "(\<And>now d x d'. P d \<Longrightarrow> q now d = Inr (x, d') \<Longrightarrow> P d') \<Longrightarrow> keeps (on_tables P) (sql q)"
  by (auto simp: keeps_def on_tables_def sql_def ext_def split: list.splits sum.splits)

lemma keeps_runTx:
  assumes "\<And>d n. P d \<Longrightarrow> P (d\<lparr>entries_serial := n\<rparr>)"
    and "\<And>w x w'. P (wdb w) \<Longrightarrow> fn w = (Inr x, w') \<Longrightarrow> P (wdb w')"
  shows "keeps (on_tables P) (runTx fn)"
  unfolding keeps_def on_tables_def
proof (intro allI impI)
  fix w :: world
  assume P: "P (wdb w)"
  obtain r w' where run: "runTx fn w = (r, w')" by fastforce
  show "P (wdb (snd (runTx fn w)))"
  proof (cases r)
    case (Inl e)
    with run P assms(1) show ?thesis by (auto dest!: runTx_Inl_tables)
  next
    case (Inr x)
    with run obtain bs w2 cs where "fn (w\<lparr>faults := bs\<rparr>) = (Inr x, w2)" "w' = w2\<lparr>faults := cs\<rparr>"
      by (auto elim: runTx_InrE)
    with assms(2) [of "w\<lparr>faults := bs\<rparr>"] P run show ?thesis by simp
  qed
qed

lemma keeps_redis [keeps_intros]:
  "keeps (on_tables P) (redis_get k)"
  "keeps (on_tables P) (redis_set k v ttl)"
  "keeps (on_tables P) (redis_del k)"
  by (auto simp: keeps_def on_tables_def redis_get_def redis_set_def redis_del_def ext_def
      split: list.splits)

section \<open>Runs without failures stay without failures\<close>

definition no_faults :: "world \<Rightarrow> bool" where
  "no_faults w \<longleftrightarrow> faults w = []"

lemma keeps_no_faults [keeps_intros]:
  "keeps no_faults (sql q)"
  "keeps no_faults uuid_New"
  "keeps no_faults (redis_get k)"
  "keeps no_faults (redis_set k v ttl)"
  "keeps no_faults (redis_del k)"
  by (auto simp: keeps_def no_faults_def sql_def ext_def uuid_New_def redis_get_def redis_set_def redis_del_def
      split: sum.splits)

lemma keeps_no_faults_runTx [keeps_intros]: "keeps no_faults fn \<Longrightarrow> keeps no_faults (runTx fn)"
  unfolding keeps_def no_faults_def
proof (intro allI impI)
  fix w :: world
  assume fn: "\<forall>w. faults w = [] \<longrightarrow> faults (snd (fn w)) = []" and nf: "faults w = []"
  obtain r w2 where run: "fn w = (r, w2)" by fastforce
  with fn nf have "faults w2 = []" by (metis snd_conv)
  with run nf show "faults (snd (runTx fn w)) = []"
    by (cases r) (simp_all add: runTx_def ext_def ret_def rollback_def)
qed

end
