(* ===== verification/Ledger_Repository.thy ===== *)
theory Ledger_Repository
  imports Store
begin

text \<open>
  The repositories of the trading core: \<open>portfolio_repository.go\<close>, \<open>entry_repository.go\<close> and
  \<open>order_repository.go\<close>. Each SQL text is a function on the tables (\<open>q_..\<close>), with the constraints of
  the schema as errors; the repository method runs it with \<open>sql\<close>.

  The locale \<open>posting\<close> states what the trading code relies on: appending an entry moves one balance by
  the entry's signed quantity. It is interpreted on the entries table.
\<close>

section \<open>Portfolios\<close>

definition q_insert_portfolio :: "uuid \<Rightarrow> string \<Rightarrow> time \<Rightarrow> db \<Rightarrow> err + unit \<times> db" where
  "q_insert_portfolio i name now d =
     (if i \<in> pf_id ` set (portfolios d) then Inl UniqueViolation
      else Inr ((), d\<lparr>portfolios := portfolios d @
             [\<lparr>pf_id = i, pf_name = name, pf_created = now, seq_counter = 0\<rparr>]\<rparr>))"

definition Portfolio_Create :: "string \<Rightarrow> uuid io" where
  "Portfolio_Create name =
     bindE uuid_New (\<lambda>i. bindE (sql (q_insert_portfolio i name)) (\<lambda>_. ret i))"

definition Portfolio_Exists :: "uuid \<Rightarrow> bool io" where
  "Portfolio_Exists i = sql (\<lambda>now d. Inr (i \<in> pf_id ` set (portfolios d), d))"

definition q_lock_portfolio :: "uuid \<Rightarrow> time \<Rightarrow> db \<Rightarrow> err + int \<times> db" where
  "q_lock_portfolio i now d =
     (case row_get pf_id i (portfolios d) of
        None \<Rightarrow> Inl ErrNotFound
      | Some p \<Rightarrow> Inr (seq_counter p, d))"

definition LockForUpdate :: "uuid \<Rightarrow> int io" where
  "LockForUpdate i = sql (q_lock_portfolio i)"

definition q_bump_seq :: "uuid \<Rightarrow> int \<Rightarrow> time \<Rightarrow> db \<Rightarrow> err + unit \<times> db" where
  "q_bump_seq i n now d =
     (case row_get pf_id i (portfolios d) of
        None \<Rightarrow> Inr ((), d)
      | Some p \<Rightarrow>
          (if in_int64 (seq_counter p + n)
           then Inr ((), d\<lparr>portfolios :=
                  row_upd pf_id i (\<lambda>p. p\<lparr>seq_counter := seq_counter p + n\<rparr>) (portfolios d)\<rparr>)
           else Inl OutOfRange))"

definition BumpSeq :: "uuid \<Rightarrow> int \<Rightarrow> unit io" where
  "BumpSeq i n = sql (q_bump_seq i n)"

section \<open>Entries\<close>

definition q_insert_entry :: "entry \<Rightarrow> time \<Rightarrow> db \<Rightarrow> err + unit \<times> db" where
  "q_insert_entry e now d =
     (if entry_quantity e \<le> 0 then Inl CheckViolation
      else if entry_portfolio e \<notin> pf_id ` set (portfolios d) then Inl ForeignKeyViolation
      else Inr ((), d\<lparr>entries := entries d @
                        [e\<lparr>entry_id := entries_serial d + 1, entry_created := now\<rparr>],
                      entries_serial := entries_serial d + 1\<rparr>))"

definition Entry_Insert :: "entry \<Rightarrow> unit io" where
  "Entry_Insert e = sql (q_insert_entry e)"

text \<open>The net signed quantity of an instrument over a list of entries: \<open>SUM(direction * quantity)\<close>.\<close>

definition net :: "entry list \<Rightarrow> string \<Rightarrow> int" where
  "net es i = (\<Sum>e \<leftarrow> filter (\<lambda>e. entry_instrument e = i) es. direction e * entry_quantity e)"

definition portfolio_entries :: "uuid \<Rightarrow> time option \<Rightarrow> db \<Rightarrow> entry list" where
  "portfolio_entries p as_of d =
     filter (\<lambda>e. entry_portfolio e = p \<and>
                 (case as_of of None \<Rightarrow> True | Some t \<Rightarrow> entry_created e \<le> t)) (entries d)"

definition q_holdings :: "uuid \<Rightarrow> time option \<Rightarrow> time \<Rightarrow> db \<Rightarrow> err + (string \<times> int) list \<times> db" where
  "q_holdings p as_of now d =
     (let es = portfolio_entries p as_of d;
          rows = map (\<lambda>i. (i, net es i)) (remdups (map entry_instrument es))
      in if list_all (\<lambda>(i, q). in_int64 q) rows then Inr (rows, d) else Inl OutOfRange)"

definition Holdings :: "uuid \<Rightarrow> time option \<Rightarrow> (string \<times> int) list io" where
  "Holdings p as_of = sql (q_holdings p as_of)"

text \<open>Reading a Go map of type \<open>map[string]int64\<close>: a missing key reads as 0.\<close>

definition map_at :: "(string \<times> int) list \<Rightarrow> string \<Rightarrow> int" where
  "map_at h k = (case map_of h k of None \<Rightarrow> 0 | Some v \<Rightarrow> v)"

definition Entry_List :: "uuid \<Rightarrow> entry list io" where
  "Entry_List p = sql (\<lambda>now d.
     Inr (sort_key entry_seq (filter (\<lambda>e. entry_portfolio e = p) (entries d)), d))"

definition DistinctSymbols :: "string list io" where
  "DistinctSymbols = sql (\<lambda>now d.
     Inr (remdups (filter (\<lambda>i. i \<noteq> CASH) (map entry_instrument (entries d))), d))"

section \<open>Orders\<close>

definition q_insert_order :: "order \<Rightarrow> time \<Rightarrow> db \<Rightarrow> err + unit \<times> db" where
  "q_insert_order ord now d =
     (if order_quantity ord \<le> 0 then Inl CheckViolation
      else if order_id ord \<in> order_id ` set (orders d) then Inl UniqueViolation
      else if idempotency_key ord \<noteq> [] \<and> idempotency_key ord \<in> idempotency_key ` set (orders d)
      then Inl UniqueViolation
      else if order_portfolio ord \<notin> pf_id ` set (portfolios d) then Inl ForeignKeyViolation
      else Inr ((), d\<lparr>orders := orders d @
                  [ord\<lparr>fill_price := None, reason := None, order_created := now\<rparr>]\<rparr>))"

definition Order_Create :: "order \<Rightarrow> unit io" where
  "Order_Create ord = sql (q_insert_order ord)"

definition q_get_order :: "uuid \<Rightarrow> time \<Rightarrow> db \<Rightarrow> err + order \<times> db" where
  "q_get_order i now d =
     (case row_get order_id i (orders d) of None \<Rightarrow> Inl ErrNotFound | Some r \<Rightarrow> Inr (r, d))"

definition Order_Get :: "uuid \<Rightarrow> order io" where
  "Order_Get i = sql (q_get_order i)"

definition q_get_by_key :: "string \<Rightarrow> time \<Rightarrow> db \<Rightarrow> err + order \<times> db" where
  "q_get_by_key k now d =
     (case find (\<lambda>r. idempotency_key r \<noteq> [] \<and> idempotency_key r = k) (orders d) of
        None \<Rightarrow> Inl ErrNotFound
      | Some r \<Rightarrow> Inr (r, d))"

definition GetByIdempotencyKey :: "string \<Rightarrow> order io" where
  "GetByIdempotencyKey k = sql (q_get_by_key k)"

definition q_set_filled :: "uuid \<Rightarrow> int \<Rightarrow> time \<Rightarrow> db \<Rightarrow> err + unit \<times> db" where
  "q_set_filled i price now d =
     Inr ((), d\<lparr>orders := row_upd order_id i
        (\<lambda>r. r\<lparr>order_status := ''filled'', fill_price := Some price, reason := None\<rparr>) (orders d)\<rparr>)"

definition SetFilled :: "uuid \<Rightarrow> int \<Rightarrow> unit io" where
  "SetFilled i price = sql (q_set_filled i price)"

definition q_set_status :: "uuid \<Rightarrow> string \<Rightarrow> string option \<Rightarrow> time \<Rightarrow> db \<Rightarrow> err + unit \<times> db" where
  "q_set_status i st why now d =
     Inr ((), d\<lparr>orders := row_upd order_id i
        (\<lambda>r. r\<lparr>order_status := st, reason := why\<rparr>) (orders d)\<rparr>)"

definition SetStatus :: "uuid \<Rightarrow> string \<Rightarrow> string option \<Rightarrow> unit io" where
  "SetStatus i st why = sql (q_set_status i st why)"

definition ListByPortfolio :: "uuid \<Rightarrow> nat \<Rightarrow> order list io" where
  "ListByPortfolio p limit = sql (\<lambda>now d.
     Inr (take limit (sort_key (\<lambda>r. - order_created r)
        (filter (\<lambda>r. order_portfolio r = p) (orders d))), d))"

section \<open>Balances\<close>

text \<open>The balance of an instrument in a portfolio: what \<open>Holdings\<close> computes from the event stream.\<close>

definition balance :: "db \<Rightarrow> uuid \<Rightarrow> string \<Rightarrow> int" where
  "balance d p i = net (portfolio_entries p None d) i"

lemma net_Nil [simp]: "net [] i = 0"
  by (simp add: net_def)

lemma net_append [simp]: "net (es @ fs) i = net es i + net fs i"
  by (simp add: net_def)

lemma net_Cons [simp]:
  "net (e # es) i = (if entry_instrument e = i then direction e * entry_quantity e else 0) + net es i"
  by (simp add: net_def)

lemma net_absent: "i \<notin> entry_instrument ` set es \<Longrightarrow> net es i = 0"
  by (induction es) auto

lemma map_at_rows:
  "map_at (map (\<lambda>i. (i, net es i)) (remdups (map entry_instrument es))) i = net es i"
proof (cases "i \<in> entry_instrument ` set es")
  case True
  have "map_of (map (\<lambda>i. (i, net es i)) (remdups (map entry_instrument es))) i = Some (net es i)"
    using True by (simp add: map_of_map_restrict)
  then show ?thesis by (simp add: map_at_def)
next
  case False
  then have "map_of (map (\<lambda>i. (i, net es i)) (remdups (map entry_instrument es))) i = None"
    by (auto simp: map_of_eq_None_iff)
  with False show ?thesis by (simp add: map_at_def net_absent)
qed

lemma q_holdings_Inr:
  assumes "q_holdings p as_of now d = Inr (h, d')"
  shows "d' = d" and "map_at h i = net (portfolio_entries p as_of d) i"
    and "distinct (map fst h)" and "in_int64 (map_at h i)"
proof -
  let ?es = "portfolio_entries p as_of d"
  have h: "h = map (\<lambda>i. (i, net ?es i)) (remdups (map entry_instrument ?es))" and "d' = d"
    and ok: "list_all (\<lambda>(i, q). in_int64 q) h"
    using assms by (auto simp: q_holdings_def Let_def split: if_splits)
  show "d' = d" by fact
  show val: "map_at h i = net ?es i" by (simp add: h map_at_rows)
  show "distinct (map fst h)" by (simp add: h comp_def)
  show "in_int64 (map_at h i)"
  proof (cases "map_of h i")
    case None
    then show ?thesis by (simp add: map_at_def in_int64_def)
  next
    case (Some v)
    then have "(i, v) \<in> set h" by (rule map_of_SomeD)
    with ok Some show ?thesis by (auto simp: map_at_def list_all_iff)
  qed
qed

lemma q_insert_entry_Inr:
  assumes "q_insert_entry e now d = Inr (x, d')"
  shows "0 < entry_quantity e" and "entry_portfolio e \<in> pf_id ` set (portfolios d)"
    and "d' = d\<lparr>entries := entries d @ [e\<lparr>entry_id := entries_serial d + 1, entry_created := now\<rparr>],
                entries_serial := entries_serial d + 1\<rparr>"
  using assms by (auto simp: q_insert_entry_def split: if_splits)

section \<open>The posting interface\<close>

locale posting =
  fixes post :: "'e \<Rightarrow> 'd \<Rightarrow> 'd"
    and bal :: "'d \<Rightarrow> 'p \<Rightarrow> 'i \<Rightarrow> int"
    and acct :: "'e \<Rightarrow> 'p"
    and instr :: "'e \<Rightarrow> 'i"
    and delta :: "'e \<Rightarrow> int"
  assumes bal_post: "bal (post e d) p i = bal d p i + (if acct e = p \<and> instr e = i then delta e else 0)"
begin

text \<open>A trade: two postings to one account, on two different instruments.\<close>

lemma bal_trade:
  assumes "acct e = acct f" and "instr e \<noteq> instr f"
  shows "bal (post f (post e d)) (acct e) (instr e) = bal d (acct e) (instr e) + delta e"
    and "bal (post f (post e d)) (acct e) (instr f) = bal d (acct e) (instr f) + delta f"
    and "p \<noteq> acct e \<or> i \<noteq> instr e \<and> i \<noteq> instr f \<Longrightarrow> bal (post f (post e d)) p i = bal d p i"
  using assms by (auto simp: bal_post)

lemma trade_nonneg:
  assumes "acct e = acct f" and "instr e \<noteq> instr f" and "\<And>p i. 0 \<le> bal d p i"
    and "0 \<le> bal d (acct e) (instr e) + delta e" and "0 \<le> bal d (acct e) (instr f) + delta f"
  shows "0 \<le> bal (post f (post e d)) p i"
  using assms by (auto simp: bal_post)

end

definition post_entry :: "time \<Rightarrow> entry \<Rightarrow> db \<Rightarrow> db" where
  "post_entry now e d = d\<lparr>entries := entries d @ [e\<lparr>entry_id := entries_serial d + 1, entry_created := now\<rparr>],
                          entries_serial := entries_serial d + 1\<rparr>"

interpretation ledger: posting "post_entry now" balance entry_portfolio entry_instrument
    "\<lambda>e. direction e * entry_quantity e" for now
  by unfold_locales (simp add: post_entry_def balance_def portfolio_entries_def)

lemma q_insert_entry_post:
  "q_insert_entry e now d = Inr (x, d') \<longleftrightarrow>
     0 < entry_quantity e \<and> entry_portfolio e \<in> pf_id ` set (portfolios d) \<and> d' = post_entry now e d"
  by (auto simp: q_insert_entry_def post_entry_def)

lemma post_entry_frame [simp]:
  "portfolios (post_entry now e d) = portfolios d"
  "orders (post_entry now e d) = orders d"
  "jobs (post_entry now e d) = jobs d"
  "dead_letters (post_entry now e d) = dead_letters d"
  "processed_keys (post_entry now e d) = processed_keys d"
  "alerts (post_entry now e d) = alerts d"
  by (simp_all add: post_entry_def)

lemma balance_frame [simp]:
  "balance (d\<lparr>portfolios := ps\<rparr>) p i = balance d p i"
  "balance (d\<lparr>orders := os\<rparr>) p i = balance d p i"
  "balance (d\<lparr>jobs := js\<rparr>) p i = balance d p i"
  "balance (d\<lparr>dead_letters := ds\<rparr>) p i = balance d p i"
  "balance (d\<lparr>alerts := xs\<rparr>) p i = balance d p i"
  "balance (d\<lparr>entries_serial := n\<rparr>) p i = balance d p i"
  by (simp_all add: balance_def portfolio_entries_def)

lemma portfolio_entries_frame [simp]:
  "portfolio_entries p t (d\<lparr>portfolios := ps\<rparr>) = portfolio_entries p t d"
  "portfolio_entries p t (d\<lparr>orders := os\<rparr>) = portfolio_entries p t d"
  "portfolio_entries p t (d\<lparr>jobs := js\<rparr>) = portfolio_entries p t d"
  by (simp_all add: portfolio_entries_def)

end
