(* ===== verification/Job_Repository.thy ===== *)
theory Job_Repository
  imports Store "HOL-Library.Product_Lexorder"
begin

text \<open>
  \<open>job_repository.go\<close> and \<open>alert_repository.go\<close>: the durable job queue with its dead-letter table and
  the price alerts, as SQL on the tables. \<open>MoveToDead\<close> and \<open>ReapExpired\<close> are two statements each, as
  in the code, so a failure between them is possible.
\<close>

section \<open>Queue\<close>

definition q_insert_job ::
    "uuid \<Rightarrow> string \<Rightarrow> payload \<Rightarrow> int \<Rightarrow> time \<Rightarrow> int \<Rightarrow> time \<Rightarrow> db \<Rightarrow> err + unit \<times> db" where
  "q_insert_job i typ pl prio runAt maxAtt now d =
     (if i \<in> job_id ` set (jobs d) then Inl UniqueViolation
      else Inr ((), d\<lparr>jobs := jobs d @
        [\<lparr>job_id = i, job_type = typ, job_payload = pl, priority = prio, run_at = runAt,
          job_status = ''queued'', attempts = 0, max_attempts = maxAtt, leased_until = None,
          last_error = None, job_created = now\<rparr>]\<rparr>))"

definition Enqueue :: "string \<Rightarrow> payload \<Rightarrow> int \<Rightarrow> time \<Rightarrow> int \<Rightarrow> uuid io" where
  "Enqueue typ pl prio runAt maxAtt =
     bindE uuid_New (\<lambda>i. bindE (sql (q_insert_job i typ pl prio runAt maxAtt)) (\<lambda>_. ret i))"

definition runnable :: "time \<Rightarrow> job \<Rightarrow> bool" where
  "runnable now j \<longleftrightarrow> job_status j = ''queued'' \<and> run_at j \<le> now"

text \<open>\<open>ORDER BY priority DESC, run_at ASC LIMIT 1\<close> over the runnable rows.\<close>

definition next_job :: "time \<Rightarrow> job list \<Rightarrow> job option" where
  "next_job now js =
     (case sort_key (\<lambda>j. (- priority j, run_at j)) (filter (runnable now) js) of
        [] \<Rightarrow> None
      | j # _ \<Rightarrow> Some j)"

definition lease :: "time \<Rightarrow> int \<Rightarrow> job \<Rightarrow> job" where
  "lease now secs j =
     j\<lparr>job_status := ''inflight'', leased_until := Some (now + secs * 1000), attempts := attempts j + 1\<rparr>"

definition q_claim :: "int \<Rightarrow> time \<Rightarrow> db \<Rightarrow> err + job option \<times> db" where
  "q_claim secs now d =
     (case next_job now (jobs d) of
        None \<Rightarrow> Inr (None, d)
      | Some j \<Rightarrow>
          (if attempts j + 1 < 2 ^ 31
           then Inr (Some (lease now secs j),
                     d\<lparr>jobs := row_upd job_id (job_id j) (lease now secs) (jobs d)\<rparr>)
           else Inl OutOfRange))"

definition Claim :: "int \<Rightarrow> job option io" where
  "Claim secs = sql (q_claim secs)"

definition q_complete :: "uuid \<Rightarrow> time \<Rightarrow> db \<Rightarrow> err + unit \<times> db" where
  "q_complete i now d = Inr ((), d\<lparr>jobs := row_upd job_id i
     (\<lambda>j. j\<lparr>job_status := ''done'', leased_until := None\<rparr>) (jobs d)\<rparr>)"

definition Complete :: "uuid \<Rightarrow> unit io" where
  "Complete i = sql (q_complete i)"

definition q_retry :: "uuid \<Rightarrow> time \<Rightarrow> string \<Rightarrow> time \<Rightarrow> db \<Rightarrow> err + unit \<times> db" where
  "q_retry i runAt msg now d = Inr ((), d\<lparr>jobs := row_upd job_id i
     (\<lambda>j. j\<lparr>job_status := ''queued'', run_at := runAt, leased_until := None, last_error := Some msg\<rparr>)
     (jobs d)\<rparr>)"

definition Retry :: "uuid \<Rightarrow> time \<Rightarrow> string \<Rightarrow> unit io" where
  "Retry i runAt msg = sql (q_retry i runAt msg)"

definition bury :: "time \<Rightarrow> string \<Rightarrow> job \<Rightarrow> dead_letter" where
  "bury now msg j = \<lparr>dl_id = job_id j, dl_type = job_type j, dl_payload = job_payload j,
     dl_attempts = attempts j, dl_last_error = Some msg, died_at = now\<rparr>"

definition q_insert_dead :: "job \<Rightarrow> string \<Rightarrow> time \<Rightarrow> db \<Rightarrow> err + unit \<times> db" where
  "q_insert_dead j msg now d =
     (if job_id j \<in> dl_id ` set (dead_letters d) then Inl UniqueViolation
      else Inr ((), d\<lparr>dead_letters := dead_letters d @ [bury now msg j]\<rparr>))"

definition q_delete_job :: "uuid \<Rightarrow> time \<Rightarrow> db \<Rightarrow> err + unit \<times> db" where
  "q_delete_job i now d = Inr ((), d\<lparr>jobs := row_del job_id i (jobs d)\<rparr>)"

definition MoveToDead :: "job \<Rightarrow> string \<Rightarrow> unit io" where
  "MoveToDead j msg =
     bindE (sql (q_insert_dead j msg)) (\<lambda>_. sql (q_delete_job (job_id j)))"

definition expired :: "time \<Rightarrow> job \<Rightarrow> bool" where
  "expired now j \<longleftrightarrow> job_status j = ''inflight'' \<and>
     (case leased_until j of None \<Rightarrow> False | Some t \<Rightarrow> t < now)"

definition exhausted :: "job \<Rightarrow> bool" where
  "exhausted j \<longleftrightarrow> max_attempts j \<le> attempts j"

definition q_reap_dead :: "time \<Rightarrow> db \<Rightarrow> err + int \<times> db" where
  "q_reap_dead now d =
     (let moved = filter (\<lambda>j. expired now j \<and> exhausted j) (jobs d)
      in if list_ex (\<lambda>j. job_id j \<in> dl_id ` set (dead_letters d)) moved then Inl UniqueViolation
         else Inr (int (length moved),
           d\<lparr>jobs := filter (\<lambda>j. \<not> (expired now j \<and> exhausted j)) (jobs d),
             dead_letters := dead_letters d @
               map (bury now ''lease expired (max attempts reached)'') moved\<rparr>))"

definition requeue :: "job \<Rightarrow> job" where
  "requeue j = j\<lparr>job_status := ''queued'', leased_until := None,
     last_error := Some ''lease expired, requeued''\<rparr>"

definition q_reap_requeue :: "time \<Rightarrow> db \<Rightarrow> err + int \<times> db" where
  "q_reap_requeue now d =
     Inr (int (length (filter (expired now) (jobs d))),
       d\<lparr>jobs := map (\<lambda>j. if expired now j then requeue j else j) (jobs d)\<rparr>)"

definition ReapExpired :: "(int \<times> int) io" where
  "ReapExpired =
     bindE (sql q_reap_dead) (\<lambda>dl. bindE (sql q_reap_requeue) (\<lambda>rq. ret (rq, dl)))"

definition dead_job :: "dead_letter \<Rightarrow> job" where
  "dead_job l = \<lparr>job_id = dl_id l, job_type = dl_type l, job_payload = dl_payload l, priority = 0,
     run_at = 0, job_status = ''dead'', attempts = dl_attempts l, max_attempts = 0,
     leased_until = None, last_error = dl_last_error l, job_created = died_at l\<rparr>"

definition ListDead :: "nat \<Rightarrow> job list io" where
  "ListDead limit = sql (\<lambda>now d.
     Inr (map dead_job (take limit (sort_key (\<lambda>l. - died_at l) (dead_letters d))), d))"

definition revive :: "time \<Rightarrow> dead_letter \<Rightarrow> job" where
  "revive now l = \<lparr>job_id = dl_id l, job_type = dl_type l, job_payload = dl_payload l, priority = 0,
     run_at = now, job_status = ''queued'', attempts = 0, max_attempts = 5,
     leased_until = None, last_error = None, job_created = now\<rparr>"

definition q_replay :: "uuid \<Rightarrow> time \<Rightarrow> db \<Rightarrow> err + nat \<times> db" where
  "q_replay i now d =
     (case row_get dl_id i (dead_letters d) of
        None \<Rightarrow> Inr (0, d)
      | Some l \<Rightarrow>
          (if i \<in> job_id ` set (jobs d) then Inl UniqueViolation
           else Inr (1, d\<lparr>dead_letters := row_del dl_id i (dead_letters d),
                          jobs := jobs d @ [revive now l]\<rparr>)))"

definition Replay :: "uuid \<Rightarrow> unit io" where
  "Replay i = bindE (sql (q_replay i)) (\<lambda>n. if n = 0 then raise ErrNotFound else ret ())"

record queue_stats =
  stat_queued :: int
  stat_inflight :: int
  stat_done :: int
  stat_dead :: int

definition count_status :: "string \<Rightarrow> job list \<Rightarrow> int" where
  "count_status st js = (\<Sum>j \<leftarrow> js. if job_status j = st then 1 else 0)"

definition Stats :: "queue_stats io" where
  "Stats =
     bindE (sql (\<lambda>now d. Inr ((count_status ''queued'' (jobs d), count_status ''inflight'' (jobs d),
                               count_status ''done'' (jobs d)), d))) (\<lambda>(q, i, f).
     bindE (sql (\<lambda>now d. Inr (int (length (dead_letters d)), d))) (\<lambda>n.
     ret \<lparr>stat_queued = q, stat_inflight = i, stat_done = f, stat_dead = n\<rparr>))"

definition active_of_type :: "string \<Rightarrow> job \<Rightarrow> bool" where
  "active_of_type typ j \<longleftrightarrow> job_type j = typ \<and> (job_status j = ''queued'' \<or> job_status j = ''inflight'')"

definition HasActive :: "string \<Rightarrow> bool io" where
  "HasActive typ = sql (\<lambda>now d. Inr (0 < length (filter (active_of_type typ) (jobs d)), d))"

definition MarkProcessed :: "string \<Rightarrow> bool io" where
  "MarkProcessed k = sql (\<lambda>now d.
     if k \<in> set (processed_keys d) then Inr (False, d)
     else Inr (True, d\<lparr>processed_keys := processed_keys d @ [k]\<rparr>))"

section \<open>Alerts\<close>

definition q_insert_alert :: "uuid \<Rightarrow> string \<Rightarrow> string \<Rightarrow> int \<Rightarrow> string \<Rightarrow> time \<Rightarrow> db \<Rightarrow> err + unit \<times> db" where
  "q_insert_alert i symb dir thr url now d =
     (if i \<in> alert_id ` set (alerts d) then Inl UniqueViolation
      else Inr ((), d\<lparr>alerts := alerts d @
        [\<lparr>alert_id = i, alert_symbol = symb, alert_direction = dir, threshold = thr,
          webhook_url = url, triggered = False, alert_created = now\<rparr>]\<rparr>))"

definition Alert_Create :: "string \<Rightarrow> string \<Rightarrow> int \<Rightarrow> string \<Rightarrow> uuid io" where
  "Alert_Create symb dir thr url =
     bindE uuid_New (\<lambda>i. bindE (sql (q_insert_alert i symb dir thr url)) (\<lambda>_. ret i))"

definition ListActive :: "alert list io" where
  "ListActive = sql (\<lambda>now d. Inr (filter (\<lambda>a. \<not> triggered a) (alerts d), d))"

definition q_mark_triggered :: "uuid \<Rightarrow> time \<Rightarrow> db \<Rightarrow> err + unit \<times> db" where
  "q_mark_triggered i now d =
     Inr ((), d\<lparr>alerts := row_upd alert_id i (\<lambda>a. a\<lparr>triggered := True\<rparr>) (alerts d)\<rparr>)"

definition MarkTriggered :: "uuid \<Rightarrow> unit io" where
  "MarkTriggered i = sql (q_mark_triggered i)"

definition Alert_Symbols :: "string list io" where
  "Alert_Symbols = sql (\<lambda>now d.
     Inr (remdups (map alert_symbol (filter (\<lambda>a. \<not> triggered a) (alerts d))), d))"

section \<open>The row to claim\<close>

lemma next_job_Some:
  assumes "next_job now js = Some j"
  shows "j \<in> set js" and "runnable now j"
    and "k \<in> set js \<Longrightarrow> runnable now k \<Longrightarrow>
           priority k < priority j \<or> priority k = priority j \<and> run_at j \<le> run_at k"
proof -
  let ?key = "\<lambda>j. (- priority j, run_at j)"
  let ?r = "filter (runnable now) js"
  obtain rest where sk: "sort_key ?key ?r = j # rest"
    using assms by (auto simp: next_job_def split: list.splits)
  then have "j \<in> set (sort_key ?key ?r)" by simp
  then have "j \<in> set ?r" by simp
  then show "j \<in> set js" and "runnable now j" by auto
  assume "k \<in> set js" and "runnable now k"
  then have "k \<in> set (sort_key ?key ?r)" by simp
  then have k: "k \<in> set (j # rest)" by (simp only: sk)
  have "sorted (map ?key (j # rest))" by (metis sk sorted_sort_key)
  with k have "?key j \<le> ?key k" by auto
  then show "priority k < priority j \<or> priority k = priority j \<and> run_at j \<le> run_at k"
    by (auto simp: less_eq_prod_def less_prod_def)
qed

lemma next_job_None: "next_job now js = None \<longleftrightarrow> (\<forall>j \<in> set js. \<not> runnable now j)"
proof -
  have "next_job now js = None \<longleftrightarrow> sort_key (\<lambda>j. (- priority j, run_at j)) (filter (runnable now) js) = []"
    by (simp add: next_job_def split: list.splits)
  also have "\<dots> \<longleftrightarrow> filter (runnable now) js = []"
    by (metis length_0_conv length_sort)
  finally show ?thesis by (simp add: filter_empty_conv)
qed

lemma lease_simps [simp]:
  "job_id (lease now s j) = job_id j"
  "job_type (lease now s j) = job_type j"
  "job_payload (lease now s j) = job_payload j"
  "job_status (lease now s j) = ''inflight''"
  "leased_until (lease now s j) = Some (now + s * 1000)"
  "attempts (lease now s j) = attempts j + 1"
  "max_attempts (lease now s j) = max_attempts j"
  "run_at (lease now s j) = run_at j"
  "priority (lease now s j) = priority j"
  by (simp_all add: lease_def)

lemma requeue_simps [simp]:
  "job_id (requeue j) = job_id j"
  "job_type (requeue j) = job_type j"
  "job_status (requeue j) = ''queued''"
  "leased_until (requeue j) = None"
  "attempts (requeue j) = attempts j"
  "max_attempts (requeue j) = max_attempts j"
  by (simp_all add: requeue_def)

lemma bury_simps [simp]: "dl_id (bury now msg j) = job_id j"
  by (simp add: bury_def)

lemma revive_simps [simp]: "job_id (revive now l) = dl_id l"
  by (simp add: revive_def)

end
