(* ===== verification/Cache.thy ===== *)
theory Cache
  imports Store
begin

text \<open>
  \<open>internal/cache/cache.go\<close>: quotes with a time to live (none when the configured number of
  seconds is not positive) and portfolio snapshots that live five seconds, in Redis. Storing and reading back a JSON document gives the document; reading a key of
  another Redis type is an error.
\<close>

definition GetQuote :: "string \<Rightarrow> quote io" where
  "GetQuote s = bindE (redis_get (quoteKey s)) (\<lambda>r.
     case r of
       None \<Rightarrow> raise ErrMiss
     | Some (RQuote q) \<Rightarrow> ret q
     | Some (RHash _ _) \<Rightarrow> raise WrongType
     | Some (RZSet _) \<Rightarrow> raise WrongType
     | Some _ \<Rightarrow> raise ErrDecode)"

definition SetQuote :: "int \<Rightarrow> quote \<Rightarrow> unit io" where
  "SetQuote ttlSecs q = redis_set (quoteKey (quote_symbol q)) (RQuote q)
     (if 0 < ttlSecs then Some (ttlSecs * 1000) else None)"

definition GetSnapshot :: "uuid \<Rightarrow> portfolio_view io" where
  "GetSnapshot i = bindE (redis_get (snapKey i)) (\<lambda>r.
     case r of
       None \<Rightarrow> raise ErrMiss
     | Some (RSnapshot v) \<Rightarrow> ret v
     | Some (RHash _ _) \<Rightarrow> raise WrongType
     | Some (RZSet _) \<Rightarrow> raise WrongType
     | Some _ \<Rightarrow> raise ErrDecode)"

definition SetSnapshot :: "portfolio_view \<Rightarrow> unit io" where
  "SetSnapshot v = redis_set (snapKey (view_portfolio v)) (RSnapshot v) (Some 5000)"

definition InvalidateSnapshot :: "uuid \<Rightarrow> unit io" where
  "InvalidateSnapshot i = redis_del (snapKey i)"

lemma keeps_cache [keeps_intros]:
  "keeps (on_tables P) (GetQuote s)"
  "keeps (on_tables P) (SetQuote ttl q)"
  "keeps (on_tables P) (GetSnapshot i)"
  "keeps (on_tables P) (SetSnapshot v)"
  "keeps (on_tables P) (InvalidateSnapshot i)"
  unfolding GetQuote_def SetQuote_def GetSnapshot_def SetSnapshot_def InvalidateSnapshot_def
  by (auto intro!: keeps_intros split: option.splits rval.splits)

end
