(* ===== verification/Go_Float.thy ===== *)
theory Go_Float
  imports Prelude
begin

text \<open>
  Floating point as the code uses it (Go's \<open>float64\<close>, the numbers of Redis's Lua): the value of a
  \<open>float64\<close> is a rational, and every operation rounds its exact result with \<open>dbl\<close>, which keeps 53
  significant bits and rounds halves to even. The exponent range is not bounded: overflow,
  subnormal numbers and NaN do not occur for the magnitudes the code computes with.

  The main fact is \<open>dbl_error\<close>, the relative error bound \<open>2^-53\<close> of one rounding.
\<close>

definition pow2 :: "int \<Rightarrow> rat" where
  "pow2 k = (if 0 \<le> k then 2 ^ nat k else 1 / 2 ^ nat (- k))"

function blen :: "int \<Rightarrow> nat" where
  "blen n = (if n < 2 then 0 else Suc (blen (n div 2)))"
  by auto
termination by (relation "measure nat") auto

declare blen.simps [simp del]

text \<open>The binary exponent of a positive rational: the \<open>e\<close> with \<open>2^e \<le> x < 2^(e+1)\<close>.\<close>

definition ilog2 :: "rat \<Rightarrow> int" where
  "ilog2 x =
     (let (p, q) = quotient_of x; e = int (blen p) - int (blen q)
      in if pow2 e \<le> x then e else e - 1)"

definition round_even :: "rat \<Rightarrow> int" where
  "round_even y =
     (let f = \<lfloor>y\<rfloor>; r = y - of_int f
      in if r < 1 / 2 then f else if 1 / 2 < r then f + 1 else if even f then f else f + 1)"

definition dbl :: "rat \<Rightarrow> rat" where
  "dbl x = (if x = 0 then 0
            else let s = pow2 (52 - ilog2 \<bar>x\<bar>) in of_int (round_even (x * s)) / s)"

text \<open>Conversion of a \<open>float64\<close> to an integer type truncates towards zero.\<close>

definition go_trunc :: "rat \<Rightarrow> int" where
  "go_trunc x = (if 0 \<le> x then \<lfloor>x\<rfloor> else \<lceil>x\<rceil>)"

lemma pow2_pos [simp]: "0 < pow2 k"
  by (simp add: pow2_def)

lemma pow2_add: "pow2 (a + b) = pow2 a * pow2 b"
proof -
  have "pow2 k = 2 powi k" for k
    by (simp add: pow2_def power_int_def field_simps)
  then show ?thesis by (simp add: power_int_add)
qed

lemma pow2_0 [simp]: "pow2 0 = 1"
  by (simp add: pow2_def)

lemma pow2_1 [simp]: "pow2 1 = 2"
  by (simp add: pow2_def)

lemma blen_bounds: "0 < n \<Longrightarrow> 2 ^ blen n \<le> n \<and> n < 2 ^ Suc (blen n)"
proof (induction n rule: blen.induct)
  case (1 n)
  show ?case
  proof (cases "n < 2")
    case True
    with "1.prems" show ?thesis by (simp add: blen.simps [of n])
  next
    case False
    then have "2 ^ blen (n div 2) \<le> n div 2 \<and> n div 2 < 2 ^ Suc (blen (n div 2))"
      using "1.IH" by simp
    with False show ?thesis by (simp add: blen.simps [of n]) linarith
  qed
qed

lemma ilog2_bounds:
  assumes "0 < x"
  shows "pow2 (ilog2 x) \<le> x \<and> x < 2 * pow2 (ilog2 x)"
proof -
  obtain p q where pq: "quotient_of x = (p, q)" by fastforce
  have q0: "0 < q" using pq by (rule quotient_of_denom_pos)
  have x: "x = of_int p / of_int q" using pq by (rule quotient_of_div)
  have p0: "0 < p"
  proof (rule ccontr)
    assume "\<not> 0 < p"
    then have "x \<le> 0" using q0 by (simp add: x divide_nonpos_pos)
    with assms show False by simp
  qed
  define a b where "a = blen p" and "b = blen q"
  have an: "2 ^ a \<le> p \<and> p < 2 ^ Suc a" and bn: "2 ^ b \<le> q \<and> q < 2 ^ Suc b"
    using blen_bounds [of p] blen_bounds [of q] p0 q0 unfolding a_def b_def by simp_all
  have A: "(2::rat) ^ a \<le> of_int p" "of_int p < (2::rat) * 2 ^ a"
  proof -
    have "rat_of_int (2 ^ a) \<le> rat_of_int p" "rat_of_int p < rat_of_int (2 ^ Suc a)"
      using an by (simp_all only: of_int_le_iff of_int_less_iff)
    then show "(2::rat) ^ a \<le> of_int p" "of_int p < (2::rat) * 2 ^ a" by simp_all
  qed
  have B: "(2::rat) ^ b \<le> of_int q" "of_int q < (2::rat) * 2 ^ b"
  proof -
    have "rat_of_int (2 ^ b) \<le> rat_of_int q" "rat_of_int q < rat_of_int (2 ^ Suc b)"
      using bn by (simp_all only: of_int_le_iff of_int_less_iff)
    then show "(2::rat) ^ b \<le> of_int q" "of_int q < (2::rat) * 2 ^ b" by simp_all
  qed
  have q1: "(0::rat) < of_int q" using q0 by simp
  have e: "pow2 (int a - int b) = 2 ^ a / 2 ^ b"
    using pow2_add [of "int a - int b" "int b"] by (simp add: pow2_def field_simps)
  have upper: "x < 2 * pow2 (int a - int b)"
  proof -
    have "of_int p * 2 ^ b < (2::rat) * 2 ^ a * of_int q"
      by (rule le_less_trans [OF mult_left_mono [OF B(1)] mult_strict_right_mono [OF A(2) q1]])
        (use p0 in simp)
    then show ?thesis using q1 by (simp add: x e field_simps)
  qed
  have lower: "pow2 (int a - int b) < 2 * x"
  proof -
    have "2 ^ a * of_int q < of_int p * ((2::rat) * 2 ^ b)"
      by (rule le_less_trans [OF mult_right_mono [OF A(1)] mult_strict_left_mono [OF B(2)]])
        (use p0 q0 in simp_all)
    then show ?thesis using q1 by (simp add: x e field_simps)
  qed
  have half: "pow2 (int a - int b - 1) = pow2 (int a - int b) / 2"
    using pow2_add [of "int a - int b - 1" 1] by simp
  show ?thesis
    using upper lower half by (auto simp: ilog2_def pq Let_def a_def [symmetric] b_def [symmetric])
qed

lemma round_even_error: "\<bar>of_int (round_even y) - y\<bar> \<le> 1 / 2"
proof -
  have "of_int \<lfloor>y\<rfloor> \<le> y" "y < of_int \<lfloor>y\<rfloor> + 1" by linarith+
  then show ?thesis by (simp add: round_even_def Let_def abs_le_iff)
qed

lemma dbl_0 [simp]: "dbl 0 = 0"
  by (simp add: dbl_def)

lemma dbl_error: "\<bar>dbl x - x\<bar> \<le> \<bar>x\<bar> / 2 ^ 53"
proof (cases "x = 0")
  case True
  then show ?thesis by simp
next
  case False
  define e s where "e = ilog2 \<bar>x\<bar>" and "s = pow2 (52 - e)"
  have s: "0 < s" by (simp add: s_def)
  have "dbl x - x = (of_int (round_even (x * s)) - x * s) / s"
    using False s by (simp add: dbl_def Let_def e_def [symmetric] s_def [symmetric] field_simps)
  then have "\<bar>dbl x - x\<bar> = \<bar>of_int (round_even (x * s)) - x * s\<bar> / s"
    using s by (simp add: abs_div)
  also have "\<dots> \<le> (1 / 2) / s"
    using round_even_error s by (intro divide_right_mono) simp_all
  also have "\<dots> \<le> \<bar>x\<bar> / 2 ^ 53"
  proof -
    have "pow2 e \<le> \<bar>x\<bar>" using ilog2_bounds [of "\<bar>x\<bar>"] False by (simp add: e_def)
    moreover have "pow2 e * s = 2 ^ 52"
      using pow2_add [of e "52 - e"] by (simp add: s_def pow2_def)
    ultimately have "2 ^ 52 \<le> \<bar>x\<bar> * s" using s by (metis mult_right_mono less_imp_le)
    then show ?thesis using s by (simp add: field_simps)
  qed
  finally show ?thesis .
qed

lemma dbl_upper: "0 \<le> x \<Longrightarrow> dbl x \<le> x * (1 + 1 / 2 ^ 53)"
proof -
  assume "0 \<le> x"
  then have "dbl x - x \<le> x / 2 ^ 53" using dbl_error [of x] by (simp only: abs_le_iff) simp
  then show ?thesis by (simp add: algebra_simps)
qed

lemma dbl_lower: "0 \<le> x \<Longrightarrow> x * (1 - 1 / 2 ^ 53) \<le> dbl x"
proof -
  assume "0 \<le> x"
  then have "- (dbl x - x) \<le> x / 2 ^ 53" using dbl_error [of x] by (simp only: abs_le_iff) simp
  then show ?thesis by (simp add: algebra_simps)
qed

lemma dbl_nonneg: "0 \<le> x \<Longrightarrow> 0 \<le> dbl x"
proof -
  assume "0 \<le> x"
  then have "0 \<le> x * (1 - 1 / 2 ^ 53)" by (intro mult_nonneg_nonneg) simp_all
  with dbl_lower [OF \<open>0 \<le> x\<close>] show ?thesis by linarith
qed

text \<open>Integers of at most 53 bits are represented exactly.\<close>

lemma round_even_of_int [simp]: "round_even (of_int k) = k"
  by (simp add: round_even_def)

lemma dbl_of_int:
  assumes "\<bar>k\<bar> < 2 ^ 53"
  shows "dbl (of_int k) = of_int k"
proof (cases "k = 0")
  case True
  then show ?thesis by simp
next
  case False
  define e where "e = ilog2 \<bar>of_int k\<bar>"
  have "pow2 e \<le> \<bar>of_int k\<bar>" using ilog2_bounds [of "\<bar>of_int k\<bar>"] False by (simp add: e_def)
  also have "\<dots> < 2 ^ 53"
  proof -
    have "rat_of_int \<bar>k\<bar> < rat_of_int (2 ^ 53)" using assms by (simp only: of_int_less_iff)
    then show ?thesis by simp
  qed
  finally have "pow2 e < pow2 53" by (simp add: pow2_def)
  have "e \<le> 52"
  proof (rule ccontr)
    assume "\<not> e \<le> 52"
    then have "pow2 e = pow2 53 * pow2 (e - 53)" "1 \<le> pow2 (e - 53)"
      using pow2_add [of 53 "e - 53"] by (simp_all add: pow2_def)
    then have "pow2 53 \<le> pow2 e"
      using mult_left_mono [of 1 "pow2 (e - 53)" "pow2 53"] by simp
    with \<open>pow2 e < pow2 53\<close> show False by simp
  qed
  then have "pow2 (52 - e) = of_int (2 ^ nat (52 - e))" by (simp add: pow2_def)
  then have "round_even (of_int k * pow2 (52 - e)) = k * 2 ^ nat (52 - e)"
    by (metis of_int_mult round_even_of_int)
  with False \<open>e \<le> 52\<close> show ?thesis
    by (simp add: dbl_def e_def [symmetric] pow2_def)
qed

end
