(* ===== verification/Market_Data.thy ===== *)
theory Market_Data
  imports Go_Float Model
begin

text \<open>
  \<open>internal/marketdata/marketdata.go\<close>: the NSE universe, the \<open>Provider\<close> interface, the offline stub
  and the Finnhub client.

  A provider is the record of its three methods; \<open>Quote\<close> also takes the time, which the stub reads
  from the clock. What is outside the repository is a parameter: \<open>gosin\<close> stands for \<open>math.Sin\<close>,
  \<open>http\<close> for the answer of the Finnhub server to a URL at a time (the status code and the field
  \<open>c\<close> of the decoded body, \<open>None\<close> when the body is not JSON).

  The locale \<open>price_provider\<close> is the contract of the interface; it is interpreted on both
  implementations.
\<close>

unbundle bit_operations_syntax

section \<open>The universe\<close>

record stock =
  stock_symbol :: string
  stock_name :: string
  stock_sector :: string
  stock_exchange :: string
  base_paise :: int

definition nse :: "string \<Rightarrow> string \<Rightarrow> string \<Rightarrow> int \<Rightarrow> stock" where
  "nse s n c p = \<lparr>stock_symbol = s, stock_name = n, stock_sector = c, stock_exchange = ''NSE'',
                  base_paise = p\<rparr>"

definition nseUniverse :: "stock list" where
  "nseUniverse =
    [nse ''RELIANCE'' ''Reliance Industries'' ''Energy'' 295000,
     nse ''TCS'' ''Tata Consultancy Services'' ''IT'' 385000,
     nse ''INFY'' ''Infosys'' ''IT'' 165000,
     nse ''HDFCBANK'' ''HDFC Bank'' ''Banking'' 170000,
     nse ''ICICIBANK'' ''ICICI Bank'' ''Banking'' 125000,
     nse ''SBIN'' ''State Bank of India'' ''Banking'' 82000,
     nse ''HINDUNILVR'' ''Hindustan Unilever'' ''FMCG'' 245000,
     nse ''ITC'' ''ITC'' ''FMCG'' 44000,
     nse ''BHARTIARTL'' ''Bharti Airtel'' ''Telecom'' 145000,
     nse ''LT'' ''Larsen & Toubro'' ''Infrastructure'' 365000,
     nse ''KOTAKBANK'' ''Kotak Mahindra Bank'' ''Banking'' 178000,
     nse ''AXISBANK'' ''Axis Bank'' ''Banking'' 118000,
     nse ''BAJFINANCE'' ''Bajaj Finance'' ''NBFC'' 690000,
     nse ''ASIANPAINT'' ''Asian Paints'' ''Consumer'' 290000,
     nse ''MARUTI'' ''Maruti Suzuki'' ''Automobile'' 1280000,
     nse ''TITAN'' ''Titan Company'' ''Consumer'' 340000,
     nse ''SUNPHARMA'' ''Sun Pharmaceutical'' ''Pharma'' 165000,
     nse ''WIPRO'' ''Wipro'' ''IT'' 48000,
     nse ''TATAMOTORS'' ''Tata Motors'' ''Automobile'' 98000,
     nse ''ADANIENT'' ''Adani Enterprises'' ''Conglomerate'' 310000,
     nse ''HCLTECH'' ''HCL Technologies'' ''IT'' 155000,
     nse ''NESTLEIND'' (''Nestl'' @ [CHR 0xC3, CHR 0xA9] @ '' India'') ''FMCG'' 250000,
     nse ''ULTRACEMCO'' ''UltraTech Cement'' ''Cement'' 1120000,
     nse ''POWERGRID'' ''Power Grid Corporation'' ''Power'' 32000,
     nse ''NTPC'' ''NTPC'' ''Power'' 36000]"

definition universeBySymbol :: "string \<Rightarrow> stock option" where
  "universeBySymbol s = map_of (rev (map (\<lambda>st. (stock_symbol st, st)) nseUniverse)) s"

record provider =
  prov_Quote :: "string \<Rightarrow> time \<Rightarrow> err + int"
  prov_Universe :: "stock list"
  prov_PrevClose :: "string \<Rightarrow> int option"

definition universe_PrevClose :: "string \<Rightarrow> int option" where
  "universe_PrevClose s = (case universeBySymbol s of None \<Rightarrow> None | Some st \<Rightarrow> Some (base_paise st))"

section \<open>The stub\<close>

text \<open>\<open>hash/fnv\<close>, 32-bit FNV-1a.\<close>

definition fnv32a :: "string \<Rightarrow> 32 word" where
  "fnv32a s = foldl (\<lambda>h c. (h XOR of_nat (of_char c)) * 16777619) 2166136261 s"

definition stub_amp :: "nat \<Rightarrow> rat" where
  "stub_amp h = dbl (dbl (1 / 100) + dbl (dbl (dbl (25 / 1000) * of_nat (h mod 100)) / 100))"

definition stub_price :: "(rat \<Rightarrow> rat) \<Rightarrow> nat \<Rightarrow> int \<Rightarrow> time \<Rightarrow> int" where
  "stub_price gosin h base now =
     (let seed = of_nat (h mod 1000);
          amp = stub_amp h;
          t = of_int (now div 1000);
          wave = gosin (dbl (dbl (t / 90) + seed));
          price = dbl (of_int base * dbl (1 + dbl (amp * wave)))
      in go_trunc price)"

definition stub_Quote :: "(rat \<Rightarrow> rat) \<Rightarrow> string \<Rightarrow> time \<Rightarrow> err + int" where
  "stub_Quote gosin s now =
     (let h = unat (fnv32a s)
      in case universeBySymbol s of
           None \<Rightarrow> Inr (10000 + int (h mod 500000))
         | Some st \<Rightarrow> Inr (stub_price gosin h (base_paise st) now))"

definition stub :: "(rat \<Rightarrow> rat) \<Rightarrow> provider" where
  "stub gosin = \<lparr>prov_Quote = stub_Quote gosin, prov_Universe = nseUniverse,
                 prov_PrevClose = universe_PrevClose\<rparr>"

section \<open>Finnhub\<close>

definition hexdigit :: "nat \<Rightarrow> char" where
  "hexdigit n = char_of (if n < 10 then 48 + n else 55 + n)"

definition unreserved :: "char \<Rightarrow> bool" where
  "unreserved c \<longleftrightarrow>
     (let n = (of_char c :: nat)
      in 48 \<le> n \<and> n \<le> 57 \<or> 65 \<le> n \<and> n \<le> 90 \<or> 97 \<le> n \<and> n \<le> 122 \<or> c \<in> set ''-_.~'')"

text \<open>\<open>net/url.QueryEscape\<close>.\<close>

fun QueryEscape :: "string \<Rightarrow> string" where
  "QueryEscape [] = []"
| "QueryEscape (c # cs) =
     (if unreserved c then [c]
      else if c = CHR '' '' then ''+''
      else [CHR ''%'', hexdigit (of_char c div 16), hexdigit (of_char c mod 16)]) @ QueryEscape cs"

record http_resp =
  resp_status :: int
  resp_c :: "rat option"

definition finnhub_url :: "string \<Rightarrow> string \<Rightarrow> string" where
  "finnhub_url apiKey s =
     ''https://finnhub.io/api/v1/quote?symbol='' @ QueryEscape (s @ ''.NS'') @
     ''&token='' @ QueryEscape apiKey"

definition finnhub_Quote ::
    "(string \<Rightarrow> time \<Rightarrow> err + http_resp) \<Rightarrow> string \<Rightarrow> string \<Rightarrow> time \<Rightarrow> err + int" where
  "finnhub_Quote http apiKey s now =
     (case http (finnhub_url apiKey s) now of
        Inl e \<Rightarrow> Inl e
      | Inr resp \<Rightarrow>
          (if resp_status resp \<noteq> 200 then Inl (ErrMsg (''finnhub status '' @ show_int (resp_status resp)))
           else case resp_c resp of
              None \<Rightarrow> Inl ErrDecode
            | Some c \<Rightarrow>
                (if c \<le> 0
                 then (case universe_PrevClose s of
                         Some base \<Rightarrow> Inr base
                       | None \<Rightarrow> Inl (ErrMsg (''finnhub: no price for '' @ s)))
                 else Inr (go_trunc (dbl (c * 100))))))"

definition finnhub :: "(string \<Rightarrow> time \<Rightarrow> err + http_resp) \<Rightarrow> string \<Rightarrow> provider" where
  "finnhub http apiKey = \<lparr>prov_Quote = finnhub_Quote http apiKey, prov_Universe = nseUniverse,
                          prov_PrevClose = universe_PrevClose\<rparr>"

definition New_provider ::
    "(rat \<Rightarrow> rat) \<Rightarrow> (string \<Rightarrow> time \<Rightarrow> err + http_resp) \<Rightarrow> string \<Rightarrow> string \<Rightarrow> provider" where
  "New_provider gosin http name apiKey =
     (if name = ''finnhub'' \<and> apiKey \<noteq> [] then finnhub http apiKey else stub gosin)"

section \<open>The provider contract\<close>

locale price_provider =
  fixes P :: provider
  assumes universe_distinct: "distinct (map stock_symbol (prov_Universe P))"
    and universe_prev_close: "st \<in> set (prov_Universe P) \<Longrightarrow>
           prov_PrevClose P (stock_symbol st) = Some (base_paise st)"
    and universe_base_pos: "st \<in> set (prov_Universe P) \<Longrightarrow> 0 < base_paise st"
begin

lemma prev_close_pos:
  "st \<in> set (prov_Universe P) \<Longrightarrow> \<exists>b > 0. prov_PrevClose P (stock_symbol st) = Some b"
  by (simp add: universe_prev_close universe_base_pos)

end

lemma nseUniverse_distinct: "distinct (map stock_symbol nseUniverse)"
  by (simp add: nseUniverse_def nse_def)

lemma nseUniverse_base_range: "st \<in> set nseUniverse \<Longrightarrow> 32000 \<le> base_paise st \<and> base_paise st \<le> 1280000"
  by (auto simp: nseUniverse_def nse_def)

lemma universeBySymbol_mem: "st \<in> set nseUniverse \<Longrightarrow> universeBySymbol (stock_symbol st) = Some st"
proof -
  let ?kv = "map (\<lambda>st. (stock_symbol st, st)) nseUniverse"
  assume "st \<in> set nseUniverse"
  then have "(stock_symbol st, st) \<in> set (rev ?kv)" by auto
  moreover have "distinct (map fst (rev ?kv))"
    using nseUniverse_distinct by (simp add: rev_map [symmetric] comp_def)
  ultimately show ?thesis unfolding universeBySymbol_def by (simp add: map_of_is_SomeI)
qed

lemma universeBySymbol_SomeD: "universeBySymbol s = Some st \<Longrightarrow> st \<in> set nseUniverse \<and> stock_symbol st = s"
  unfolding universeBySymbol_def by (drule map_of_SomeD) auto

interpretation stub_provider: price_provider "stub gosin" for gosin
  using nseUniverse_distinct nseUniverse_base_range
  by unfold_locales (force simp: stub_def universe_PrevClose_def universeBySymbol_mem)+

interpretation finnhub_provider: price_provider "finnhub http apiKey" for http apiKey
  using nseUniverse_distinct nseUniverse_base_range
  by unfold_locales (force simp: finnhub_def universe_PrevClose_def universeBySymbol_mem)+

end
