(* ===== verification/Market_Data_Service.thy ===== *)
theory Market_Data_Service
  imports Cache Market_Data "HOL-Library.Product_Lexorder" "HOL-Library.List_Lexorder"
    "HOL-Library.Char_ord"
begin

text \<open>
  \<open>internal/service/marketdata_service.go\<close>: a read-through cache over a provider, the list of stocks
  with their day change and the top movers. \<open>mdsvc\<close> is the service with its two dependencies (the
  provider and the cache's time to live).
\<close>

record mdsvc =
  md_provider :: provider
  md_quoteTTL :: int

definition MD_Quote :: "mdsvc \<Rightarrow> string \<Rightarrow> quote io" where
  "MD_Quote m s = bindE (attempt (GetQuote s)) (\<lambda>r.
     case r of
       Inr q \<Rightarrow> ret q
     | Inl _ \<Rightarrow> bindE timeNow (\<lambda>now.
         case prov_Quote (md_provider m) s now of
           Inl e \<Rightarrow> raise e
         | Inr price \<Rightarrow>
             (let q = \<lparr>quote_symbol = s, quote_price = price, quote_as_of = now\<rparr>
              in bindE (attempt (SetQuote (md_quoteTTL m) q)) (\<lambda>_. ret q))))"

definition UniverseSymbols :: "mdsvc \<Rightarrow> string list" where
  "UniverseSymbols m = map stock_symbol (prov_Universe (md_provider m))"

record stock_quote =
  sq_symbol :: string
  sq_name :: string
  sq_sector :: string
  sq_exchange :: string
  sq_price :: int
  sq_prev_close :: int
  sq_change :: int
  sq_change_pct :: rat

definition stock_row :: "mdsvc \<Rightarrow> stock \<Rightarrow> quote \<Rightarrow> stock_quote" where
  "stock_row m st q =
     (let prev = (case prov_PrevClose (md_provider m) (stock_symbol st) of
                    None \<Rightarrow> quote_price q
                  | Some p \<Rightarrow> (if p = 0 then quote_price q else p));
          change = wrap64 (quote_price q - prev);
          pct = (if prev \<noteq> 0 then dbl (dbl (dbl (of_int change) / dbl (of_int prev)) * 100) else 0)
      in \<lparr>sq_symbol = stock_symbol st, sq_name = stock_name st, sq_sector = stock_sector st,
          sq_exchange = stock_exchange st, sq_price = quote_price q, sq_prev_close = prev,
          sq_change = change, sq_change_pct = pct\<rparr>)"

fun stocks_loop :: "mdsvc \<Rightarrow> stock list \<Rightarrow> stock_quote list io" where
  "stocks_loop m [] = ret []"
| "stocks_loop m (st # sts) = bindE (attempt (MD_Quote m (stock_symbol st))) (\<lambda>r.
     case r of
       Inl _ \<Rightarrow> stocks_loop m sts
     | Inr q \<Rightarrow> bindE (stocks_loop m sts) (\<lambda>out. ret (stock_row m st q # out)))"

definition Stocks :: "mdsvc \<Rightarrow> stock_quote list io" where
  "Stocks m = stocks_loop m (prov_Universe (md_provider m))"

definition go_abs :: "rat \<Rightarrow> rat" where
  "go_abs f = (if f < 0 then - f else f)"

definition mover_key :: "stock_quote \<Rightarrow> rat \<times> string" where
  "mover_key s = (- go_abs (sq_change_pct s), sq_symbol s)"

definition Trending :: "mdsvc \<Rightarrow> int \<Rightarrow> stock_quote list io" where
  "Trending m limit = bindE (Stocks m) (\<lambda>al.
     let sorted_all = sort_key mover_key al
     in ret (if 0 < limit \<and> limit < int (length sorted_all) then take (nat limit) sorted_all
             else sorted_all))"

definition Refresh :: "mdsvc \<Rightarrow> string \<Rightarrow> quote io" where
  "Refresh m s = bindE timeNow (\<lambda>now.
     case prov_Quote (md_provider m) s now of
       Inl e \<Rightarrow> raise e
     | Inr price \<Rightarrow>
         (let q = \<lparr>quote_symbol = s, quote_price = price, quote_as_of = now\<rparr>
          in bindE (SetQuote (md_quoteTTL m) q) (\<lambda>_. ret q)))"

section \<open>Preservation\<close>

lemma keeps_MD_Quote [keeps_intros]: "keeps (on_tables P) (MD_Quote m s)"
  unfolding MD_Quote_def Let_def
  by (rule keeps_bindE, intro keeps_intros) (auto intro!: keeps_intros split: sum.splits)

lemma keeps_Refresh [keeps_intros]: "keeps (on_tables P) (Refresh m s)"
  unfolding Refresh_def Let_def
  by (rule keeps_bindE, intro keeps_intros) (auto intro!: keeps_intros split: sum.splits)

lemma keeps_stocks_loop: "keeps (on_tables P) (stocks_loop m sts)"
  by (induction sts) (auto intro!: keeps_intros split: sum.splits)

section \<open>Quotes\<close>

text \<open>An operation of the quote service writes no key but the quote's own.\<close>

lemma MD_Quote_wdb: "MD_Quote m s w = (r, w') \<Longrightarrow> wdb w' = wdb w"
  by (rule keeps_all_wdb [OF keeps_MD_Quote])

lemma MD_Quote_hit:
  assumes "rlive (clock w) (wredis w) (quoteKey s) = Some (RQuote q)" and "faults w = []"
  shows "MD_Quote m s w = (Inr q, w)"
  using assms
  by (simp add: MD_Quote_def bindE_def attempt_def GetQuote_def redis_get_def run_simps)

lemma MD_Quote_miss:
  assumes "rlive (clock w) (wredis w) (quoteKey s) = None" and "faults w = []"
    and "prov_Quote (md_provider m) s (clock w) = Inr price"
  shows "MD_Quote m s w =
    (Inr \<lparr>quote_symbol = s, quote_price = price, quote_as_of = clock w\<rparr>,
     w\<lparr>wredis := (wredis w)(quoteKey s \<mapsto>
         (RQuote \<lparr>quote_symbol = s, quote_price = price, quote_as_of = clock w\<rparr>,
          if 0 < md_quoteTTL m then Some (clock w + md_quoteTTL m * 1000) else None))\<rparr>)"
  using assms
  by (simp add: MD_Quote_def bindE_def attempt_def GetQuote_def redis_get_def SetQuote_def
      redis_set_def run_simps Let_def)

text \<open>Where the price of a quote comes from: the cache or the provider.\<close>

lemma MD_Quote_source:
  assumes "MD_Quote m s w = (Inr q, w')"
  shows "rlive (clock w) (wredis w) (quoteKey s) = Some (RQuote q) \<or>
         prov_Quote (md_provider m) s (clock w) = Inr (quote_price q) \<and> quote_symbol q = s"
  using assms
  by (auto simp: MD_Quote_def bindE_def attempt_def GetQuote_def redis_get_def SetQuote_def
      redis_set_def ext_def timeNow_def ret_def raise_def Let_def
      split: sum.splits prod.splits option.splits rval.splits list.splits if_splits)

section \<open>Movers\<close>

lemma stocks_loop_Cons_Inr:
  assumes "stocks_loop m (st # sts) w = (Inr out, w')"
  shows "\<exists>w1. stocks_loop m sts w1 = (Inr out, w') \<or>
           (\<exists>q out'. out = stock_row m st q # out' \<and> stocks_loop m sts w1 = (Inr out', w'))"
proof -
  obtain r w1 where "attempt (MD_Quote m (stock_symbol st)) w = (Inr r, w1)"
    and run: "(case r of Inl _ \<Rightarrow> stocks_loop m sts
       | Inr q \<Rightarrow> bindE (stocks_loop m sts) (\<lambda>out. ret (stock_row m st q # out))) w1 = (Inr out, w')"
    using assms unfolding stocks_loop.simps by (rule bindE_InrE)
  then show ?thesis
    by (cases r) (auto elim!: bindE_InrE simp: run_simps, blast)
qed

lemma stock_row_symbol [simp]: "sq_symbol (stock_row m st q) = stock_symbol st"
  by (simp add: stock_row_def Let_def)

lemma stocks_loop_distinct:
  "stocks_loop m sts w = (Inr out, w') \<Longrightarrow>
     set (map sq_symbol out) \<subseteq> set (map stock_symbol sts) \<and>
     (distinct (map stock_symbol sts) \<longrightarrow> distinct (map sq_symbol out))"
proof (induction sts arbitrary: w out w')
  case Nil
  then show ?case by (simp add: run_simps)
next
  case (Cons st sts)
  from stocks_loop_Cons_Inr [OF Cons.prems] consider
      w1 where "stocks_loop m sts w1 = (Inr out, w')"
    | w1 q out' where "out = stock_row m st q # out'" "stocks_loop m sts w1 = (Inr out', w')"
    by blast
  then show ?case
  proof cases
    case 1
    from Cons.IH [OF this] show ?thesis by auto
  next
    case 2
    from Cons.IH [OF this(2)] 2(1) show ?thesis by auto
  qed
qed

lemma stocks_loop_total: "\<exists>out w'. stocks_loop m sts w = (Inr out, w')"
proof (induction sts arbitrary: w)
  case Nil
  then show ?case by (simp add: run_simps)
next
  case (Cons st sts)
  obtain r w1 where r: "MD_Quote m (stock_symbol st) w = (r, w1)" by fastforce
  obtain out w2 where "stocks_loop m sts w1 = (Inr out, w2)" using Cons by blast
  then show ?case
    by (cases r) (auto simp: bindE_def attempt_def r run_simps)
qed

end
