(* ===== verification/Trading_Service.thy ===== *)
theory Trading_Service
  imports Ledger_Repository Job_Repository Market_Data_Service
begin

text \<open>
  \<open>internal/service/trading_service.go\<close>: the event-sourced trading core. One definition per method,
  with the early returns of the code as the branches of nested conditionals. \<open>fill_tx\<close> is the
  closure that \<open>ExecuteOrder\<close> runs in a transaction; \<open>execute_priced\<close> is \<open>ExecuteOrder\<close> from the
  point where the quote is known.
\<close>

section \<open>Portfolios\<close>

definition seed_entry :: "uuid \<Rightarrow> uuid \<Rightarrow> int \<Rightarrow> entry" where
  "seed_entry tid p amount =
     \<lparr>entry_id = 0, trade_id = tid, entry_portfolio = p, entry_instrument = CASH, direction = 1,
      entry_quantity = amount, entry_price = None, entry_created = 0, entry_seq = 1\<rparr>"

definition CreatePortfolio :: "string \<Rightarrow> int \<Rightarrow> uuid io" where
  "CreatePortfolio name seedPaise =
     (if seedPaise < 0 then raise (ValidationError ''seed cash cannot be negative'')
      else runTx
        (bindE (Portfolio_Create name) (\<lambda>i.
           if 0 < seedPaise then
             bindE (LockForUpdate i) (\<lambda>_.
             bindE uuid_New (\<lambda>tid.
             bindE (Entry_Insert (seed_entry tid i seedPaise)) (\<lambda>_.
             bindE (BumpSeq i 1) (\<lambda>_. ret i))))
           else ret i)))"

section \<open>Placing orders\<close>

definition quoted :: "string \<Rightarrow> string" where
  "quoted s = CHR 0x27 # s @ [CHR 0x27]"

record place_req =
  req_portfolio :: uuid
  req_side :: string
  req_instrument :: string
  req_quantity :: int
  req_type :: string
  req_limit_price :: "int option"
  req_idempotency_key :: string

definition req_order :: "place_req \<Rightarrow> string \<Rightarrow> uuid \<Rightarrow> order" where
  "req_order req typ i =
     \<lparr>order_id = i, order_portfolio = req_portfolio req,
      idempotency_key = req_idempotency_key req, side = req_side req,
      order_instrument = req_instrument req, order_quantity = req_quantity req,
      order_type = typ, limit_price = req_limit_price req, order_status = ''pending'',
      fill_price = None, reason = None, order_created = 0\<rparr>"

definition outbox_tx :: "order \<Rightarrow> unit io" where
  "outbox_tx ord =
     bindE (Order_Create ord) (\<lambda>_.
     bindE timeNow (\<lambda>now.
     bindE (Enqueue JobExecuteOrder (OrderPayload (order_id ord)) 10 now 5) (\<lambda>_. ret ())))"

definition place_new :: "place_req \<Rightarrow> string \<Rightarrow> order io" where
  "place_new req typ =
     bindE (Portfolio_Exists (req_portfolio req)) (\<lambda>present.
       if \<not> present then raise (ValidationError ''portfolio not found'')
       else bindE uuid_New (\<lambda>i.
         bindE (runTx (outbox_tx (req_order req typ i))) (\<lambda>_. ret (req_order req typ i))))"

definition find_existing :: "string \<Rightarrow> order option io" where
  "find_existing k =
     (if k \<noteq> [] then
        bindE (attempt (GetByIdempotencyKey k)) (\<lambda>r.
          case r of
            Inr existing \<Rightarrow> ret (Some existing)
          | Inl e \<Rightarrow> (if e = ErrNotFound then ret None else raise e))
      else ret None)"

definition PlaceOrder :: "place_req \<Rightarrow> order io" where
  "PlaceOrder req =
     (let typ = (if req_type req = [] then ''market'' else req_type req) in
      if req_side req \<noteq> ''buy'' \<and> req_side req \<noteq> ''sell''
      then raise (ValidationError (''side must be '' @ quoted ''buy'' @ '' or '' @ quoted ''sell''))
      else if typ \<noteq> ''market'' \<and> typ \<noteq> ''limit''
      then raise (ValidationError (''type must be '' @ quoted ''market'' @ '' or '' @ quoted ''limit''))
      else if typ = ''limit'' \<and> (case req_limit_price req of None \<Rightarrow> True | Some l \<Rightarrow> l \<le> 0)
      then raise (ValidationError ''limit orders require a positive limit_price'')
      else if req_quantity req \<le> 0
      then raise (ValidationError ''quantity must be positive'')
      else if req_instrument req = [] \<or> req_instrument req = CASH
      then raise (ValidationError ''invalid instrument'')
      else bindE (find_existing (req_idempotency_key req)) (\<lambda>ex.
        case ex of Some existing \<Rightarrow> ret existing | None \<Rightarrow> place_new req typ))"

section \<open>Executing orders\<close>

definition stock_leg :: "order \<Rightarrow> uuid \<Rightarrow> int \<Rightarrow> int \<Rightarrow> entry" where
  "stock_leg ord tid sq price =
     \<lparr>entry_id = 0, trade_id = tid, entry_portfolio = order_portfolio ord,
      entry_instrument = order_instrument ord,
      direction = (if side ord = ''buy'' then 1 else -1),
      entry_quantity = order_quantity ord, entry_price = Some price, entry_created = 0,
      entry_seq = wrap64 (sq + 1)\<rparr>"

definition cash_leg :: "order \<Rightarrow> uuid \<Rightarrow> int \<Rightarrow> int \<Rightarrow> entry" where
  "cash_leg ord tid sq cost =
     \<lparr>entry_id = 0, trade_id = tid, entry_portfolio = order_portfolio ord,
      entry_instrument = CASH,
      direction = (if side ord = ''buy'' then -1 else 1),
      entry_quantity = cost, entry_price = None, entry_created = 0,
      entry_seq = wrap64 (sq + 2)\<rparr>"

definition short_msg :: "string \<Rightarrow> int \<Rightarrow> int \<Rightarrow> string" where
  "short_msg what need got =
     ''insufficient '' @ what @ '': need '' @ show_int need @ '' have '' @ show_int got"

definition book_trade :: "order \<Rightarrow> int \<Rightarrow> int \<Rightarrow> int \<Rightarrow> unit io" where
  "book_trade ord fillPrice cost sq =
     bindE uuid_New (\<lambda>tid.
       let sl = stock_leg ord tid sq fillPrice; cl = cash_leg ord tid sq cost in
       if wrap64 (SignedValue sl + SignedValue cl) \<noteq> 0
       then raise (ErrMsg ''double-entry invariant violated'')
       else
         bindE (Entry_Insert sl) (\<lambda>_.
         bindE (Entry_Insert cl) (\<lambda>_.
         bindE (BumpSeq (order_portfolio ord) 2) (\<lambda>_.
         bindE (SetFilled (order_id ord) fillPrice) (\<lambda>_.
         bindE timeNow (\<lambda>now.
         bindE (Enqueue JobSettle (OrderPayload (order_id ord)) 0 (now + 24 * 3600 * 1000) 3) (\<lambda>_.
         bindE (attempt (InvalidateSnapshot (order_portfolio ord))) (\<lambda>_. ret ()))))))))"

definition fill_tx :: "order \<Rightarrow> int \<Rightarrow> unit io" where
  "fill_tx ord fillPrice =
     bindE (LockForUpdate (order_portfolio ord)) (\<lambda>sq.
     bindE (Holdings (order_portfolio ord) None) (\<lambda>holdings.
       let cost = wrap64 (order_quantity ord * fillPrice) in
       if side ord = ''buy'' \<and> map_at holdings CASH < cost
       then SetStatus (order_id ord) ''rejected'' (Some (short_msg ''cash'' cost (map_at holdings CASH)))
       else if side ord \<noteq> ''buy'' \<and> map_at holdings (order_instrument ord) < order_quantity ord
       then SetStatus (order_id ord) ''rejected''
              (Some (short_msg ''shares'' (order_quantity ord) (map_at holdings (order_instrument ord))))
       else book_trade ord fillPrice cost sq))"

definition reject :: "uuid \<Rightarrow> string \<Rightarrow> unit io" where
  "reject i why = SetStatus i ''rejected'' (Some why)"

definition execute_priced :: "order \<Rightarrow> int \<Rightarrow> unit io" where
  "execute_priced ord price =
     (if order_type ord = ''limit'' then
        (case limit_price ord of
           None \<Rightarrow> raise GoPanic
         | Some l \<Rightarrow>
             if side ord = ''buy'' \<and> l < price
             then reject (order_id ord) ''limit buy not marketable''
             else if side ord = ''sell'' \<and> price < l
             then reject (order_id ord) ''limit sell not marketable''
             else runTx (fill_tx ord l))
      else runTx (fill_tx ord price))"

definition ExecuteOrder :: "mdsvc \<Rightarrow> uuid \<Rightarrow> unit io" where
  "ExecuteOrder m i =
     bindE (Order_Get i) (\<lambda>ord.
       if order_status ord \<noteq> ''pending'' then ret ()
       else bindE (attempt (MD_Quote m (order_instrument ord))) (\<lambda>r.
         case r of
           Inl e \<Rightarrow> raise (ErrWrap ''price lookup failed'' e)
         | Inr q \<Rightarrow> execute_priced ord (quote_price q)))"

section \<open>Cancelling and reading\<close>

definition CancelOrder :: "uuid \<Rightarrow> order io" where
  "CancelOrder i =
     bindE (Order_Get i) (\<lambda>ord.
       if order_status ord \<noteq> ''pending''
       then raise (InvariantError ''only pending orders can be cancelled'')
       else bindE (SetStatus i ''cancelled'' (Some ''cancelled by user'')) (\<lambda>_.
         ret (ord\<lparr>order_status := ''cancelled''\<rparr>)))"

definition GetOrder :: "uuid \<Rightarrow> order io" where
  "GetOrder i = Order_Get i"

fun positions_loop ::
    "mdsvc \<Rightarrow> (string \<times> int) list \<Rightarrow> position list \<Rightarrow> int \<Rightarrow> (position list \<times> int) io" where
  "positions_loop m [] ps tot = ret (ps, tot)"
| "positions_loop m ((i, qty) # h) ps tot =
     (if i = CASH \<or> qty = 0 then positions_loop m h ps tot
      else bindE (attempt (MD_Quote m i)) (\<lambda>r.
        let price = (case r of Inl _ \<Rightarrow> 0 | Inr q \<Rightarrow> quote_price q);
            mv = wrap64 (qty * price)
        in positions_loop m h
             (ps @ [\<lparr>pos_instrument = i, pos_quantity = qty, pos_price = price,
                     pos_market_value = mv\<rparr>])
             (wrap64 (tot + mv))))"

definition compute_view :: "mdsvc \<Rightarrow> uuid \<Rightarrow> time option \<Rightarrow> portfolio_view io" where
  "compute_view m i asOf =
     bindE (Portfolio_Exists i) (\<lambda>present.
       if \<not> present then raise ErrNotFound
       else
         bindE (Holdings i asOf) (\<lambda>holdings.
         bindE timeNow (\<lambda>now.
         bindE (positions_loop m holdings [] 0) (\<lambda>(ps, mv).
           ret \<lparr>view_portfolio = i, view_cash = map_at holdings CASH,
                view_positions = sort_key pos_instrument ps, view_market_value = mv,
                view_total_value = wrap64 (map_at holdings CASH + mv),
                view_as_of = (case asOf of None \<Rightarrow> now | Some t \<Rightarrow> t)\<rparr>))))"

definition Portfolio :: "mdsvc \<Rightarrow> uuid \<Rightarrow> time option \<Rightarrow> portfolio_view io" where
  "Portfolio m i asOf =
     (if asOf = None then
        bindE (attempt (GetSnapshot i)) (\<lambda>r.
          case r of
            Inr v \<Rightarrow> ret v
          | Inl _ \<Rightarrow>
              bindE (compute_view m i None) (\<lambda>v.
              bindE (attempt (SetSnapshot v)) (\<lambda>_. ret v)))
      else compute_view m i asOf)"

definition History :: "uuid \<Rightarrow> (entry list \<times> order list) io" where
  "History i = bindE (Entry_List i) (\<lambda>es. bindE (ListByPortfolio i 100) (\<lambda>os. ret (es, os)))"

end
