(* ===== verification/Worker.thy ===== *)
theory Worker
  imports Trading_Service
begin

text \<open>
  \<open>internal/worker/worker.go\<close>: the background engine that claims jobs, dispatches them by type and
  applies retry, backoff and dead-lettering.

  \<open>wenv\<close> holds the worker's dependencies. Two of them are outside the repository and stay
  parameters: \<open>http_post\<close>, the answer of a webhook receiver to a POST of a payload at a time (the
  status code, or the error of building or sending the request), and \<open>lib_text\<close>, the text of the
  errors that come from the drivers. The set of symbols that the poller builds is a list without
  repetitions; Go iterates over it in an unspecified order.
\<close>

record wenv =
  w_md :: mdsvc
  leaseSecs :: int
  http_post :: "string \<Rightarrow> payload \<Rightarrow> time \<Rightarrow> err + int"
  lib_text :: "err \<Rightarrow> string"

definition pollEvery :: time where
  "pollEvery = 15000"

definition go_quote :: "string \<Rightarrow> string" where
  "go_quote s = CHR 0x22 # concat (map (\<lambda>c. if c = CHR 0x22 \<or> c = CHR 0x5C then [CHR 0x5C, c] else [c]) s)
                @ [CHR 0x22]"

text \<open>The method \<open>Error()\<close> of the errors.\<close>

fun err_text :: "(err \<Rightarrow> string) \<Rightarrow> err \<Rightarrow> string" where
  "err_text lib (ValidationError m) = m"
| "err_text lib (InvariantError m) = m"
| "err_text lib ErrNotFound = ''not found''"
| "err_text lib ErrMiss = ''cache miss''"
| "err_text lib (ErrMsg m) = m"
| "err_text lib (ErrWrap m e) = m @ '': '' @ err_text lib e"
| "err_text lib e = lib e"

section \<open>Handlers\<close>

definition handleExecuteOrder :: "wenv \<Rightarrow> job \<Rightarrow> unit io" where
  "handleExecuteOrder env j =
     (case job_payload j of
        OrderPayload i \<Rightarrow> ExecuteOrder (w_md env) i
      | _ \<Rightarrow> raise ErrDecode)"

definition handleSettle :: "job \<Rightarrow> unit io" where
  "handleSettle j =
     (case job_payload j of
        OrderPayload i \<Rightarrow>
          bindE (Order_Get i) (\<lambda>ord.
            if order_status ord = ''filled'' then SetStatus i ''settled'' (Some ''settled (T+1)'')
            else ret ())
      | _ \<Rightarrow> raise ErrDecode)"

fun refresh_loop :: "mdsvc \<Rightarrow> string list \<Rightarrow> (string \<times> int) list \<Rightarrow> (string \<times> int) list io" where
  "refresh_loop m [] prices = ret prices"
| "refresh_loop m (s # ss) prices =
     bindE (attempt (Refresh m s)) (\<lambda>r.
       case r of
         Inl _ \<Rightarrow> refresh_loop m ss prices
       | Inr q \<Rightarrow> refresh_loop m ss ((s, quote_price q) # prices))"

definition crossed :: "alert \<Rightarrow> int \<Rightarrow> bool" where
  "crossed a price \<longleftrightarrow>
     alert_direction a = ''above'' \<and> threshold a \<le> price \<or>
     alert_direction a = ''below'' \<and> price \<le> threshold a"

definition alert_payload :: "alert \<Rightarrow> int \<Rightarrow> payload" where
  "alert_payload a price = AlertPayload (alert_id a) (alert_symbol a) price (threshold a)
                             (alert_direction a) (webhook_url a)"

fun fire_loop :: "(string \<times> int) list \<Rightarrow> alert list \<Rightarrow> unit io" where
  "fire_loop prices [] = ret ()"
| "fire_loop prices (a # as) =
     (case map_of prices (alert_symbol a) of
        None \<Rightarrow> fire_loop prices as
      | Some price \<Rightarrow>
          (if \<not> crossed a price then fire_loop prices as
           else bindE timeNow (\<lambda>now.
             bindE (attempt (Enqueue JobAlertWebhook (alert_payload a price) 5 now 5)) (\<lambda>r.
               case r of
                 Inl _ \<Rightarrow> fire_loop prices as
               | Inr _ \<Rightarrow> bindE (attempt (MarkTriggered (alert_id a))) (\<lambda>_. fire_loop prices as)))))"

definition handlePollQuotes :: "wenv \<Rightarrow> unit io" where
  "handlePollQuotes env =
     bindE DistinctSymbols (\<lambda>traded.
     bindE Alert_Symbols (\<lambda>alertSyms.
     bindE (refresh_loop (w_md env) (remdups (UniverseSymbols (w_md env) @ traded @ alertSyms)) []) (\<lambda>prices.
     bindE ListActive (\<lambda>active.
     bindE (fire_loop prices active) (\<lambda>_.
     bindE timeNow (\<lambda>now.
     bindE (Enqueue JobPollQuotes EmptyPayload 0 (now + pollEvery) 1000000) (\<lambda>_. ret ())))))))"

definition payload_url :: "payload \<Rightarrow> string" where
  "payload_url pl = (case pl of AlertPayload _ _ _ _ _ url \<Rightarrow> url | _ \<Rightarrow> [])"

definition handleAlertWebhook :: "wenv \<Rightarrow> job \<Rightarrow> unit io" where
  "handleAlertWebhook env j =
     (case job_payload j of
        RawPayload _ \<Rightarrow> raise ErrDecode
      | pl \<Rightarrow> bindE timeNow (\<lambda>now.
          case http_post env (payload_url pl) pl now of
            Inl e \<Rightarrow> raise e
          | Inr code \<Rightarrow>
              (if code < 200 \<or> 300 \<le> code then raise (ErrMsg (''webhook returned status '' @ show_int code))
               else ret ())))"

definition dispatch :: "wenv \<Rightarrow> job \<Rightarrow> unit io" where
  "dispatch env j =
     (if job_type j = JobExecuteOrder then handleExecuteOrder env j
      else if job_type j = JobSettle then handleSettle j
      else if job_type j = JobPollQuotes then handlePollQuotes env
      else if job_type j = JobAlertWebhook then handleAlertWebhook env j
      else raise (ErrMsg (''unknown job type '' @ go_quote (job_type j))))"

section \<open>Retry, backoff and the loops\<close>

text \<open>\<open>math.Min(math.Pow(2, float64(attempts)), 300)\<close>, truncated to whole seconds.\<close>

definition backoff_secs :: "int \<Rightarrow> int" where
  "backoff_secs a = (if a < 0 then 0 else min (2 ^ nat a) 300)"

text \<open>What \<open>process\<close> does with the result of the dispatch. A panic takes the process down.\<close>

definition finish :: "wenv \<Rightarrow> job \<Rightarrow> err + unit \<Rightarrow> unit io" where
  "finish env j r =
     (case r of
        Inr _ \<Rightarrow> bindE (attempt (Complete (job_id j))) (\<lambda>_. ret ())
      | Inl e \<Rightarrow>
          (if e = GoPanic then raise GoPanic
           else if max_attempts j \<le> attempts j
           then bindE (attempt (MoveToDead j (err_text (lib_text env) e))) (\<lambda>_. ret ())
           else bindE timeNow (\<lambda>now.
             bindE (attempt (Retry (job_id j) (now + backoff_secs (attempts j) * 1000)
                       (err_text (lib_text env) e))) (\<lambda>_. ret ()))))"

definition process :: "wenv \<Rightarrow> job \<Rightarrow> unit io" where
  "process env j = bindE (attempt (dispatch env j)) (finish env j)"

text \<open>One turn of the loop of a worker goroutine (its sleeps are not modelled).\<close>

definition worker_turn :: "wenv \<Rightarrow> unit io" where
  "worker_turn env =
     bindE (attempt (Claim (leaseSecs env))) (\<lambda>r.
       case r of
         Inl _ \<Rightarrow> ret ()
       | Inr None \<Rightarrow> ret ()
       | Inr (Some j) \<Rightarrow> process env j)"

definition seedPoller :: "unit io" where
  "seedPoller =
     bindE (attempt (HasActive JobPollQuotes)) (\<lambda>r.
       case r of
         Inl _ \<Rightarrow> ret ()
       | Inr active \<Rightarrow>
           (if active then ret ()
            else bindE timeNow (\<lambda>now.
              bindE (attempt (Enqueue JobPollQuotes EmptyPayload 0 now 1000000)) (\<lambda>_. ret ()))))"

definition reaper_turn :: "unit io" where
  "reaper_turn = bindE (attempt ReapExpired) (\<lambda>_. ret ())"

end
