(* ===== verification/Trading_Ledger.thy ===== *)
theory Trading_Ledger
  imports Trading_Service
begin

text \<open>
  Correctness of the trading core on the tables.

  \<open>trade_db\<close> is the effect of one booked trade. \<open>fill_tx_cases\<close> shows that the transaction of
  \<open>ExecuteOrder\<close>, when it succeeds, either rejects the order and changes nothing else, or has
  exactly that effect under the guards of the code. The invariant \<open>ledger_inv\<close> (keys, orders,
  entries, sequence numbers, balances that are never negative) is kept by every operation.
\<close>

section \<open>The effect of one trade\<close>

definition settle_job :: "uuid \<Rightarrow> uuid \<Rightarrow> time \<Rightarrow> job" where
  "settle_job jid oid now =
     \<lparr>job_id = jid, job_type = JobSettle, job_payload = OrderPayload oid, priority = 0,
      run_at = now + 24 * 3600 * 1000, job_status = ''queued'', attempts = 0, max_attempts = 3,
      leased_until = None, last_error = None, job_created = now\<rparr>"

definition trade_db :: "time \<Rightarrow> uuid \<Rightarrow> uuid \<Rightarrow> order \<Rightarrow> int \<Rightarrow> int \<Rightarrow> int \<Rightarrow> db \<Rightarrow> db" where
  "trade_db now tid jid ord price cost sq d =
     (let d2 = post_entry now (cash_leg ord tid sq cost) (post_entry now (stock_leg ord tid sq price) d)
      in d2\<lparr>portfolios := row_upd pf_id (order_portfolio ord)
                             (\<lambda>p. p\<lparr>seq_counter := seq_counter p + 2\<rparr>) (portfolios d),
            orders := row_upd order_id (order_id ord)
                        (\<lambda>r. r\<lparr>order_status := ''filled'', fill_price := Some price, reason := None\<rparr>)
                        (orders d),
            jobs := jobs d @ [settle_job jid (order_id ord) now]\<rparr>)"

definition set_status_db :: "uuid \<Rightarrow> string \<Rightarrow> string \<Rightarrow> db \<Rightarrow> db" where
  "set_status_db i st why d =
     d\<lparr>orders := row_upd order_id i (\<lambda>r. r\<lparr>order_status := st, reason := Some why\<rparr>) (orders d)\<rparr>"

text \<open>The guards of the code at the point where a trade is booked.\<close>

definition can_trade :: "order \<Rightarrow> int \<Rightarrow> int \<Rightarrow> db \<Rightarrow> bool" where
  "can_trade ord cost sq d \<longleftrightarrow>
     0 < cost \<and> 0 < order_quantity ord \<and>
     (\<exists>p. row_get pf_id (order_portfolio ord) (portfolios d) = Some p \<and> seq_counter p = sq) \<and>
     in_int64 (sq + 2) \<and>
     (if side ord = ''buy'' then cost \<le> balance d (order_portfolio ord) CASH
      else order_quantity ord \<le> balance d (order_portfolio ord) (order_instrument ord))"

text \<open>The order asks for more than the portfolio has.\<close>

definition short_of :: "order \<Rightarrow> int \<Rightarrow> db \<Rightarrow> bool" where
  "short_of ord cost d \<longleftrightarrow>
     (if side ord = ''buy'' then balance d (order_portfolio ord) CASH < cost
      else balance d (order_portfolio ord) (order_instrument ord) < order_quantity ord)"

lemma leg_simps [simp]:
  "entry_portfolio (stock_leg ord tid sq price) = order_portfolio ord"
  "entry_instrument (stock_leg ord tid sq price) = order_instrument ord"
  "entry_quantity (stock_leg ord tid sq price) = order_quantity ord"
  "entry_price (stock_leg ord tid sq price) = Some price"
  "entry_seq (stock_leg ord tid sq price) = wrap64 (sq + 1)"
  "trade_id (stock_leg ord tid sq price) = tid"
  "direction (stock_leg ord tid sq price) = (if side ord = ''buy'' then 1 else -1)"
  "entry_portfolio (cash_leg ord tid sq cost) = order_portfolio ord"
  "entry_instrument (cash_leg ord tid sq cost) = CASH"
  "entry_quantity (cash_leg ord tid sq cost) = cost"
  "entry_price (cash_leg ord tid sq cost) = None"
  "entry_seq (cash_leg ord tid sq cost) = wrap64 (sq + 2)"
  "trade_id (cash_leg ord tid sq cost) = tid"
  "direction (cash_leg ord tid sq cost) = (if side ord = ''buy'' then -1 else 1)"
  by (simp_all add: stock_leg_def cash_leg_def)

text \<open>The double-entry test of the code always passes: the two legs wrap to opposite values.\<close>

lemma legs_balanced:
  "wrap64 (SignedValue (stock_leg ord tid sq price) +
           SignedValue (cash_leg ord tid sq (wrap64 (order_quantity ord * price)))) = 0"
  by (simp add: SignedValue_wrap)

section \<open>Inversion of the statements\<close>

lemma LockForUpdate_InrE:
  assumes "LockForUpdate i w = (Inr sq, w')"
  obtains p where "row_get pf_id i (portfolios (wdb w)) = Some p" and "sq = seq_counter p"
    and "wdb w' = wdb w" and "clock w' = clock w"
  using assms unfolding LockForUpdate_def
  by (elim sql_InrE) (auto simp: q_lock_portfolio_def split: option.splits)

lemma Holdings_InrE:
  assumes "Holdings p t w = (Inr h, w')"
  obtains "\<And>i. map_at h i = net (portfolio_entries p t (wdb w)) i" and "distinct (map fst h)"
    and "\<And>i. in_int64 (map_at h i)" and "wdb w' = wdb w" and "clock w' = clock w"
proof -
  obtain d where q: "q_holdings p t (clock w) (wdb w) = Inr (h, d)"
    and d: "wdb w' = d" "clock w' = clock w"
    using assms unfolding Holdings_def by (rule sql_InrE)
  show ?thesis
    by (rule that) (use q_holdings_Inr [OF q] d in simp_all)
qed

lemma Entry_Insert_InrE:
  assumes "Entry_Insert e w = (Inr x, w')"
  obtains "0 < entry_quantity e" and "wdb w' = post_entry (clock w) e (wdb w)" and "clock w' = clock w"
    and "entry_portfolio e \<in> pf_id ` set (portfolios (wdb w))"
  using assms unfolding Entry_Insert_def by (elim sql_InrE) (auto simp: q_insert_entry_post)

lemma BumpSeq_InrE:
  assumes "BumpSeq i n w = (Inr x, w')" and "row_get pf_id i (portfolios (wdb w)) = Some p"
  obtains "in_int64 (seq_counter p + n)" and "clock w' = clock w"
    and "wdb w' = (wdb w)\<lparr>portfolios := row_upd pf_id i (\<lambda>p. p\<lparr>seq_counter := seq_counter p + n\<rparr>)
                                          (portfolios (wdb w))\<rparr>"
  using assms unfolding BumpSeq_def
  by (elim sql_InrE) (auto simp: q_bump_seq_def split: if_splits)

lemma SetFilled_InrE:
  assumes "SetFilled i price w = (Inr x, w')"
  obtains "clock w' = clock w" and "wdb w' = (wdb w)\<lparr>orders := row_upd order_id i
    (\<lambda>r. r\<lparr>order_status := ''filled'', fill_price := Some price, reason := None\<rparr>) (orders (wdb w))\<rparr>"
  using assms unfolding SetFilled_def by (elim sql_InrE) (auto simp: q_set_filled_def)

lemma SetStatus_InrE:
  assumes "SetStatus i st (Some why) w = (Inr x, w')"
  obtains "clock w' = clock w" and "wdb w' = set_status_db i st why (wdb w)"
  using assms unfolding SetStatus_def by (elim sql_InrE) (auto simp: q_set_status_def set_status_db_def)

lemma Enqueue_InrE:
  assumes "Enqueue typ pl prio runAt maxAtt w = (Inr jid, w')"
  obtains "jid \<notin> job_id ` set (jobs (wdb w))" and "clock w' = clock w"
    and "wdb w' = (wdb w)\<lparr>jobs := jobs (wdb w) @
        [\<lparr>job_id = jid, job_type = typ, job_payload = pl, priority = prio, run_at = runAt,
          job_status = ''queued'', attempts = 0, max_attempts = maxAtt, leased_until = None,
          last_error = None, job_created = clock w\<rparr>]\<rparr>"
proof -
  obtain i w1 where i: "uuid_New w = (Inr i, w1)"
    and "bindE (sql (q_insert_job i typ pl prio runAt maxAtt)) (\<lambda>_. ret i) w1 = (Inr jid, w')"
    using assms unfolding Enqueue_def by (rule bindE_InrE)
  then obtain u where "sql (q_insert_job i typ pl prio runAt maxAtt) w1 = (Inr u, w')" and "jid = i"
    by (auto elim!: bindE_InrE simp: run_simps)
  with i that show ?thesis
    by (auto elim!: sql_InrE simp: run_simps q_insert_job_def split: if_splits)
qed

lemma InvalidateSnapshot_wdb: "attempt (InvalidateSnapshot i) w = (r, w') \<Longrightarrow> wdb w' = wdb w"
  by (rule keeps_all_wdb [of "attempt (InvalidateSnapshot i)"]) (intro keeps_intros)

section \<open>The transaction of ExecuteOrder\<close>

lemma book_trade_InrE:
  assumes "book_trade ord price cost sq w = (Inr x, w')"
    and p: "row_get pf_id (order_portfolio ord) (portfolios (wdb w)) = Some p" "seq_counter p = sq"
  obtains tid jid where "0 < cost" and "0 < order_quantity ord" and "in_int64 (sq + 2)"
    and "jid \<notin> job_id ` set (jobs (wdb w))"
    and "wdb w' = trade_db (clock w) tid jid ord price cost sq (wdb w)"
proof -
  obtain tid w1 where "uuid_New w = (Inr tid, w1)" and
    "(let sl = stock_leg ord tid sq price; cl = cash_leg ord tid sq cost in
       if wrap64 (SignedValue sl + SignedValue cl) \<noteq> 0
       then raise (ErrMsg ''double-entry invariant violated'')
       else
         bindE (Entry_Insert sl) (\<lambda>_.
         bindE (Entry_Insert cl) (\<lambda>_.
         bindE (BumpSeq (order_portfolio ord) 2) (\<lambda>_.
         bindE (SetFilled (order_id ord) price) (\<lambda>_.
         bindE timeNow (\<lambda>now.
         bindE (Enqueue JobSettle (OrderPayload (order_id ord)) 0 (now + 24 * 3600 * 1000) 3) (\<lambda>_.
         bindE (attempt (InvalidateSnapshot (order_portfolio ord))) (\<lambda>_. ret ())))))))) w1 = (Inr x, w')"
    using assms(1) unfolding book_trade_def by (rule bindE_InrE)
  then obtain u1 w2 u2 w3 u3 w4 u4 w5 jid w6 u6 w7 where
    w1: "wdb w1 = wdb w" "clock w1 = clock w" and
    s1: "Entry_Insert (stock_leg ord tid sq price) w1 = (Inr u1, w2)" and
    s2: "Entry_Insert (cash_leg ord tid sq cost) w2 = (Inr u2, w3)" and
    s3: "BumpSeq (order_portfolio ord) 2 w3 = (Inr u3, w4)" and
    s4: "SetFilled (order_id ord) price w4 = (Inr u4, w5)" and
    s5: "Enqueue JobSettle (OrderPayload (order_id ord)) 0 (clock w5 + 24 * 3600 * 1000) 3 w5 = (Inr jid, w6)" and
    s6: "attempt (InvalidateSnapshot (order_portfolio ord)) w6 = (Inr u6, w7)" and "w' = w7"
    by (auto simp: run_simps Let_def elim!: bindE_InrE split: if_splits)
  from s1 have q: "0 < order_quantity ord" and d2: "wdb w2 = post_entry (clock w) (stock_leg ord tid sq price) (wdb w)"
    and c2: "clock w2 = clock w" by (auto elim!: Entry_Insert_InrE simp: w1)
  from s2 have c: "0 < cost" and d3: "wdb w3 = post_entry (clock w) (cash_leg ord tid sq cost) (wdb w2)"
    and c3: "clock w3 = clock w" by (auto elim!: Entry_Insert_InrE simp: c2)
  have p3: "row_get pf_id (order_portfolio ord) (portfolios (wdb w3)) = Some p" using p by (simp add: d3 d2)
  from s3 p3 obtain b: "in_int64 (seq_counter p + 2)" and c4: "clock w4 = clock w3" and
    d4: "wdb w4 = (wdb w3)\<lparr>portfolios := row_upd pf_id (order_portfolio ord)
            (\<lambda>p. p\<lparr>seq_counter := seq_counter p + 2\<rparr>) (portfolios (wdb w3))\<rparr>"
    by (rule BumpSeq_InrE)
  from s4 obtain c5: "clock w5 = clock w4" and d5: "wdb w5 = (wdb w4)\<lparr>orders := row_upd order_id (order_id ord)
    (\<lambda>r. r\<lparr>order_status := ''filled'', fill_price := Some price, reason := None\<rparr>) (orders (wdb w4))\<rparr>"
    by (rule SetFilled_InrE)
  from s5 obtain j: "jid \<notin> job_id ` set (jobs (wdb w5))" and
    d6: "wdb w6 = (wdb w5)\<lparr>jobs := jobs (wdb w5) @ [settle_job jid (order_id ord) (clock w5)]\<rparr>"
    unfolding settle_job_def by (rule Enqueue_InrE)
  have d7: "wdb w' = wdb w6" using s6 \<open>w' = w7\<close> InvalidateSnapshot_wdb by simp
  show ?thesis
  proof (rule that)
    show "jid \<notin> job_id ` set (jobs (wdb w))" using j by (simp add: d5 d4 d3 d2)
    show "wdb w' = trade_db (clock w) tid jid ord price cost sq (wdb w)"
      by (simp add: trade_db_def Let_def d7 d6 d5 d4 d3 d2 c5 c4 c3)
  qed (use q c b p in simp_all)
qed

lemma fill_tx_cases:
  assumes "fill_tx ord price w = (Inr x, w')"
  obtains (Rejected) why where "short_of ord (wrap64 (order_quantity ord * price)) (wdb w)"
      and "wdb w' = set_status_db (order_id ord) ''rejected'' why (wdb w)"
  | (Booked) tid jid sq where "can_trade ord (wrap64 (order_quantity ord * price)) sq (wdb w)"
      and "jid \<notin> job_id ` set (jobs (wdb w))"
      and "wdb w' = trade_db (clock w) tid jid ord price (wrap64 (order_quantity ord * price)) sq (wdb w)"
proof -
  let ?cost = "wrap64 (order_quantity ord * price)"
  obtain sq w1 h w2 where lock: "LockForUpdate (order_portfolio ord) w = (Inr sq, w1)"
    and hold: "Holdings (order_portfolio ord) None w1 = (Inr h, w2)"
    and rest: "(let cost = ?cost in
       if side ord = ''buy'' \<and> map_at h CASH < cost
       then SetStatus (order_id ord) ''rejected'' (Some (short_msg ''cash'' cost (map_at h CASH)))
       else if side ord \<noteq> ''buy'' \<and> map_at h (order_instrument ord) < order_quantity ord
       then SetStatus (order_id ord) ''rejected''
              (Some (short_msg ''shares'' (order_quantity ord) (map_at h (order_instrument ord))))
       else book_trade ord price cost sq) w2 = (Inr x, w')"
    using assms unfolding fill_tx_def by (auto elim!: bindE_InrE)
  from lock obtain p where p: "row_get pf_id (order_portfolio ord) (portfolios (wdb w)) = Some p"
    "sq = seq_counter p" and w1: "wdb w1 = wdb w" "clock w1 = clock w"
    by (rule LockForUpdate_InrE)
  from hold have h: "\<And>i. map_at h i = balance (wdb w) (order_portfolio ord) i"
    and w2: "wdb w2 = wdb w" "clock w2 = clock w"
    by (auto elim!: Holdings_InrE simp: w1 balance_def)
  show ?thesis
  proof (cases "short_of ord ?cost (wdb w)")
    case True
    with rest obtain why where "SetStatus (order_id ord) ''rejected'' (Some why) w2 = (Inr x, w')"
      by (auto simp: short_of_def h Let_def split: if_splits)
    then have "wdb w' = set_status_db (order_id ord) ''rejected'' why (wdb w)"
      by (auto elim!: SetStatus_InrE simp: w2)
    with True show ?thesis by (rule Rejected)
  next
    case False
    with rest have "book_trade ord price ?cost sq w2 = (Inr x, w')"
      by (auto simp: short_of_def h Let_def split: if_splits)
    then obtain tid jid where "0 < ?cost" "0 < order_quantity ord" "in_int64 (sq + 2)"
      "jid \<notin> job_id ` set (jobs (wdb w))" "wdb w' = trade_db (clock w) tid jid ord price ?cost sq (wdb w)"
      by (rule book_trade_InrE [where p = p]) (use p w2 in simp_all)
    with False p show ?thesis
      by (intro Booked [of sq jid tid]) (auto simp: can_trade_def short_of_def split: if_splits)
  qed
qed

section \<open>The ledger invariant\<close>

definition statuses :: "string list" where
  "statuses = [''pending'', ''filled'', ''rejected'', ''cancelled'', ''settled'']"

text \<open>What holds of the fields of an order that no operation changes.\<close>

definition order_static :: "db \<Rightarrow> order \<Rightarrow> bool" where
  "order_static d ord \<longleftrightarrow>
     0 < order_quantity ord \<and> (side ord = ''buy'' \<or> side ord = ''sell'') \<and>
     (order_type ord = ''market'' \<or> order_type ord = ''limit'' \<and> (\<exists>l > 0. limit_price ord = Some l)) \<and>
     order_instrument ord \<noteq> [] \<and> order_instrument ord \<noteq> CASH \<and>
     order_portfolio ord \<in> pf_id ` set (portfolios d)"

definition orders_ok :: "db \<Rightarrow> bool" where
  "orders_ok d \<longleftrightarrow> distinct (map order_id (orders d)) \<and>
     distinct (filter (\<lambda>k. k \<noteq> []) (map idempotency_key (orders d))) \<and>
     (\<forall>ord \<in> set (orders d). order_static d ord \<and> order_status ord \<in> set statuses)"

definition entries_ok :: "db \<Rightarrow> bool" where
  "entries_ok d \<longleftrightarrow>
     (\<forall>e \<in> set (entries d). 0 < entry_quantity e \<and> (direction e = 1 \<or> direction e = -1) \<and>
        entry_portfolio e \<in> pf_id ` set (portfolios d))"

text \<open>The event stream of a portfolio is numbered 1, 2, .. up to its counter, in insertion order.\<close>

definition seqs_ok :: "db \<Rightarrow> bool" where
  "seqs_ok d \<longleftrightarrow> distinct (map pf_id (portfolios d)) \<and>
     (\<forall>p \<in> set (portfolios d). 0 \<le> seq_counter p \<and>
        map entry_seq (portfolio_entries (pf_id p) None d) = [1..seq_counter p])"

definition balances_ok :: "db \<Rightarrow> bool" where
  "balances_ok d \<longleftrightarrow> (\<forall>p i. 0 \<le> balance d p i)"

definition ledger_inv :: "db \<Rightarrow> bool" where
  "ledger_inv d \<longleftrightarrow> orders_ok d \<and> entries_ok d \<and> seqs_ok d \<and> balances_ok d"

lemmas ledger_inv_defs = ledger_inv_def orders_ok_def entries_ok_def seqs_ok_def balances_ok_def

definition empty_db :: db where
  "empty_db = \<lparr>portfolios = [], entries = [], orders = [], jobs = [], dead_letters = [],
               processed_keys = [], alerts = [], entries_serial = 0\<rparr>"

lemma ledger_inv_empty: "ledger_inv empty_db"
  by (simp add: ledger_inv_defs empty_db_def balance_def portfolio_entries_def)

subsection \<open>Parts the other tables do not touch\<close>

lemma order_static_frame [simp]:
  "order_static (d\<lparr>orders := os\<rparr>) ord = order_static d ord"
  "order_static (d\<lparr>jobs := js\<rparr>) ord = order_static d ord"
  "order_static (post_entry now e d) ord = order_static d ord"
  by (simp_all add: order_static_def)

lemma ledger_inv_frame [simp]:
  "ledger_inv (d\<lparr>jobs := js\<rparr>) = ledger_inv d"
  "ledger_inv (d\<lparr>dead_letters := ds\<rparr>) = ledger_inv d"
  "ledger_inv (d\<lparr>alerts := xs\<rparr>) = ledger_inv d"
  "ledger_inv (d\<lparr>processed_keys := ks\<rparr>) = ledger_inv d"
  "ledger_inv (d\<lparr>entries_serial := n\<rparr>) = ledger_inv d"
  by (simp_all add: ledger_inv_defs balance_def portfolio_entries_def order_static_def)

lemma orders_update_inv:
  assumes "ledger_inv d" and f: "\<And>r. order_status (f r) \<in> set statuses"
    and stat: "\<And>r. f r = r\<lparr>order_status := order_status (f r), fill_price := fill_price (f r), reason := reason (f r)\<rparr>"
  shows "ledger_inv (d\<lparr>orders := row_upd order_id i f (orders d)\<rparr>)"
proof -
  have same: "order_id (f r) = order_id r" "idempotency_key (f r) = idempotency_key r"
    "order_static d (f r) = order_static d r" for r
    by (subst stat, simp add: order_static_def)+
  have keys: "map idempotency_key (row_upd order_id i f (orders d)) = map idempotency_key (orders d)"
    by (simp add: row_upd_def same)
  have "orders_ok (d\<lparr>orders := row_upd order_id i f (orders d)\<rparr>)"
    using assms(1) f by (auto simp: ledger_inv_def orders_ok_def row_upd_keys same keys dest!: row_upd_mem)
  with assms(1) show ?thesis
    by (simp add: ledger_inv_def entries_ok_def seqs_ok_def balances_ok_def)
qed

lemma set_status_inv: "ledger_inv d \<Longrightarrow> st \<in> set statuses \<Longrightarrow> ledger_inv (set_status_db i st why d)"
  unfolding set_status_db_def by (rule orders_update_inv) simp_all

subsection \<open>A trade keeps the invariant\<close>

text \<open>The balances after a trade: shares one way, the (wrapped) cost the other, nothing else.\<close>

lemma trade_db_balance:
  assumes "order_instrument ord \<noteq> CASH"
  shows "balance (trade_db now tid jid ord price cost sq d) p i =
    balance d p i +
    (if p = order_portfolio ord \<and> i = order_instrument ord
     then (if side ord = ''buy'' then order_quantity ord else - order_quantity ord)
     else if p = order_portfolio ord \<and> i = CASH
     then (if side ord = ''buy'' then - cost else cost) else 0)"
  using assms by (auto simp: trade_db_def Let_def ledger.bal_post)

lemma trade_db_balances_ok:
  assumes "balances_ok d" and "can_trade ord cost sq d" and "order_instrument ord \<noteq> CASH"
  shows "balances_ok (trade_db now tid jid ord price cost sq d)"
  using assms by (auto simp: balances_ok_def trade_db_balance can_trade_def add_nonneg_nonneg split: if_splits)

lemma trade_db_all_entries:
  "entries (trade_db now tid jid ord price cost sq d) = entries d @
     [(stock_leg ord tid sq price)\<lparr>entry_id := entries_serial d + 1, entry_created := now\<rparr>,
      (cash_leg ord tid sq cost)\<lparr>entry_id := entries_serial d + 2, entry_created := now\<rparr>]"
  by (simp add: trade_db_def Let_def post_entry_def)

lemma trade_db_entries:
  "portfolio_entries p None (trade_db now tid jid ord price cost sq d) =
     portfolio_entries p None d @
     (if p = order_portfolio ord
      then [(stock_leg ord tid sq price)\<lparr>entry_id := entries_serial d + 1, entry_created := now\<rparr>,
            (cash_leg ord tid sq cost)\<lparr>entry_id := entries_serial d + 2, entry_created := now\<rparr>]
      else [])"
  by (simp add: portfolio_entries_def trade_db_all_entries)

lemma upto_two: "0 \<le> k \<Longrightarrow> [1..k + 2] = [1..k] @ [k + 1, k + 2 :: int]"
  using upto_rec2 [of 1 "k + 2"] upto_rec2 [of 1 "k + 1"] by (simp add: add.commute)

lemma trade_db_seqs_ok:
  assumes "seqs_ok d" and "can_trade ord cost sq d"
  shows "seqs_ok (trade_db now tid jid ord price cost sq d)"
proof -
  let ?f = "\<lambda>p. p\<lparr>seq_counter := seq_counter p + 2\<rparr>"
  let ?d = "trade_db now tid jid ord price cost sq d"
  have pfs: "portfolios ?d = row_upd pf_id (order_portfolio ord) ?f (portfolios d)"
    by (simp add: trade_db_def Let_def)
  obtain p0 where p0: "row_get pf_id (order_portfolio ord) (portfolios d) = Some p0" "seq_counter p0 = sq"
    and rng: "in_int64 (sq + 2)" using assms(2) by (auto simp: can_trade_def)
  have mem: "p0 \<in> set (portfolios d)" "pf_id p0 = order_portfolio ord"
    using row_get_SomeD [OF p0(1)] by auto
  have sq0: "0 \<le> sq" using assms(1) mem p0(2) by (auto simp: seqs_ok_def)
  have wraps: "wrap64 (sq + 1) = sq + 1" "wrap64 (sq + 2) = sq + 2"
    using rng sq0 by (auto simp: in_int64_def)
  have uniq: "p = p0" if "p \<in> set (portfolios d)" "pf_id p = order_portfolio ord" for p
    using that assms(1) p0(1) by (metis option.inject row_get_unique seqs_ok_def)
  have "0 \<le> seq_counter q \<and> map entry_seq (portfolio_entries (pf_id q) None ?d) = [1..seq_counter q]"
    if "q \<in> set (portfolios ?d)" for q
  proof -
    from that obtain p where p: "p \<in> set (portfolios d)" and
      q: "q = (if pf_id p = order_portfolio ord then ?f p else p)"
      by (auto simp: pfs dest!: row_upd_mem)
    have base: "0 \<le> seq_counter p" "map entry_seq (portfolio_entries (pf_id p) None d) = [1..seq_counter p]"
      using assms(1) p by (auto simp: seqs_ok_def)
    show ?thesis
    proof (cases "pf_id p = order_portfolio ord")
      case True
      with uniq p have "p = p0" by simp
      with base p0(2) True show ?thesis
        by (simp add: q trade_db_entries upto_two wraps)
    next
      case False
      with base show ?thesis by (simp add: q trade_db_entries)
    qed
  qed
  moreover have "distinct (map pf_id (portfolios ?d))"
    using assms(1) by (simp add: pfs row_upd_keys seqs_ok_def)
  ultimately show ?thesis by (simp add: seqs_ok_def)
qed

lemma pf_ids_trade_db [simp]:
  "pf_id ` set (portfolios (trade_db now tid jid ord price cost sq d)) = pf_id ` set (portfolios d)"
proof -
  have "map pf_id (portfolios (trade_db now tid jid ord price cost sq d)) = map pf_id (portfolios d)"
    by (simp add: trade_db_def Let_def row_upd_keys)
  then show ?thesis by (metis set_map)
qed

lemma order_static_pf_ids:
  "pf_id ` set (portfolios d) \<subseteq> pf_id ` set (portfolios d') \<Longrightarrow> order_static d ord \<Longrightarrow> order_static d' ord"
  by (auto simp: order_static_def)

lemma orders_ok_mono:
  assumes "orders_ok d" and "orders d' = orders d"
    and "pf_id ` set (portfolios d) \<subseteq> pf_id ` set (portfolios d')"
  shows "orders_ok d'"
  using assms order_static_pf_ids [OF assms(3)] by (auto simp: orders_ok_def)

lemma trade_db_inv:
  assumes inv: "ledger_inv d" and "can_trade ord cost sq d" and "order_static d ord"
  shows "ledger_inv (trade_db now tid jid ord price cost sq d)"
proof -
  let ?d = "trade_db now tid jid ord price cost sq d"
  let ?f = "\<lambda>r. r\<lparr>order_status := ''filled'', fill_price := Some price, reason := None\<rparr>"
  have "ledger_inv (d\<lparr>orders := row_upd order_id (order_id ord) ?f (orders d)\<rparr>)"
    using inv by (rule orders_update_inv) (simp_all add: statuses_def)
  then have "orders_ok (d\<lparr>orders := row_upd order_id (order_id ord) ?f (orders d)\<rparr>)"
    by (simp add: ledger_inv_def)
  then have "orders_ok ?d"
    by (rule orders_ok_mono) (simp_all, simp add: trade_db_def Let_def)
  moreover have "entries_ok ?d"
    using assms by (auto simp: entries_ok_def ledger_inv_def trade_db_all_entries can_trade_def order_static_def)
  moreover have "seqs_ok ?d" "balances_ok ?d"
    using assms trade_db_seqs_ok trade_db_balances_ok by (auto simp: ledger_inv_def order_static_def)
  ultimately show ?thesis by (simp add: ledger_inv_def)
qed

subsection \<open>Every operation keeps the invariant\<close>

lemma Order_Get_InrE:
  assumes "Order_Get i w = (Inr ord, w')"
  obtains "row_get order_id i (orders (wdb w)) = Some ord" and "wdb w' = wdb w" and "clock w' = clock w"
  using assms unfolding Order_Get_def
  by (elim sql_InrE) (auto simp: q_get_order_def split: option.splits)

lemma keeps_reads [keeps_intros]:
  "keeps (on_tables P) (Order_Get i)"
  "keeps (on_tables P) (GetByIdempotencyKey k)"
  "keeps (on_tables P) (Portfolio_Exists i)"
  "keeps (on_tables P) (LockForUpdate i)"
  "keeps (on_tables P) (Holdings i t)"
  "keeps (on_tables P) (Entry_List i)"
  "keeps (on_tables P) (ListByPortfolio i n)"
  unfolding Order_Get_def GetByIdempotencyKey_def Portfolio_Exists_def LockForUpdate_def Holdings_def
    Entry_List_def ListByPortfolio_def
  by (auto intro!: keeps_sql simp: q_get_order_def q_get_by_key_def q_lock_portfolio_def q_holdings_def
      Let_def split: option.splits if_splits)

lemma keeps_SetStatus:
  "(\<And>d. P d \<Longrightarrow> P (d\<lparr>orders := row_upd order_id i (\<lambda>r. r\<lparr>order_status := st, reason := why\<rparr>) (orders d)\<rparr>))
     \<Longrightarrow> keeps (on_tables P) (SetStatus i st why)"
  unfolding SetStatus_def by (rule keeps_sql) (auto simp: q_set_status_def)

definition exec_inv :: "order \<Rightarrow> db \<Rightarrow> bool" where
  "exec_inv ord d \<longleftrightarrow> ledger_inv d \<and> order_static d ord"

lemma set_status_exec_inv: "exec_inv ord d \<Longrightarrow> st \<in> set statuses \<Longrightarrow> exec_inv ord (set_status_db i st why d)"
  by (simp add: exec_inv_def set_status_inv) (simp add: set_status_db_def)

lemma keeps_SetStatus_inv [keeps_intros]:
  "st \<in> set statuses \<Longrightarrow> keeps (on_tables (exec_inv ord)) (SetStatus i st (Some why))"
  by (rule keeps_SetStatus) (use set_status_exec_inv in \<open>simp add: set_status_db_def\<close>)

lemma fill_tx_exec_inv:
  assumes "exec_inv ord (wdb w)" and "fill_tx ord price w = (Inr x, w')"
  shows "exec_inv ord (wdb w')"
  using assms(2)
proof (cases rule: fill_tx_cases)
  case (Rejected why)
  with assms(1) show ?thesis by (simp add: set_status_exec_inv statuses_def)
next
  case (Booked tid jid sq)
  then show ?thesis
    using assms(1) trade_db_inv order_static_pf_ids [of "wdb w"] by (auto simp: exec_inv_def)
qed

lemma keeps_fill [keeps_intros]: "keeps (on_tables (exec_inv ord)) (runTx (fill_tx ord price))"
  by (rule keeps_runTx, simp add: exec_inv_def order_static_def, rule fill_tx_exec_inv)

lemma keeps_execute_priced: "keeps (on_tables (exec_inv ord)) (execute_priced ord price)"
  unfolding execute_priced_def reject_def
  by (auto intro!: keeps_intros simp: statuses_def split: option.splits)

lemma orders_static: "ledger_inv d \<Longrightarrow> row_get order_id i (orders d) = Some ord \<Longrightarrow> order_static d ord"
  by (auto simp: ledger_inv_def orders_ok_def dest!: row_get_SomeD)

lemma keeps_ExecuteOrder: "keeps (on_tables ledger_inv) (ExecuteOrder m i)"
  unfolding ExecuteOrder_def
proof (rule keeps_bindE_post [where J = "\<lambda>ord w. order_static (wdb w) ord"], intro keeps_intros)
  fix w ord w'
  assume "on_tables ledger_inv w" and "Order_Get i w = (Inr ord, w')"
  then show "order_static (wdb w') ord" by (auto elim!: Order_Get_InrE simp: on_tables_def orders_static)
next
  fix ord w
  let ?rest = "if order_status ord \<noteq> ''pending'' then ret ()
     else bindE (attempt (MD_Quote m (order_instrument ord))) (\<lambda>r. case r of
        Inl e \<Rightarrow> raise (ErrWrap ''price lookup failed'' e) | Inr q \<Rightarrow> execute_priced ord (quote_price q))"
  assume "on_tables ledger_inv w" and "order_static (wdb w) ord"
  then have "on_tables (exec_inv ord) w" by (simp add: on_tables_def exec_inv_def)
  moreover have "keeps (on_tables (exec_inv ord)) ?rest"
    by (auto intro!: keeps_intros keeps_execute_priced split: sum.splits)
  ultimately have "on_tables (exec_inv ord) (snd (?rest w))" by (simp add: keeps_def)
  then show "on_tables ledger_inv (snd (?rest w))" by (simp add: on_tables_def exec_inv_def)
qed

lemma keeps_CancelOrder: "keeps (on_tables ledger_inv) (CancelOrder i)"
  unfolding CancelOrder_def
  by (intro keeps_intros keeps_SetStatus)
    (use set_status_inv in \<open>auto simp: set_status_db_def statuses_def\<close>)

section \<open>Placing an order\<close>

definition execute_job :: "uuid \<Rightarrow> uuid \<Rightarrow> time \<Rightarrow> job" where
  "execute_job jid oid now =
     \<lparr>job_id = jid, job_type = JobExecuteOrder, job_payload = OrderPayload oid, priority = 10,
      run_at = now, job_status = ''queued'', attempts = 0, max_attempts = 5,
      leased_until = None, last_error = None, job_created = now\<rparr>"

text \<open>The effect of an accepted order: the order row and its execution job, together.\<close>

definition outbox_db :: "time \<Rightarrow> uuid \<Rightarrow> order \<Rightarrow> db \<Rightarrow> db" where
  "outbox_db now jid ord d =
     d\<lparr>orders := orders d @ [ord\<lparr>fill_price := None, reason := None, order_created := now\<rparr>],
       jobs := jobs d @ [execute_job jid (order_id ord) now]\<rparr>"

text \<open>The constraints of the table \<open>orders\<close> admit the row.\<close>

definition insertable :: "order \<Rightarrow> db \<Rightarrow> bool" where
  "insertable ord d \<longleftrightarrow> 0 < order_quantity ord \<and> order_id ord \<notin> order_id ` set (orders d) \<and>
     (idempotency_key ord = [] \<or> idempotency_key ord \<notin> idempotency_key ` set (orders d)) \<and>
     order_portfolio ord \<in> pf_id ` set (portfolios d)"

lemma Order_Create_InrE:
  assumes "Order_Create ord w = (Inr x, w')"
  obtains "insertable ord (wdb w)" and "clock w' = clock w"
    and "wdb w' = (wdb w)\<lparr>orders := orders (wdb w) @
                  [ord\<lparr>fill_price := None, reason := None, order_created := clock w\<rparr>]\<rparr>"
proof -
  obtain d where "q_insert_order ord (clock w) (wdb w) = Inr (x, d)" "wdb w' = d" "clock w' = clock w"
    using assms unfolding Order_Create_def by (rule sql_InrE)
  then show ?thesis by (intro that) (auto simp: q_insert_order_def insertable_def split: if_splits)
qed

lemma outbox_tx_InrE:
  assumes "outbox_tx ord w = (Inr x, w')"
  obtains jid where "insertable ord (wdb w)" and "jid \<notin> job_id ` set (jobs (wdb w))"
    and "wdb w' = outbox_db (clock w) jid ord (wdb w)"
proof -
  obtain u w1 jid where c: "Order_Create ord w = (Inr u, w1)"
    and e: "Enqueue JobExecuteOrder (OrderPayload (order_id ord)) 10 (clock w1) 5 w1 = (Inr jid, w')"
    using assms unfolding outbox_tx_def by (auto elim!: bindE_InrE simp: run_simps)
  from c obtain 1: "insertable ord (wdb w)" "clock w1 = clock w"
    and 2: "wdb w1 = (wdb w)\<lparr>orders := orders (wdb w) @
                  [ord\<lparr>fill_price := None, reason := None, order_created := clock w\<rparr>]\<rparr>"
    by (rule Order_Create_InrE)
  from e obtain 3: "jid \<notin> job_id ` set (jobs (wdb w1))"
    and 4: "wdb w' = (wdb w1)\<lparr>jobs := jobs (wdb w1) @ [execute_job jid (order_id ord) (clock w1)]\<rparr>"
    unfolding execute_job_def by (rule Enqueue_InrE)
  show ?thesis by (rule that [of jid]) (use 1 2 3 4 in \<open>simp_all add: outbox_db_def\<close>)
qed

lemma outbox_inv:
  assumes "ledger_inv d" and "insertable ord d" and "order_static d ord" and "order_status ord = ''pending''"
  shows "ledger_inv (outbox_db now jid ord d)"
proof -
  let ?row = "ord\<lparr>fill_price := None, reason := None, order_created := now\<rparr>"
  have "orders_ok (d\<lparr>orders := orders d @ [?row]\<rparr>)"
    using assms by (auto simp: ledger_inv_def orders_ok_def insertable_def statuses_def order_static_def)
  then have "ledger_inv (d\<lparr>orders := orders d @ [?row]\<rparr>)"
    using assms(1) by (simp add: ledger_inv_def entries_ok_def seqs_ok_def balances_ok_def)
  then show ?thesis by (simp add: outbox_db_def)
qed

text \<open>The type of an order after the default of \<open>PlaceOrder\<close>, and its validity test.\<close>

definition eff_type :: "place_req \<Rightarrow> string" where
  "eff_type req = (if req_type req = [] then ''market'' else req_type req)"

definition valid_req :: "place_req \<Rightarrow> bool" where
  "valid_req req \<longleftrightarrow>
     (req_side req = ''buy'' \<or> req_side req = ''sell'') \<and>
     (eff_type req = ''market'' \<or>
      eff_type req = ''limit'' \<and> (case req_limit_price req of None \<Rightarrow> False | Some l \<Rightarrow> 0 < l)) \<and>
     0 < req_quantity req \<and> req_instrument req \<noteq> [] \<and> req_instrument req \<noteq> CASH"

lemma PlaceOrder_valid:
  "valid_req req \<Longrightarrow> PlaceOrder req = bindE (find_existing (req_idempotency_key req)) (\<lambda>ex.
        case ex of Some existing \<Rightarrow> ret existing | None \<Rightarrow> place_new req (eff_type req))"
  by (auto simp: PlaceOrder_def valid_req_def eff_type_def Let_def split: option.splits)

lemma PlaceOrder_invalid: "\<not> valid_req req \<Longrightarrow> \<exists>msg. PlaceOrder req w = (Inl (ValidationError msg), w)"
  by (auto simp: PlaceOrder_def valid_req_def eff_type_def Let_def raise_run not_less split: option.splits if_splits)

lemma req_order_simps [simp]:
  "order_id (req_order req typ i) = i"
  "order_portfolio (req_order req typ i) = req_portfolio req"
  "order_status (req_order req typ i) = ''pending''"
  "idempotency_key (req_order req typ i) = req_idempotency_key req"
  by (simp_all add: req_order_def)

lemma req_order_static:
  "valid_req req \<Longrightarrow> req_portfolio req \<in> pf_id ` set (portfolios d) \<Longrightarrow>
   order_static d (req_order req (eff_type req) i)"
  by (auto simp: valid_req_def order_static_def req_order_def split: option.splits)

lemma keeps_find_existing [keeps_intros]: "keeps (on_tables P) (find_existing k)"
  unfolding find_existing_def by (auto intro!: keeps_intros split: sum.splits)

lemma keeps_outbox:
  assumes "valid_req req"
  shows "keeps (on_tables ledger_inv) (runTx (outbox_tx (req_order req (eff_type req) i)))"
proof (rule keeps_runTx)
  fix w x w'
  assume inv: "ledger_inv (wdb w)" and "outbox_tx (req_order req (eff_type req) i) w = (Inr x, w')"
  then obtain jid where ins: "insertable (req_order req (eff_type req) i) (wdb w)"
    and d: "wdb w' = outbox_db (clock w) jid (req_order req (eff_type req) i) (wdb w)"
    by (auto elim: outbox_tx_InrE)
  have "order_static (wdb w) (req_order req (eff_type req) i)"
    using assms ins by (intro req_order_static) (simp_all add: insertable_def)
  then show "ledger_inv (wdb w')" using outbox_inv [OF inv ins] by (simp add: d)
qed simp

lemma keeps_PlaceOrder: "keeps (on_tables ledger_inv) (PlaceOrder req)"
proof (cases "valid_req req")
  case True
  then show ?thesis
    by (auto simp: PlaceOrder_valid place_new_def intro!: keeps_intros keeps_outbox split: option.splits)
next
  case False
  then show ?thesis by (metis PlaceOrder_invalid keeps_def snd_conv)
qed

section \<open>Creating a portfolio\<close>

lemma Portfolio_Create_InrE:
  assumes "Portfolio_Create name w = (Inr i, w')"
  obtains "i \<notin> pf_id ` set (portfolios (wdb w))" and "clock w' = clock w"
    and "wdb w' = (wdb w)\<lparr>portfolios := portfolios (wdb w) @
           [\<lparr>pf_id = i, pf_name = name, pf_created = clock w, seq_counter = 0\<rparr>]\<rparr>"
proof -
  obtain j w1 u where "uuid_New w = (Inr j, w1)" and "j = i"
    and "sql (q_insert_portfolio j name) w1 = (Inr u, w')"
    using assms unfolding Portfolio_Create_def by (auto elim!: bindE_InrE simp: run_simps)
  then show ?thesis
    by (intro that) (auto elim!: sql_InrE simp: run_simps q_insert_portfolio_def split: if_splits)
qed

text \<open>The effect of opening a portfolio: a row, and the seed as the first entry.\<close>

definition open_db :: "time \<Rightarrow> uuid \<Rightarrow> uuid \<Rightarrow> string \<Rightarrow> int \<Rightarrow> db \<Rightarrow> db" where
  "open_db now tid i name seedPaise d =
     (let new = (\<lambda>n. d\<lparr>portfolios := portfolios d @
                   [\<lparr>pf_id = i, pf_name = name, pf_created = now, seq_counter = n\<rparr>]\<rparr>)
      in if 0 < seedPaise then post_entry now (seed_entry tid i seedPaise) (new 1) else new 0)"

lemma row_upd_fresh:
  "i \<notin> key ` set rs \<Longrightarrow> key r = i \<Longrightarrow> row_upd key i f (rs @ [r]) = rs @ [f r]"
  using row_upd_absent [of i key rs f] by (simp add: row_upd_def)

lemma create_body_InrE:
  assumes "(bindE (Portfolio_Create name) (\<lambda>i.
           if 0 < seedPaise then
             bindE (LockForUpdate i) (\<lambda>_.
             bindE uuid_New (\<lambda>tid.
             bindE (Entry_Insert (seed_entry tid i seedPaise)) (\<lambda>_.
             bindE (BumpSeq i 1) (\<lambda>_. ret i))))
           else ret i)) w = (Inr i, w')"
  obtains tid where "i \<notin> pf_id ` set (portfolios (wdb w))"
    and "wdb w' = open_db (clock w) tid i name seedPaise (wdb w)"
proof -
  let ?r = "\<lparr>pf_id = i, pf_name = name, pf_created = clock w, seq_counter = 0\<rparr>"
  obtain j w1 where "Portfolio_Create name w = (Inr j, w1)" and
    rest: "(if 0 < seedPaise then
             bindE (LockForUpdate j) (\<lambda>_.
             bindE uuid_New (\<lambda>tid.
             bindE (Entry_Insert (seed_entry tid j seedPaise)) (\<lambda>_.
             bindE (BumpSeq j 1) (\<lambda>_. ret j))))
           else ret j) w1 = (Inr i, w')"
    using assms by (rule bindE_InrE)
  moreover from rest have "j = i" by (auto elim!: bindE_InrE simp: run_simps split: if_splits)
  ultimately have new: "i \<notin> pf_id ` set (portfolios (wdb w))" and c1: "clock w1 = clock w"
    and d1: "wdb w1 = (wdb w)\<lparr>portfolios := portfolios (wdb w) @ [?r]\<rparr>"
    by (auto elim!: Portfolio_Create_InrE)
  show ?thesis
  proof (cases "0 < seedPaise")
    case False
    with rest \<open>j = i\<close> have "w' = w1" by (simp add: run_simps)
    with new False show ?thesis by (intro that) (simp_all add: open_db_def d1)
  next
    case True
    with rest \<open>j = i\<close> obtain sq w2 w3 tid u w4 v where l: "LockForUpdate i w1 = (Inr sq, w2)"
      and n: "uuid_New w2 = (Inr tid, w3)" and e: "Entry_Insert (seed_entry tid i seedPaise) w3 = (Inr u, w4)"
      and b: "BumpSeq i 1 w4 = (Inr v, w')"
      by (auto elim!: bindE_InrE simp: run_simps)
    have d3: "wdb w3 = wdb w1" "clock w3 = clock w" using l n c1 by (auto elim!: LockForUpdate_InrE simp: run_simps)
    have d4: "wdb w4 = post_entry (clock w) (seed_entry tid i seedPaise) (wdb w1)"
      using e by (auto elim!: Entry_Insert_InrE simp: d3)
    have get: "row_get pf_id i (portfolios (wdb w4)) = Some ?r"
      using new by (simp add: d4 d1 row_get_append row_get_None_iff [THEN iffD2])
    from b get have "wdb w' = (wdb w4)\<lparr>portfolios := row_upd pf_id i (\<lambda>p. p\<lparr>seq_counter := seq_counter p + 1\<rparr>)
                                          (portfolios (wdb w4))\<rparr>" by (auto elim!: BumpSeq_InrE)
    with True new show ?thesis
      by (intro that [of tid]) (simp_all add: open_db_def d4 d1 row_upd_fresh, simp add: post_entry_def)
  qed
qed

lemma open_db_balance:
  assumes "i \<notin> pf_id ` set (portfolios d)"
  shows "balance (open_db now tid i name amount d) p j =
           balance d p j + (if p = i \<and> j = CASH \<and> 0 < amount then amount else 0)"
  by (simp add: open_db_def Let_def ledger.bal_post) (simp add: seed_entry_def)

lemma open_db_inv:
  assumes inv: "ledger_inv d" and new: "i \<notin> pf_id ` set (portfolios d)"
  shows "ledger_inv (open_db now tid i name amount d)"
proof -
  let ?d = "open_db now tid i name amount d"
  have "orders_ok ?d"
    by (rule orders_ok_mono [of d]) (use inv in \<open>auto simp: ledger_inv_def open_db_def Let_def\<close>)
  moreover have "entries_ok ?d"
    using inv by (auto simp: ledger_inv_def entries_ok_def open_db_def Let_def post_entry_def seed_entry_def)
  moreover have "balances_ok ?d"
    using inv by (auto simp: balances_ok_def open_db_balance [OF new] ledger_inv_def add_nonneg_nonneg)
  moreover have "seqs_ok ?d"
  proof -
    have none: "portfolio_entries i None d = []"
      using inv new by (auto simp: ledger_inv_def entries_ok_def portfolio_entries_def filter_empty_conv)
    have old: "portfolio_entries p None ?d = portfolio_entries p None d" if "p \<noteq> i" for p
      using that by (auto simp: open_db_def Let_def post_entry_def portfolio_entries_def seed_entry_def)
    have seqs: "map entry_seq (portfolio_entries i None ?d) = (if 0 < amount then [1] else [])"
      using none by (auto simp: open_db_def Let_def post_entry_def portfolio_entries_def seed_entry_def)
    have pfs: "portfolios ?d = portfolios d @
        [\<lparr>pf_id = i, pf_name = name, pf_created = now, seq_counter = (if 0 < amount then 1 else 0)\<rparr>]"
      by (simp add: open_db_def Let_def)
    have "p \<noteq> i" if "p \<in> pf_id ` set (portfolios d)" for p using that new by auto
    then show ?thesis
      using inv new by (auto simp: ledger_inv_def seqs_ok_def pfs old seqs)
  qed
  ultimately show ?thesis by (simp add: ledger_inv_def)
qed

lemma keeps_CreatePortfolio: "keeps (on_tables ledger_inv) (CreatePortfolio name seedPaise)"
  unfolding CreatePortfolio_def
proof (intro keeps_If keeps_raise keeps_runTx)
  fix w x w'
  assume "ledger_inv (wdb w)" and "(bindE (Portfolio_Create name) (\<lambda>i.
           if 0 < seedPaise then
             bindE (LockForUpdate i) (\<lambda>_.
             bindE uuid_New (\<lambda>tid.
             bindE (Entry_Insert (seed_entry tid i seedPaise)) (\<lambda>_.
             bindE (BumpSeq i 1) (\<lambda>_. ret i))))
           else ret i)) w = (Inr x, w')"
  then show "ledger_inv (wdb w')" by (elim create_body_InrE) (simp add: open_db_inv)
qed simp

section \<open>Reading\<close>

lemma keeps_positions_loop [keeps_intros]: "keeps (on_tables P) (positions_loop m h ps tot)"
proof (induction h arbitrary: ps tot)
  case (Cons x h)
  then show ?case by (cases x) (auto intro!: keeps_intros simp: Let_def)
qed (simp add: keeps_ret)

lemma keeps_Portfolio: "keeps (on_tables P) (Portfolio m i t)"
  unfolding Portfolio_def compute_view_def
  by (auto intro!: keeps_intros split: sum.splits prod.splits)

lemma keeps_History: "keeps (on_tables P) (History i)"
  unfolding History_def by (intro keeps_intros)

end
