(* ===== verification/Trading_Properties.thy ===== *)
theory Trading_Properties
  imports Trading_Ledger
begin

text \<open>
  The properties of the trading core.

  \<open>broker\<close> is its abstract specification: accounts hold unbounded integers and an order either moves
  shares against cash or is turned down. \<open>ExecuteOrder\<close> refines it as long as the amount of the
  trade fits 64 bits. The other theorems are about failures (an error leaves the tables as they
  were), repetition (executing or submitting twice), the event stream (append-only, numbered without
  gaps, stable past) and the derived views.
\<close>

section \<open>The abstract broker\<close>

type_synonym accounts = "uuid \<Rightarrow> string \<Rightarrow> int"

datatype verdict = Fill int | TurnDown

definition exec_price :: "order \<Rightarrow> int \<Rightarrow> int" where
  "exec_price ord market =
     (if order_type ord = ''limit'' then (case limit_price ord of None \<Rightarrow> market | Some l \<Rightarrow> l) else market)"

text \<open>A limit order is not marketable when the market is worse than its limit.\<close>

definition marketable :: "order \<Rightarrow> int \<Rightarrow> bool" where
  "marketable ord market \<longleftrightarrow>
     (order_type ord = ''limit'' \<longrightarrow>
        (if side ord = ''buy'' then market \<le> exec_price ord market else exec_price ord market \<le> market))"

definition affordable :: "order \<Rightarrow> int \<Rightarrow> accounts \<Rightarrow> bool" where
  "affordable ord price acc \<longleftrightarrow>
     (if side ord = ''buy'' then order_quantity ord * price \<le> acc (order_portfolio ord) CASH
      else order_quantity ord \<le> acc (order_portfolio ord) (order_instrument ord))"

definition credit :: "uuid \<Rightarrow> string \<Rightarrow> int \<Rightarrow> accounts \<Rightarrow> accounts" where
  "credit p i n acc = acc(p := (acc p)(i := acc p i + n))"

definition broker :: "order \<Rightarrow> int \<Rightarrow> accounts \<Rightarrow> verdict \<times> accounts" where
  "broker ord market acc =
     (let price = exec_price ord market; q = order_quantity ord; p = order_portfolio ord;
          s = (if side ord = ''buy'' then 1 else -1)
      in if marketable ord market \<and> affordable ord price acc
         then (Fill price, credit p CASH (- s * q * price) (credit p (order_instrument ord) (s * q) acc))
         else (TurnDown, acc))"

definition same_tables :: "db \<Rightarrow> db \<Rightarrow> bool" where
  "same_tables d d' \<longleftrightarrow> d' = d\<lparr>entries_serial := entries_serial d'\<rparr>"

lemma same_tables_refl [simp]: "same_tables d d"
  by (simp add: same_tables_def)

lemma same_tables_serial [simp]: "same_tables d (d\<lparr>entries_serial := n\<rparr>)"
  by (simp add: same_tables_def)

section \<open>What ExecuteOrder can do\<close>

lemma sql_Inl_same: "sql q w = (Inl e, w') \<Longrightarrow> same_tables (wdb w) (wdb w')"
  by (auto dest: sql_Inl_wdb)

lemma runTx_Inl_same: "runTx fn w = (Inl e, w') \<Longrightarrow> same_tables (wdb w) (wdb w')"
  by (auto dest!: runTx_Inl_tables)

lemma execute_priced_Inl: "execute_priced ord price w = (Inl e, w') \<Longrightarrow> same_tables (wdb w) (wdb w')"
  by (auto simp: execute_priced_def reject_def SetStatus_def run_simps
      split: if_splits option.splits dest: sql_Inl_same runTx_Inl_same)

lemma fill_Inr_cases:
  assumes "runTx (fill_tx ord price) w = (Inr x, w')"
  obtains (Rejected) why where "short_of ord (wrap64 (order_quantity ord * price)) (wdb w)"
      and "wdb w' = set_status_db (order_id ord) ''rejected'' why (wdb w)"
  | (Booked) tid jid sq where "can_trade ord (wrap64 (order_quantity ord * price)) sq (wdb w)"
      and "jid \<notin> job_id ` set (jobs (wdb w))"
      and "wdb w' = trade_db (clock w) tid jid ord price (wrap64 (order_quantity ord * price)) sq (wdb w)"
proof -
  obtain bs w2 cs where "fill_tx ord price (w\<lparr>faults := bs\<rparr>) = (Inr x, w2)" and w': "w' = w2\<lparr>faults := cs\<rparr>"
    using assms by (rule runTx_InrE)
  from this(1) show ?thesis
    by (cases rule: fill_tx_cases) (use w' Rejected Booked in simp_all)
qed

definition unmarketable_msg :: "order \<Rightarrow> string" where
  "unmarketable_msg ord =
     (if side ord = ''buy'' then ''limit buy not marketable'' else ''limit sell not marketable'')"

lemma execute_priced_eq:
  "order_static d ord \<Longrightarrow> execute_priced ord market =
     (if marketable ord market then runTx (fill_tx ord (exec_price ord market))
      else reject (order_id ord) (unmarketable_msg ord))"
  by (auto simp: order_static_def execute_priced_def marketable_def exec_price_def unmarketable_msg_def)

lemma reject_InrE:
  assumes "reject i why w = (Inr x, w')"
  obtains "wdb w' = set_status_db i ''rejected'' why (wdb w)" and "clock w' = clock w"
  using assms unfolding reject_def by (rule SetStatus_InrE) (use that in blast)

text \<open>The three ways in which executing an order can succeed.\<close>

definition exec_result :: "order \<Rightarrow> time \<Rightarrow> db \<Rightarrow> db \<Rightarrow> bool" where
  "exec_result ord now d d' \<longleftrightarrow>
     (\<exists>why. d' = set_status_db (order_id ord) ''rejected'' why d) \<or>
     (\<exists>market tid jid sq.
        marketable ord market \<and>
        can_trade ord (wrap64 (order_quantity ord * exec_price ord market)) sq d \<and>
        jid \<notin> job_id ` set (jobs d) \<and>
        d' = trade_db now tid jid ord (exec_price ord market)
               (wrap64 (order_quantity ord * exec_price ord market)) sq d)"

lemma exec_result_booked:
  "marketable ord market \<Longrightarrow> cost = wrap64 (order_quantity ord * exec_price ord market) \<Longrightarrow>
   can_trade ord cost sq d \<Longrightarrow> jid \<notin> job_id ` set (jobs d) \<Longrightarrow>
   exec_result ord now d (trade_db now tid jid ord (exec_price ord market) cost sq d)"
  unfolding exec_result_def by blast

lemma execute_priced_result:
  assumes "execute_priced ord market w = (Inr x, w')" and "order_static d ord"
  shows "exec_result ord (clock w) (wdb w) (wdb w')"
proof (cases "marketable ord market")
  case False
  with assms(1) have "reject (order_id ord) (unmarketable_msg ord) w = (Inr x, w')"
    by (simp add: execute_priced_eq [OF assms(2)])
  then show ?thesis by (rule reject_InrE) (auto simp: exec_result_def)
next
  case True
  with assms(1) have "runTx (fill_tx ord (exec_price ord market)) w = (Inr x, w')"
    by (simp add: execute_priced_eq [OF assms(2)])
  then show ?thesis
  proof (cases rule: fill_Inr_cases)
    case (Rejected why)
    then show ?thesis by (auto simp: exec_result_def)
  next
    case (Booked tid jid sq)
    then show ?thesis using True by (simp add: exec_result_booked)
  qed
qed

lemma MD_Quote_clock: "MD_Quote m s w = (r, w') \<Longrightarrow> clock w' = clock w"
  by (auto simp: MD_Quote_def bindE_def attempt_def GetQuote_def redis_get_def SetQuote_def
      redis_set_def ext_def timeNow_def ret_def raise_def Let_def
      split: sum.splits prod.splits option.splits rval.splits list.splits if_splits)

lemma ExecuteOrder_Inl_same:
  assumes "ExecuteOrder m i w = (Inl e, w')"
  shows "same_tables (wdb w) (wdb w')"
proof (cases "Order_Get i w")
  case (Pair r w1)
  have w1: "wdb w1 = wdb w" using Pair keeps_all_wdb [OF keeps_reads(1)] by blast
  show ?thesis
  proof (cases r)
    case (Inl a)
    with assms Pair w1 show ?thesis by (simp add: ExecuteOrder_def bindE_def)
  next
    case (Inr ord)
    obtain rq w2 where q: "MD_Quote m (order_instrument ord) w1 = (rq, w2)" by fastforce
    have "wdb w2 = wdb w" using MD_Quote_wdb [OF q] w1 by simp
    with assms Pair Inr w1 q show ?thesis
      using execute_priced_Inl [of ord _ w2 e w']
      by (auto simp: ExecuteOrder_def bindE_def attempt_def run_simps split: if_splits sum.splits)
  qed
qed

lemma ExecuteOrder_Inr_cases:
  assumes "ExecuteOrder m i w = (Inr x, w')" and "ledger_inv (wdb w)"
  obtains ord where "row_get order_id i (orders (wdb w)) = Some ord" and "order_static (wdb w) ord"
    and "order_status ord \<noteq> ''pending'' \<and> wdb w' = wdb w \<or>
         order_status ord = ''pending'' \<and> exec_result ord (clock w) (wdb w) (wdb w')"
proof -
  obtain ord w1 where get: "Order_Get i w = (Inr ord, w1)" and
    rest: "(if order_status ord \<noteq> ''pending'' then ret ()
       else bindE (attempt (MD_Quote m (order_instrument ord))) (\<lambda>r.
         case r of
           Inl e \<Rightarrow> raise (ErrWrap ''price lookup failed'' e)
         | Inr q \<Rightarrow> execute_priced ord (quote_price q))) w1 = (Inr x, w')"
    using assms(1) unfolding ExecuteOrder_def by (rule bindE_InrE)
  from get obtain row: "row_get order_id i (orders (wdb w)) = Some ord" and w1: "wdb w1 = wdb w" "clock w1 = clock w"
    by (rule Order_Get_InrE)
  have st: "order_static (wdb w) ord" using orders_static [OF assms(2) row] .
  show ?thesis
  proof (rule that [OF row st], cases "order_status ord = ''pending''")
    case False
    with rest w1 show "order_status ord \<noteq> ''pending'' \<and> wdb w' = wdb w \<or>
         order_status ord = ''pending'' \<and> exec_result ord (clock w) (wdb w) (wdb w')"
      by (simp add: run_simps)
  next
    case True
    obtain rq w2 where q: "MD_Quote m (order_instrument ord) w1 = (rq, w2)" by fastforce
    have "\<exists>price. execute_priced ord price w2 = (Inr x, w')"
      using True rest q by (cases rq) (auto simp: bindE_def attempt_def run_simps)
    then obtain price where "execute_priced ord price w2 = (Inr x, w')" ..
    from execute_priced_result [OF this st] True
    show "order_status ord \<noteq> ''pending'' \<and> wdb w' = wdb w \<or>
         order_status ord = ''pending'' \<and> exec_result ord (clock w) (wdb w) (wdb w')"
      using MD_Quote_wdb [OF q] MD_Quote_clock [OF q] w1 by simp
  qed
qed

section \<open>Runs without failures\<close>

lemma LockForUpdate_run:
  "faults w = [] \<Longrightarrow> row_get pf_id p (portfolios (wdb w)) = Some r \<Longrightarrow>
   LockForUpdate p w = (Inr (seq_counter r), w)"
  by (simp add: LockForUpdate_def run_simps q_lock_portfolio_def)

definition holdings_rows :: "uuid \<Rightarrow> db \<Rightarrow> (string \<times> int) list" where
  "holdings_rows p d = (let es = portfolio_entries p None d
     in map (\<lambda>i. (i, net es i)) (remdups (map entry_instrument es)))"

lemma map_at_holdings_rows: "map_at (holdings_rows p d) i = balance d p i"
  by (simp add: holdings_rows_def Let_def map_at_rows balance_def)

lemma Holdings_run:
  "faults w = [] \<Longrightarrow> (\<And>i. in_int64 (balance (wdb w) p i)) \<Longrightarrow>
   Holdings p None w = (Inr (holdings_rows p (wdb w)), w)"
  by (simp add: Holdings_def run_simps q_holdings_def Let_def holdings_rows_def list_all_iff balance_def)

lemma SetStatus_run:
  "faults w = [] \<Longrightarrow> SetStatus i st (Some why) w = (Inr (), w\<lparr>wdb := set_status_db i st why (wdb w)\<rparr>)"
  by (simp add: SetStatus_def run_simps q_set_status_def set_status_db_def)

lemma Entry_Insert_run:
  "faults w = [] \<Longrightarrow> 0 < entry_quantity e \<Longrightarrow> entry_portfolio e \<in> pf_id ` set (portfolios (wdb w)) \<Longrightarrow>
   Entry_Insert e w = (Inr (), w\<lparr>wdb := post_entry (clock w) e (wdb w)\<rparr>)"
  by (simp add: Entry_Insert_def run_simps q_insert_entry_def post_entry_def)

lemma BumpSeq_run:
  "faults w = [] \<Longrightarrow> row_get pf_id p (portfolios (wdb w)) = Some r \<Longrightarrow> in_int64 (seq_counter r + n) \<Longrightarrow>
   BumpSeq p n w = (Inr (), w\<lparr>wdb := (wdb w)\<lparr>portfolios :=
     row_upd pf_id p (\<lambda>p. p\<lparr>seq_counter := seq_counter p + n\<rparr>) (portfolios (wdb w))\<rparr>\<rparr>)"
  by (simp add: BumpSeq_def run_simps q_bump_seq_def)

lemma SetFilled_run:
  "faults w = [] \<Longrightarrow> SetFilled i price w = (Inr (), w\<lparr>wdb := (wdb w)\<lparr>orders := row_upd order_id i
     (\<lambda>r. r\<lparr>order_status := ''filled'', fill_price := Some price, reason := None\<rparr>) (orders (wdb w))\<rparr>\<rparr>)"
  by (simp add: SetFilled_def run_simps q_set_filled_def)

lemma Enqueue_run:
  "faults w = [] \<Longrightarrow> rng w (drawn w) \<notin> job_id ` set (jobs (wdb w)) \<Longrightarrow>
   Enqueue typ pl prio runAt maxAtt w = (Inr (rng w (drawn w)),
     w\<lparr>drawn := Suc (drawn w), wdb := (wdb w)\<lparr>jobs := jobs (wdb w) @
        [\<lparr>job_id = rng w (drawn w), job_type = typ, job_payload = pl, priority = prio, run_at = runAt,
          job_status = ''queued'', attempts = 0, max_attempts = maxAtt, leased_until = None,
          last_error = None, job_created = clock w\<rparr>]\<rparr>\<rparr>)"
  by (simp add: Enqueue_def bindE_def run_simps q_insert_job_def)

lemma InvalidateSnapshot_run:
  "faults w = [] \<Longrightarrow> attempt (InvalidateSnapshot p) w =
     (Inr (Inr ()), w\<lparr>wredis := (wredis w)(snapKey p := None)\<rparr>)"
  by (simp add: InvalidateSnapshot_def attempt_def redis_del_def run_simps)

lemma book_trade_run:
  assumes "faults w = []" and "can_trade ord (wrap64 (order_quantity ord * price)) sq (wdb w)"
    and "rng w (Suc (drawn w)) \<notin> job_id ` set (jobs (wdb w))"
  shows "book_trade ord price (wrap64 (order_quantity ord * price)) sq w =
    (Inr (), w\<lparr>drawn := drawn w + 2, wredis := (wredis w)(snapKey (order_portfolio ord) := None),
       wdb := trade_db (clock w) (rng w (drawn w)) (rng w (Suc (drawn w))) ord price
                (wrap64 (order_quantity ord * price)) sq (wdb w)\<rparr>)"
proof -
  obtain p where p: "row_get pf_id (order_portfolio ord) (portfolios (wdb w)) = Some p" "seq_counter p = sq"
    and pos: "0 < wrap64 (order_quantity ord * price)" "0 < order_quantity ord" and rngs: "in_int64 (sq + 2)"
    using assms(2) by (auto simp: can_trade_def)
  have mem: "order_portfolio ord \<in> pf_id ` set (portfolios (wdb w))"
    using row_get_SomeD [OF p(1)] by force
  show ?thesis
    using assms(1,3) p pos rngs mem
    by (simp add: book_trade_def bindE_def run_simps Let_def legs_balanced Entry_Insert_run BumpSeq_run
        SetFilled_run Enqueue_run InvalidateSnapshot_run trade_db_def settle_job_def)
qed

lemma fill_tx_run_short:
  assumes "faults w = []" and "row_get pf_id (order_portfolio ord) (portfolios (wdb w)) = Some r"
    and "\<And>i. in_int64 (balance (wdb w) (order_portfolio ord) i)"
    and "short_of ord (wrap64 (order_quantity ord * price)) (wdb w)"
  shows "\<exists>why. runTx (fill_tx ord price) w =
    (Inr (), w\<lparr>wdb := set_status_db (order_id ord) ''rejected'' why (wdb w)\<rparr>)"
  using assms
  by (auto simp: run_simps fill_tx_def bindE_def LockForUpdate_run Holdings_run map_at_holdings_rows
      SetStatus_run Let_def short_of_def split: if_splits)

lemma fill_tx_run_booked:
  assumes f: "faults w = []" and bal: "\<And>i. in_int64 (balance (wdb w) (order_portfolio ord) i)"
    and can: "can_trade ord (wrap64 (order_quantity ord * price)) sq (wdb w)"
    and new: "rng w (Suc (drawn w)) \<notin> job_id ` set (jobs (wdb w))"
  shows "runTx (fill_tx ord price) w =
    (Inr (), w\<lparr>drawn := drawn w + 2, wredis := (wredis w)(snapKey (order_portfolio ord) := None),
       wdb := trade_db (clock w) (rng w (drawn w)) (rng w (Suc (drawn w))) ord price
                (wrap64 (order_quantity ord * price)) sq (wdb w)\<rparr>)"
proof -
  obtain p where p: "row_get pf_id (order_portfolio ord) (portfolios (wdb w)) = Some p" "seq_counter p = sq"
    using can by (auto simp: can_trade_def)
  have "\<not> short_of ord (wrap64 (order_quantity ord * price)) (wdb w)"
    using can by (auto simp: can_trade_def short_of_def split: if_splits)
  then have "fill_tx ord price w = book_trade ord price (wrap64 (order_quantity ord * price)) sq w"
    using f p bal
    by (auto simp: fill_tx_def bindE_def LockForUpdate_run Holdings_run map_at_holdings_rows Let_def
        short_of_def split: if_splits)
  with f can new show ?thesis by (simp add: run_simps book_trade_run)
qed

lemma MD_Quote_frame:
  assumes "MD_Quote m s w = (r, w')"
  shows "rng w' = rng w" and "drawn w' = drawn w" and "clock w' = clock w" and "wdb w' = wdb w"
    and "faults w = [] \<Longrightarrow> faults w' = []"
    and "snapKey p \<in> dom (wredis w') \<Longrightarrow> snapKey p \<in> dom (wredis w)"
  using assms
  by (auto simp: MD_Quote_def bindE_def attempt_def GetQuote_def redis_get_def SetQuote_def
      redis_set_def ext_def timeNow_def ret_def raise_def Let_def
      split: sum.splits prod.splits option.splits rval.splits list.splits if_splits)

lemma Order_Get_run:
  "faults w = [] \<Longrightarrow> row_get order_id i (orders (wdb w)) = Some ord \<Longrightarrow> Order_Get i w = (Inr ord, w)"
  by (simp add: Order_Get_def run_simps q_get_order_def)

lemma ExecuteOrder_run:
  assumes "faults w = []" and "row_get order_id i (orders (wdb w)) = Some ord"
    and "order_status ord = ''pending''" and "MD_Quote m (order_instrument ord) w = (Inr q, w1)"
  shows "ExecuteOrder m i w = execute_priced ord (quote_price q) w1"
  using assms by (simp add: ExecuteOrder_def bindE_def attempt_def Order_Get_run)

lemma row_get_set_status:
  "row_get order_id i (orders (set_status_db i st why d)) =
     map_option (\<lambda>r. r\<lparr>order_status := st, reason := Some why\<rparr>) (row_get order_id i (orders d))"
  by (simp add: set_status_db_def row_get_upd)

lemma row_get_trade_db:
  "row_get order_id (order_id ord) (orders (trade_db now tid jid ord price cost sq d)) =
     map_option (\<lambda>r. r\<lparr>order_status := ''filled'', fill_price := Some price, reason := None\<rparr>)
       (row_get order_id (order_id ord) (orders d))"
  by (simp add: trade_db_def Let_def row_get_upd)

lemma balance_set_status [simp]: "balance (set_status_db i st why d) p j = balance d p j"
  by (simp add: set_status_db_def)

lemma broker_TurnDown:
  "\<not> (marketable ord m \<and> affordable ord (exec_price ord m) acc) \<Longrightarrow> broker ord m acc = (TurnDown, acc)"
  by (auto simp: broker_def Let_def)

lemma broker_Fill:
  assumes "order_static d ord" and "marketable ord m" and "affordable ord (exec_price ord m) (balance d)"
  shows "fst (broker ord m (balance d)) = Fill (exec_price ord m)"
    and "snd (broker ord m (balance d)) = balance (trade_db now tid jid ord (exec_price ord m)
           (order_quantity ord * exec_price ord m) sq d)"
proof -
  have i: "order_instrument ord \<noteq> CASH" using assms(1) by (simp add: order_static_def)
  show "fst (broker ord m (balance d)) = Fill (exec_price ord m)"
    using assms by (simp add: broker_def Let_def)
  show "snd (broker ord m (balance d)) = balance (trade_db now tid jid ord (exec_price ord m)
           (order_quantity ord * exec_price ord m) sq d)"
    using assms(2,3) i
    by (intro ext) (auto simp: broker_def Let_def credit_def trade_db_balance [OF i])
qed

lemma can_trade_affordable:
  assumes "order_static d ord" and "0 < price" and "affordable ord price (balance d)"
    and "row_get pf_id (order_portfolio ord) (portfolios d) = Some p"
    and "in_int64 (seq_counter p + 2)"
  shows "can_trade ord (order_quantity ord * price) (seq_counter p) d"
  using assms by (auto simp: can_trade_def affordable_def order_static_def)

text \<open>
  C1. Executing a pending order implements the abstract broker. When no external call fails, a price
  is available, and the amount of the trade, the balances and the sequence counter fit 64 bits,
  \<open>ExecuteOrder\<close> returns without an error, the balances of every portfolio and instrument become
  exactly those of the broker (computed with unbounded integers), and the order ends filled at the
  broker's price or rejected, as the broker decides.
\<close>
theorem ExecuteOrder_refines_broker:
  assumes inv: "ledger_inv (wdb w)" and nf: "faults w = []"
    and row: "row_get order_id i (orders (wdb w)) = Some ord" and pend: "order_status ord = ''pending''"
    and quote: "MD_Quote m (order_instrument ord) w = (Inr q, w1)"
    and price: "0 < exec_price ord (quote_price q)"
    and fits: "in_int64 (order_quantity ord * exec_price ord (quote_price q))"
    and bal: "\<And>j. in_int64 (balance (wdb w) (order_portfolio ord) j)"
    and pf: "row_get pf_id (order_portfolio ord) (portfolios (wdb w)) = Some p"
    and seq: "in_int64 (seq_counter p + 2)"
    and fresh: "rng w (Suc (drawn w)) \<notin> job_id ` set (jobs (wdb w))"
  shows "\<exists>w' ord'. ExecuteOrder m i w = (Inr (), w') \<and>
    balance (wdb w') = snd (broker ord (quote_price q) (balance (wdb w))) \<and>
    row_get order_id i (orders (wdb w')) = Some ord' \<and>
    (case fst (broker ord (quote_price q) (balance (wdb w))) of
       Fill pr \<Rightarrow> order_status ord' = ''filled'' \<and> fill_price ord' = Some pr
     | TurnDown \<Rightarrow> order_status ord' = ''rejected'')"
proof -
  let ?m = "quote_price q" and ?d = "wdb w"
  let ?price = "exec_price ord ?m"
  have st: "order_static ?d ord" using orders_static [OF inv row] .
  have id: "order_id ord = i" using row_get_SomeD [OF row] by simp
  note fr = MD_Quote_frame [OF quote]
  have run: "ExecuteOrder m i w = execute_priced ord ?m w1" using nf row pend quote by (rule ExecuteOrder_run)
  have w: "wrap64 (order_quantity ord * ?price) = order_quantity ord * ?price" using fits by simp
  have down: ?thesis if "ExecuteOrder m i w = (Inr (), w1\<lparr>wdb := set_status_db i ''rejected'' why ?d\<rparr>)"
    and "\<not> (marketable ord ?m \<and> affordable ord ?price (balance ?d))" for why
    using that row broker_TurnDown [of ord ?m "balance ?d"]
    by (auto simp: row_get_set_status fun_eq_iff)
  show ?thesis
  proof (cases "marketable ord ?m")
    case False
    then have "ExecuteOrder m i w = (Inr (), w1\<lparr>wdb := set_status_db i ''rejected'' (unmarketable_msg ord) ?d\<rparr>)"
      using fr nf by (simp add: run execute_priced_eq [OF st] reject_def SetStatus_run id)
    with False show ?thesis by (intro down) simp_all
  next
    case True
    then have run1: "ExecuteOrder m i w = runTx (fill_tx ord ?price) w1"
      by (simp add: run execute_priced_eq [OF st])
    show ?thesis
    proof (cases "affordable ord ?price (balance ?d)")
      case False
      then have "short_of ord (wrap64 (order_quantity ord * ?price)) (wdb w1)"
        using fr w by (auto simp: affordable_def short_of_def split: if_splits)
      then obtain why where "runTx (fill_tx ord ?price) w1 = (Inr (), w1\<lparr>wdb := set_status_db i ''rejected'' why ?d\<rparr>)"
        using fill_tx_run_short [of w1 ord p ?price] fr nf pf bal id by auto
      with False run1 show ?thesis by (intro down) simp_all
    next
      case aff: True
      have can: "can_trade ord (order_quantity ord * ?price) (seq_counter p) ?d"
        using st price aff pf seq by (rule can_trade_affordable)
      have res: "runTx (fill_tx ord ?price) w1 =
        (Inr (), w1\<lparr>drawn := drawn w1 + 2, wredis := (wredis w1)(snapKey (order_portfolio ord) := None),
           wdb := trade_db (clock w1) (rng w1 (drawn w1)) (rng w1 (Suc (drawn w1))) ord ?price
                (order_quantity ord * ?price) (seq_counter p) (wdb w1)\<rparr>)"
        using fill_tx_run_booked [of w1 ord ?price "seq_counter p"] can fr nf bal fresh w by simp
      show ?thesis
        using res run1 fr row id broker_Fill [OF st True aff] row_get_trade_db [of ord]
        by simp
    qed
  qed
qed

section \<open>A concrete market\<close>

text \<open>
  Portfolio 4 was opened with ten thousand rupees; order 7 buys three shares of INFY, whose cached
  price is 1650 rupees. The states are built with the effects of the operations, so the invariant
  follows from their lemmas.
\<close>

definition sample_order :: order where
  "sample_order = \<lparr>order_id = 7, order_portfolio = 4, idempotency_key = ''k1'', side = ''buy'',
     order_instrument = ''INFY'', order_quantity = 3, order_type = ''market'', limit_price = None,
     order_status = ''pending'', fill_price = None, reason = None, order_created = 0\<rparr>"

definition sample_db :: db where
  "sample_db = outbox_db 0 50 sample_order (open_db 0 9 4 ''demo'' 1000000 empty_db)"

definition sample_provider :: provider where
  "sample_provider = \<lparr>prov_Quote = (\<lambda>s t. Inr 165000), prov_Universe = [], prov_PrevClose = (\<lambda>s. None)\<rparr>"

definition sample_md :: mdsvc where
  "sample_md = \<lparr>md_provider = sample_provider, md_quoteTTL = 10\<rparr>"

definition sample_quote :: quote where
  "sample_quote = \<lparr>quote_symbol = ''INFY'', quote_price = 165000, quote_as_of = 0\<rparr>"

definition sample_world :: "db \<Rightarrow> world" where
  "sample_world d = \<lparr>wdb = d, wredis = [quoteKey ''INFY'' \<mapsto> (RQuote sample_quote, None)], clock = 0,
     rng = (\<lambda>n. 100 + n), drawn = 0, faults = []\<rparr>"

lemma sample_world_simps [simp]:
  "wdb (sample_world d) = d" "clock (sample_world d) = 0" "faults (sample_world d) = []"
  "drawn (sample_world d) = 0" "rng (sample_world d) n = 100 + n"
  by (simp_all add: sample_world_def)

lemma sample_order_simps [simp]:
  "order_id sample_order = 7" "order_portfolio sample_order = 4" "side sample_order = ''buy''"
  "order_instrument sample_order = ''INFY''" "order_quantity sample_order = 3"
  "order_type sample_order = ''market''" "order_status sample_order = ''pending''"
  "idempotency_key sample_order = ''k1''" "exec_price sample_order price = price"
  "quote_price sample_quote = 165000"
  by (simp_all add: sample_order_def sample_quote_def exec_price_def)

lemma sample_inv: "ledger_inv sample_db"
  unfolding sample_db_def
proof (rule outbox_inv)
  show "ledger_inv (open_db 0 9 4 ''demo'' 1000000 empty_db)"
    by (rule open_db_inv [OF ledger_inv_empty]) (simp add: empty_db_def)
qed (simp_all add: insertable_def sample_order_def order_static_def open_db_def empty_db_def post_entry_def
      CASH_def)

lemma sample_row:
  "row_get order_id 7 (orders sample_db) = Some sample_order"
  "row_get pf_id 4 (portfolios sample_db) = Some \<lparr>pf_id = 4, pf_name = ''demo'', pf_created = 0, seq_counter = 1\<rparr>"
  "job_id ` set (jobs sample_db) = {50}"
  by (simp_all add: sample_db_def outbox_db_def open_db_def empty_db_def post_entry_def sample_order_def
      execute_job_def)

lemma sample_balance: "balance sample_db p j = (if p = 4 \<and> j = CASH then 1000000 else 0)"
  by (simp add: sample_db_def outbox_db_def open_db_balance empty_db_def)
    (simp add: balance_def portfolio_entries_def)

lemma sample_MD_Quote: "MD_Quote m ''INFY'' (sample_world d) = (Inr sample_quote, sample_world d)"
  by (rule MD_Quote_hit) (simp_all add: sample_world_def rlive_def)

theorem ExecuteOrder_refines_broker_witness:
  "\<exists>w' ord'. ExecuteOrder sample_md 7 (sample_world sample_db) = (Inr (), w') \<and>
     balance (wdb w') 4 CASH = 505000 \<and> balance (wdb w') 4 ''INFY'' = 3 \<and>
     row_get order_id 7 (orders (wdb w')) = Some ord' \<and> fill_price ord' = Some 165000"
proof -
  have b: "broker sample_order 165000 (balance sample_db) =
     (Fill 165000, credit 4 CASH (-495000) (credit 4 ''INFY'' 3 (balance sample_db)))"
    by (simp add: broker_def marketable_def affordable_def exec_price_def sample_order_def sample_balance)
  let ?pf = "\<lparr>pf_id = 4, pf_name = ''demo'', pf_created = 0, seq_counter = 1\<rparr>"
  have "\<exists>w' ord'. ExecuteOrder sample_md 7 (sample_world sample_db) = (Inr (), w') \<and>
    balance (wdb w') = snd (broker sample_order 165000 (balance sample_db)) \<and>
    row_get order_id 7 (orders (wdb w')) = Some ord' \<and>
    (case fst (broker sample_order 165000 (balance sample_db)) of
       Fill pr \<Rightarrow> order_status ord' = ''filled'' \<and> fill_price ord' = Some pr
     | TurnDown \<Rightarrow> order_status ord' = ''rejected'')"
    using ExecuteOrder_refines_broker [of "sample_world sample_db" 7 sample_order sample_md sample_quote
        "sample_world sample_db" ?pf]
    by (simp add: sample_inv sample_row sample_MD_Quote sample_balance in_int64_def)
  then show ?thesis by (auto simp: b credit_def sample_balance CASH_def)
qed

section \<open>Failures and repetition\<close>

lemma ExecuteOrder_outcome_aux:
  assumes "ledger_inv (wdb w)" and "ExecuteOrder m i w = (Inr x, w')"
  shows "\<exists>ord. row_get order_id i (orders (wdb w)) = Some ord \<and>
    (if order_status ord = ''pending'' then exec_result ord (clock w) (wdb w) (wdb w')
     else wdb w' = wdb w)"
  using assms(2,1) by (rule ExecuteOrder_Inr_cases) auto

text \<open>
  C3. Whatever external call fails, executing an order is all or nothing. If \<open>ExecuteOrder\<close> returns an
  error, every table is as before. If it returns normally, the order exists and either it was not
  pending and nothing changed, or the only change is its rejection, or exactly one trade was booked:
  two legs, the sequence counter advanced by two, the order filled, one settlement job, at the limit
  price of a marketable limit order and only if cash or shares sufficed.
\<close>
theorem ExecuteOrder_outcome:
  assumes "ledger_inv (wdb w)"
  shows "case ExecuteOrder m i w of
     (Inl e, w') \<Rightarrow> same_tables (wdb w) (wdb w')
   | (Inr _, w') \<Rightarrow> \<exists>ord. row_get order_id i (orders (wdb w)) = Some ord \<and>
        (if order_status ord = ''pending'' then exec_result ord (clock w) (wdb w) (wdb w')
         else wdb w' = wdb w)"
proof (cases "ExecuteOrder m i w")
  case (Pair r w')
  then show ?thesis
    using ExecuteOrder_Inl_same [of m i w _ w'] ExecuteOrder_outcome_aux [OF assms, of m i _ w']
    by (cases r) simp_all
qed

definition commit_fails :: world where
  "commit_fails = (sample_world sample_db)\<lparr>faults := replicate 11 False @ [True]\<rparr>"

lemma commit_fails_wdb [simp]: "wdb commit_fails = sample_db"
  by (simp add: commit_fails_def)

lemma commit_fails_run: "fst (ExecuteOrder sample_md 7 commit_fails) = Inl ErrIO"
  by code_simp

theorem ExecuteOrder_outcome_witness:
  "same_tables sample_db (wdb (snd (ExecuteOrder sample_md 7 commit_fails)))"
  using ExecuteOrder_outcome [where w = commit_fails and m = sample_md and i = 7] commit_fails_run sample_inv
  by (auto split: prod.splits)

text \<open>After a successful execution the order is no longer pending.\<close>

lemma exec_result_not_pending:
  assumes "exec_result ord now d d'" and "row_get order_id (order_id ord) (orders d) = Some ord"
  shows "\<exists>ord'. row_get order_id (order_id ord) (orders d') = Some ord' \<and> order_status ord' \<noteq> ''pending''"
  using assms(1) unfolding exec_result_def
  by (elim disjE exE conjE) (simp_all add: row_get_set_status row_get_trade_db assms(2))

lemma ExecuteOrder_not_pending:
  assumes "faults w = []" and "row_get order_id i (orders (wdb w)) = Some ord"
    and "order_status ord \<noteq> ''pending''"
  shows "ExecuteOrder m i w = (Inr (), w)"
  using assms by (simp add: ExecuteOrder_def bindE_def Order_Get_run run_simps)

text \<open>
  C18. Executing an order is idempotent when executions follow one another: once \<open>ExecuteOrder\<close> has
  returned normally, a later execution on the resulting tables (at any time, with any quote source)
  returns normally and changes nothing at all.
\<close>
theorem ExecuteOrder_idempotent:
  assumes "ledger_inv (wdb w)" and "ExecuteOrder m i w = (Inr (), w')"
    and "wdb v = wdb w'" and "faults v = []"
  shows "ExecuteOrder m' i v = (Inr (), v)"
proof -
  obtain ord where row: "row_get order_id i (orders (wdb w)) = Some ord"
    and res: "if order_status ord = ''pending'' then exec_result ord (clock w) (wdb w) (wdb w') else wdb w' = wdb w"
    using ExecuteOrder_outcome_aux [OF assms(1,2)] by blast
  have "\<exists>ord'. row_get order_id i (orders (wdb w')) = Some ord' \<and> order_status ord' \<noteq> ''pending''"
    using res row exec_result_not_pending [of ord "clock w" "wdb w" "wdb w'"] row_get_SomeD [OF row]
    by (cases "order_status ord = ''pending''") simp_all
  then show ?thesis using ExecuteOrder_not_pending [of v i] assms(3,4) by auto
qed

lemma sample_run: "fst (ExecuteOrder sample_md 7 (sample_world sample_db)) = Inr ()"
  by code_simp

theorem ExecuteOrder_idempotent_witness:
  "let w' = (snd (ExecuteOrder sample_md 7 (sample_world sample_db)))\<lparr>faults := []\<rparr>
   in ExecuteOrder sample_md 7 w' = (Inr (), w')"
  using ExecuteOrder_idempotent [where w = "sample_world sample_db" and m = sample_md and i = 7 and m' = sample_md
      and w' = "snd (ExecuteOrder sample_md 7 (sample_world sample_db))"
      and v = "(snd (ExecuteOrder sample_md 7 (sample_world sample_db)))\<lparr>faults := []\<rparr>"]
    sample_run sample_inv
  by (simp add: prod_eq_iff Let_def)

section \<open>Placing orders\<close>

lemma find_existing_wdb: "find_existing k w = (r, w') \<Longrightarrow> wdb w' = wdb w \<and> clock w' = clock w"
  by (auto simp: find_existing_def bindE_def attempt_def GetByIdempotencyKey_def sql_def ext_def
      q_get_by_key_def ret_def raise_def
      split: if_splits sum.splits prod.splits list.splits option.splits)

lemma find_existing_Some:
  assumes "find_existing k w = (Inr (Some ord), w')"
  shows "k \<noteq> []" and "ord \<in> set (orders (wdb w))" and "idempotency_key ord = k"
  using assms
  by (auto simp: find_existing_def bindE_def attempt_def GetByIdempotencyKey_def sql_def ext_def
      q_get_by_key_def ret_def raise_def find_Some_iff in_set_conv_nth
      split: if_splits sum.splits prod.splits list.splits option.splits)

lemma Portfolio_Exists_wdb: "Portfolio_Exists p w = (r, w') \<Longrightarrow> wdb w' = wdb w \<and> clock w' = clock w"
  by (auto simp: Portfolio_Exists_def sql_def ext_def split: list.splits if_splits)

lemma place_new_Inl:
  assumes "place_new req typ w = (Inl e, w')"
  shows "same_tables (wdb w) (wdb w')"
proof (cases "Portfolio_Exists (req_portfolio req) w")
  case (Pair r w1)
  with Portfolio_Exists_wdb have "wdb w1 = wdb w" by blast
  with assms Pair show ?thesis
    by (cases r) (auto simp: place_new_def bindE_def run_simps split: if_splits prod.splits sum.splits
        dest!: runTx_Inl_same)
qed

lemma place_new_Inr:
  assumes "place_new req typ w = (Inr ord, w')"
  shows "\<exists>i jid. ord = req_order req typ i \<and> insertable ord (wdb w) \<and> jid \<notin> job_id ` set (jobs (wdb w)) \<and>
    wdb w' = outbox_db (clock w) jid ord (wdb w)"
proof -
  obtain b w1 i w2 u where ex: "Portfolio_Exists (req_portfolio req) w = (Inr b, w1)"
    and n: "uuid_New w1 = (Inr i, w2)" and tx: "runTx (outbox_tx (req_order req typ i)) w2 = (Inr u, w')"
    and ord: "ord = req_order req typ i"
    using assms unfolding place_new_def by (auto elim!: bindE_InrE simp: run_simps split: if_splits)
  have w2: "wdb w2 = wdb w" "clock w2 = clock w"
    using Portfolio_Exists_wdb [OF ex] n by (auto simp: run_simps)
  from tx obtain bs v cs where "outbox_tx (req_order req typ i) (w2\<lparr>faults := bs\<rparr>) = (Inr u, v)" "w' = v\<lparr>faults := cs\<rparr>"
    by (rule runTx_InrE)
  from this(1) obtain jid where "insertable (req_order req typ i) (wdb (w2\<lparr>faults := bs\<rparr>))"
    and "jid \<notin> job_id ` set (jobs (wdb (w2\<lparr>faults := bs\<rparr>)))"
    and "wdb v = outbox_db (clock (w2\<lparr>faults := bs\<rparr>)) jid (req_order req typ i) (wdb (w2\<lparr>faults := bs\<rparr>))"
    by (rule outbox_tx_InrE)
  with w2 \<open>w' = v\<lparr>faults := cs\<rparr>\<close> ord show ?thesis by auto
qed

text \<open>
  C4. The transactional outbox: whatever call fails, \<open>PlaceOrder\<close> either leaves every table as it was
  (an error, or a repeated submission that returns the stored order with the same key), or inserts
  the order, pending, together with its one execution job. An order never appears without its job,
  nor a job without its order.
\<close>
theorem PlaceOrder_outbox:
  "case PlaceOrder req w of
     (Inl e, w') \<Rightarrow> same_tables (wdb w) (wdb w')
   | (Inr ord, w') \<Rightarrow>
       req_idempotency_key req \<noteq> [] \<and> idempotency_key ord = req_idempotency_key req \<and>
         ord \<in> set (orders (wdb w)) \<and> wdb w' = wdb w \<or>
       (\<exists>i jid. ord = req_order req (eff_type req) i \<and> insertable ord (wdb w) \<and>
          jid \<notin> job_id ` set (jobs (wdb w)) \<and> wdb w' = outbox_db (clock w) jid ord (wdb w))"
proof (cases "valid_req req")
  case False
  then obtain msg where "PlaceOrder req w = (Inl (ValidationError msg), w)" using PlaceOrder_invalid by blast
  then show ?thesis by simp
next
  case True
  obtain r w1 where f: "find_existing (req_idempotency_key req) w = (r, w1)" by fastforce
  note w1 = find_existing_wdb [OF f]
  consider e where "r = Inl e" | ord where "r = Inr (Some ord)" | "r = Inr None"
    by (metis option.exhaust sum.exhaust)
  then show ?thesis
  proof cases
    case 1
    with f w1 show ?thesis by (simp add: PlaceOrder_valid [OF True] bindE_def)
  next
    case 2
    with f w1 find_existing_Some [of "req_idempotency_key req" w ord w1] show ?thesis
      by (simp add: PlaceOrder_valid [OF True] bindE_def run_simps)
  next
    case 3
    obtain q w' where pn: "place_new req (eff_type req) w1 = (q, w')" by fastforce
    have eq: "PlaceOrder req w = (q, w')"
      using f 3 pn by (simp add: PlaceOrder_valid [OF True] bindE_def)
    show ?thesis
      using eq w1 place_new_Inl [of req "eff_type req" w1 _ w'] place_new_Inr [of req "eff_type req" w1 _ w'] pn
      by (cases q) auto
  qed
qed

lemma find_existing_run:
  assumes "faults w = []" and "k \<noteq> []" and "ord \<in> set (orders (wdb w))" and "idempotency_key ord = k"
    and "orders_ok (wdb w)"
  shows "find_existing k w = (Inr (Some ord), w)"
proof -
  have uniq: "r = ord" if "r \<in> set (orders (wdb w))" "idempotency_key r = k" for r
  proof -
    have "distinct (map idempotency_key (filter (\<lambda>r. idempotency_key r \<noteq> []) (orders (wdb w))))"
      using assms(5) by (simp add: orders_ok_def filter_map comp_def)
    then have "inj_on idempotency_key (set (filter (\<lambda>r. idempotency_key r \<noteq> []) (orders (wdb w))))"
      by (simp add: distinct_map)
    then show ?thesis using that assms(2-4) by (auto simp: inj_on_def)
  qed
  have "find (\<lambda>r. idempotency_key r \<noteq> [] \<and> idempotency_key r = k) (orders (wdb w)) = Some ord"
  proof (cases "find (\<lambda>r. idempotency_key r \<noteq> [] \<and> idempotency_key r = k) (orders (wdb w))")
    case None
    then show ?thesis using assms(2-4) by (auto simp: find_None_iff)
  next
    case (Some r)
    then have "r \<in> set (orders (wdb w))" "idempotency_key r = k" by (auto simp: find_Some_iff)
    with Some uniq show ?thesis by simp
  qed
  with assms(1,2) show ?thesis
    by (simp add: find_existing_def bindE_def attempt_def GetByIdempotencyKey_def run_simps q_get_by_key_def)
qed

text \<open>
  C19. A repeated submission returns the original order: if some stored order carries the (non-empty)
  idempotency key of a valid request, \<open>PlaceOrder\<close> returns that order as it now is, and changes
  nothing, whatever the rest of the request says.
\<close>
theorem PlaceOrder_idempotent:
  assumes "ledger_inv (wdb w)" and "faults w = []" and "valid_req req"
    and "req_idempotency_key req \<noteq> []" and "ord \<in> set (orders (wdb w))"
    and "idempotency_key ord = req_idempotency_key req"
  shows "PlaceOrder req w = (Inr ord, w)"
  using find_existing_run [OF assms(2,4,5,6)] assms(1)
  by (simp add: PlaceOrder_valid [OF assms(3)] bindE_def run_simps ledger_inv_def)

definition sample_req :: place_req where
  "sample_req = \<lparr>req_portfolio = 4, req_side = ''sell'', req_instrument = ''TCS'', req_quantity = 1,
     req_type = [], req_limit_price = None, req_idempotency_key = ''k1''\<rparr>"

lemma sample_req_valid: "valid_req sample_req"
  by (simp add: valid_req_def sample_req_def eff_type_def CASH_def)

theorem PlaceOrder_idempotent_witness:
  "PlaceOrder sample_req (sample_world sample_db) = (Inr sample_order, sample_world sample_db)"
  using PlaceOrder_idempotent [of "sample_world sample_db" sample_req sample_order]
    sample_inv sample_req_valid row_get_SomeD [OF sample_row(1)]
  by (simp add: sample_req_def)

text \<open>
  C29. Validation is exact. A request with a side other than buy or sell, a type other than market or
  limit, a limit order without a positive limit price, a quantity that is not positive, or an empty
  or CASH instrument is refused with a validation error before any effect. Every other request for
  an existing portfolio, with a fresh or empty key, is accepted when no call fails and the drawn
  identifiers are new: the pending order is returned, with the default type market.
\<close>
theorem PlaceOrder_validation:
  assumes "faults w = []" and "req_portfolio req \<in> pf_id ` set (portfolios (wdb w))"
    and "req_idempotency_key req = [] \<or> req_idempotency_key req \<notin> idempotency_key ` set (orders (wdb w))"
    and "rng w (drawn w) \<notin> order_id ` set (orders (wdb w))"
    and "rng w (Suc (drawn w)) \<notin> job_id ` set (jobs (wdb w))"
  shows "if valid_req req
    then fst (PlaceOrder req w) = Inr (req_order req (eff_type req) (rng w (drawn w)))
    else \<exists>msg. PlaceOrder req w = (Inl (ValidationError msg), w)"
proof (cases "valid_req req")
  case False
  then show ?thesis using PlaceOrder_invalid by simp
next
  case True
  have "find (\<lambda>r. idempotency_key r \<noteq> [] \<and> idempotency_key r = req_idempotency_key req) (orders (wdb w)) = None"
    using assms(3) by (auto simp: find_None_iff image_iff)
  then have new: "find_existing (req_idempotency_key req) w = (Inr None, w)"
    using assms(1)
    by (simp add: find_existing_def bindE_def attempt_def GetByIdempotencyKey_def run_simps q_get_by_key_def)
  have pos: "0 < req_quantity req" using True by (simp add: valid_req_def)
  let ?ord = "req_order req (eff_type req) (rng w (drawn w))"
  have q: "order_quantity ?ord = req_quantity req" by (simp add: req_order_def)
  have "fst (place_new req (eff_type req) w) = Inr ?ord"
    using assms pos
    by (simp add: place_new_def bindE_def Portfolio_Exists_def run_simps outbox_tx_def Order_Create_def
        q_insert_order_def Enqueue_run q)
  with True new show ?thesis by (simp add: PlaceOrder_valid bindE_def)
qed

theorem PlaceOrder_validation_witness:
  "fst (PlaceOrder (sample_req\<lparr>req_idempotency_key := []\<rparr>) (sample_world sample_db)) =
     Inr (req_order (sample_req\<lparr>req_idempotency_key := []\<rparr>) ''market'' 100)"
  using PlaceOrder_validation [of "sample_world sample_db" "sample_req\<lparr>req_idempotency_key := []\<rparr>"]
    sample_req_valid row_get_SomeD [OF sample_row(1)] row_get_SomeD [OF sample_row(2)] sample_row(3)
  by (simp add: sample_req_def valid_req_def eff_type_def sample_db_def outbox_db_def open_db_def empty_db_def post_entry_def)

section \<open>Double entry and overflow\<close>

text \<open>The exact value of a leg, without wrap-around.\<close>

definition exact_value :: "entry \<Rightarrow> int" where
  "exact_value e = direction e * entry_quantity e * (case entry_price e of None \<Rightarrow> 1 | Some p \<Rightarrow> p)"

text \<open>
  The double-entry check of \<open>ExecuteOrder\<close>. For the two legs it builds, with the cost the code
  computes, the check always passes: the signed values cancel modulo \<open>2^64\<close> whatever the quantity and
  the price. The exact values cancel precisely when the amount fits 64 bits, so the check cannot
  tell a balanced trade from one whose cost overflowed.
\<close>
theorem double_entry_check:
  "let sl = stock_leg ord tid sq price;
       cl = cash_leg ord tid sq (wrap64 (order_quantity ord * price))
   in wrap64 (SignedValue sl + SignedValue cl) = 0 \<and>
      (exact_value sl + exact_value cl = 0 \<longleftrightarrow> in_int64 (order_quantity ord * price))"
proof -
  have "exact_value (stock_leg ord tid sq price) +
      exact_value (cash_leg ord tid sq (wrap64 (order_quantity ord * price))) = 0 \<longleftrightarrow>
    wrap64 (order_quantity ord * price) = order_quantity ord * price"
    by (auto simp: exact_value_def)
  then show ?thesis by (simp add: Let_def legs_balanced wrap64_eq_iff)
qed

text \<open>A limit order whose amount is \<open>2^64 + 1\<close> paise.\<close>

definition huge_order :: order where
  "huge_order = sample_order\<lparr>order_quantity := 67280421310721, order_type := ''limit'',
                             limit_price := Some 274177\<rparr>"

definition huge_db :: db where
  "huge_db = outbox_db 0 50 huge_order (open_db 0 9 4 ''demo'' 1000000 empty_db)"

lemma huge_inv: "ledger_inv huge_db"
  unfolding huge_db_def
proof (rule outbox_inv)
  show "ledger_inv (open_db 0 9 4 ''demo'' 1000000 empty_db)"
    by (rule open_db_inv [OF ledger_inv_empty]) (simp add: empty_db_def)
qed (simp_all add: insertable_def huge_order_def order_static_def open_db_def empty_db_def post_entry_def
      CASH_def)

text \<open>
  The cost of a trade can overflow. With ten thousand rupees of cash, the limit order to buy
  67280421310721 shares of INFY at 2741.77 rupees, worth \<open>2^64 + 1\<close> paise, is filled by \<open>ExecuteOrder\<close>
  for a single paisa.
\<close>
theorem overflow_fill:
  "67280421310721 * 274177 = (2 :: int) ^ 64 + 1 \<and>
   (let (r, w') = ExecuteOrder sample_md 7 (sample_world huge_db)
    in r = Inr () \<and> balance (wdb w') 4 ''INFY'' = 67280421310721 \<and> balance (wdb w') 4 CASH = 999999)"
  by code_simp

end
