(* ===== verification/Job_Queue.thy ===== *)
theory Job_Queue
  imports Worker Trading_Properties
begin

text \<open>
  Correctness of the durable queue under the worker.

  The locale \<open>queue_pred\<close> states when a predicate on the tables survives everything the job handlers
  and the API do outside the queue's own bookkeeping: it looks at the tables \<open>jobs\<close> and
  \<open>dead_letters\<close> only, and a freshly enqueued job keeps it. It is interpreted on the queue
  invariant \<open>queue_ok\<close> and on \<open>claimed_ok\<close>, its strengthening while a job is being processed.
\<close>

section \<open>Predicates on the queue\<close>

definition fresh_job :: "job \<Rightarrow> bool" where
  "fresh_job k \<longleftrightarrow> job_status k = ''queued'' \<and> attempts k = 0 \<and> 0 < max_attempts k \<and> leased_until k = None"

locale queue_pred =
  fixes P :: "db \<Rightarrow> bool"
  assumes frame: "P d \<Longrightarrow> jobs d' = jobs d \<Longrightarrow> dead_letters d' = dead_letters d \<Longrightarrow> P d'"
    and append: "P d \<Longrightarrow> fresh_job k \<Longrightarrow> job_id k \<notin> job_id ` set (jobs d) \<Longrightarrow>
      P (d\<lparr>jobs := jobs d @ [k]\<rparr>)"
begin

lemma append_frame:
  assumes "P d" and "fresh_job k" and "job_id k \<notin> job_id ` set (jobs d)"
    and "jobs d' = jobs d @ [k]" and "dead_letters d' = dead_letters d"
  shows "P d'"
  using append [OF assms(1-3)] assms(4,5) by (auto intro: frame)

lemma keeps_SetStatus_q: "keeps (on_tables P) (SetStatus i st why)"
  by (rule keeps_SetStatus) (auto elim: frame)

lemma keeps_Enqueue_q:
  "0 < maxAtt \<Longrightarrow> keeps (on_tables P) (Enqueue typ pl prio runAt maxAtt)"
  unfolding Enqueue_def
  by (intro keeps_intros)
    (auto simp: q_insert_job_def fresh_job_def split: if_splits elim!: append_frame)

lemma keeps_fill_q: "keeps (on_tables P) (runTx (fill_tx ord price))"
proof (rule keeps_runTx)
  fix w x w' assume P: "P (wdb w)" and "fill_tx ord price w = (Inr x, w')"
  from this(2) show "P (wdb w')"
  proof (cases rule: fill_tx_cases)
    case (Rejected why)
    then show ?thesis by (intro frame [OF P]) (simp_all add: set_status_db_def)
  next
    case (Booked tid jid sq)
    then show ?thesis
      by (intro append_frame [OF P, of "settle_job jid (order_id ord) (clock w)"])
        (simp_all add: trade_db_def Let_def settle_job_def fresh_job_def)
  qed
qed (auto elim: frame)

lemma keeps_ExecuteOrder_q: "keeps (on_tables P) (ExecuteOrder m i)"
  unfolding ExecuteOrder_def execute_priced_def reject_def
  by (auto intro!: keeps_intros keeps_fill_q keeps_SetStatus_q split: sum.splits option.splits)

lemma keeps_outbox_q: "keeps (on_tables P) (runTx (outbox_tx ord))"
proof (rule keeps_runTx)
  fix w x w' assume P: "P (wdb w)" and "outbox_tx ord w = (Inr x, w')"
  then obtain jid where "jid \<notin> job_id ` set (jobs (wdb w))" and "wdb w' = outbox_db (clock w) jid ord (wdb w)"
    by (auto elim: outbox_tx_InrE)
  then show "P (wdb w')"
    by (intro append_frame [OF P, of "execute_job jid (order_id ord) (clock w)"])
      (simp_all add: outbox_db_def execute_job_def fresh_job_def)
qed (auto elim: frame)

lemma keeps_PlaceOrder_q: "keeps (on_tables P) (PlaceOrder req)"
  unfolding PlaceOrder_def place_new_def Let_def
  by (auto intro!: keeps_intros keeps_outbox_q split: option.splits)

lemma keeps_alerts_q:
  "keeps (on_tables P) DistinctSymbols" "keeps (on_tables P) Alert_Symbols"
  "keeps (on_tables P) ListActive" "keeps (on_tables P) (MarkTriggered a)"
  "keeps (on_tables P) (HasActive typ)"
  unfolding DistinctSymbols_def Alert_Symbols_def ListActive_def MarkTriggered_def HasActive_def
  by (auto intro!: keeps_sql simp: q_mark_triggered_def elim: frame)

lemma keeps_refresh_loop_q: "keeps (on_tables P) (refresh_loop m ss prices)"
  by (induction ss arbitrary: prices) (auto intro!: keeps_intros split: sum.splits)

lemma keeps_fire_loop_q: "keeps (on_tables P) (fire_loop prices as)"
  by (induction as)
    (auto intro!: keeps_intros keeps_alerts_q keeps_Enqueue_q split: option.splits sum.splits)

lemma keeps_dispatch_q: "keeps (on_tables P) (dispatch env j)"
  unfolding dispatch_def handleExecuteOrder_def handleSettle_def handlePollQuotes_def handleAlertWebhook_def
  by (auto intro!: keeps_intros keeps_ExecuteOrder_q keeps_SetStatus_q keeps_alerts_q keeps_refresh_loop_q
      keeps_fire_loop_q keeps_Enqueue_q split: payload.splits sum.splits)

lemma keeps_seedPoller_q: "keeps (on_tables P) seedPoller"
  unfolding seedPoller_def
  by (auto intro!: keeps_intros keeps_alerts_q keeps_Enqueue_q split: sum.splits)

end

section \<open>The queue invariant\<close>

definition job_key :: "job \<Rightarrow> uuid \<times> string \<times> payload" where
  "job_key j = (job_id j, job_type j, job_payload j)"

definition dead_key :: "dead_letter \<Rightarrow> uuid \<times> string \<times> payload" where
  "dead_key l = (dl_id l, dl_type l, dl_payload l)"

text \<open>Every job the database knows of: in the queue or among the dead letters.\<close>

definition known :: "db \<Rightarrow> (uuid \<times> string \<times> payload) set" where
  "known d = job_key ` set (jobs d) \<union> dead_key ` set (dead_letters d)"

definition job_ok :: "job \<Rightarrow> bool" where
  "job_ok j \<longleftrightarrow> job_status j \<in> {''queued'', ''inflight'', ''done''} \<and> 0 \<le> attempts j \<and>
     attempts j \<le> max_attempts j \<and> (job_status j = ''queued'' \<longrightarrow> attempts j < max_attempts j) \<and>
     (leased_until j \<noteq> None \<longleftrightarrow> job_status j = ''inflight'')"

definition queue_ok :: "(uuid \<times> string \<times> payload) set \<Rightarrow> db \<Rightarrow> bool" where
  "queue_ok K d \<longleftrightarrow> distinct (map job_id (jobs d)) \<and> distinct (map dl_id (dead_letters d)) \<and>
     (\<forall>j \<in> set (jobs d). job_ok j) \<and> K \<subseteq> known d"

text \<open>While a job is processed, its row is the one that was claimed.\<close>

definition tracks :: "job \<Rightarrow> db \<Rightarrow> bool" where
  "tracks j d \<longleftrightarrow> job_id j \<in> job_id ` set (jobs d) \<and>
     (\<forall>k \<in> set (jobs d). job_id k = job_id j \<longrightarrow>
        job_key k = job_key j \<and> attempts k = attempts j \<and> max_attempts k = max_attempts j)"

definition claimed_ok :: "(uuid \<times> string \<times> payload) set \<Rightarrow> job \<Rightarrow> db \<Rightarrow> bool" where
  "claimed_ok K j d \<longleftrightarrow> queue_ok K d \<and> tracks j d"

lemma queue_ok_append:
  "queue_ok K d \<Longrightarrow> fresh_job k \<Longrightarrow> job_id k \<notin> job_id ` set (jobs d) \<Longrightarrow> queue_ok K (d\<lparr>jobs := jobs d @ [k]\<rparr>)"
  by (auto simp: queue_ok_def known_def fresh_job_def job_ok_def)

interpretation qinv: queue_pred "queue_ok K" for K
  by unfold_locales (simp_all add: queue_ok_append, simp add: queue_ok_def known_def)

interpretation claimed: queue_pred "claimed_ok K j" for K j
  by unfold_locales (auto simp: claimed_ok_def queue_ok_append tracks_def queue_ok_def known_def fresh_job_def
      job_ok_def)

section \<open>Bookkeeping keeps the invariant\<close>

lemma queue_ok_row_upd:
  assumes "queue_ok K d" and "\<And>j. job_key (f j) = job_key j"
    and "\<And>j. j \<in> set (jobs d) \<Longrightarrow> job_id j = i \<Longrightarrow> job_ok (f j)"
  shows "queue_ok K (d\<lparr>jobs := row_upd job_id i f (jobs d)\<rparr>)"
proof -
  have id: "job_id (f j) = job_id j" for j using assms(2) [of j] by (simp add: job_key_def)
  have "map job_key (row_upd job_id i f (jobs d)) = map job_key (jobs d)"
    by (simp add: row_upd_def assms(2))
  then have keys: "job_key ` set (row_upd job_id i f (jobs d)) = job_key ` set (jobs d)"
    by (metis set_map)
  show ?thesis
    using assms(1,3) unfolding queue_ok_def known_def
    by (auto simp: row_upd_keys id keys dest!: row_upd_mem)
qed

lemma keeps_Complete_q: "keeps (on_tables (queue_ok K)) (Complete i)"
  unfolding Complete_def q_complete_def
proof (rule keeps_sql)
  fix now d x d'
  let ?f = "\<lambda>j. j\<lparr>job_status := ''done'', leased_until := None\<rparr>"
  assume ok: "queue_ok K d" and "Inr ((), d\<lparr>jobs := row_upd job_id i ?f (jobs d)\<rparr>) = Inr (x, d')"
  then show "queue_ok K d'"
    using queue_ok_row_upd [OF ok, of ?f i] by (auto simp: job_key_def job_ok_def queue_ok_def)
qed

lemma finish_Retry:
  assumes "claimed_ok K j (wdb w)" and "attempts j < max_attempts j"
    and "Retry (job_id j) t msg w = (r, w')"
  shows "queue_ok K (wdb w')"
proof -
  let ?f = "\<lambda>j. j\<lparr>job_status := ''queued'', run_at := t, leased_until := None, last_error := Some msg\<rparr>"
  have "queue_ok K ((wdb w)\<lparr>jobs := row_upd job_id (job_id j) ?f (jobs (wdb w))\<rparr>)"
    using assms(1,2)
    by (intro queue_ok_row_upd) (auto simp: claimed_ok_def tracks_def job_key_def job_ok_def queue_ok_def)
  with assms show ?thesis
    by (auto simp: Retry_def q_retry_def sql_def ext_def claimed_ok_def split: list.splits if_splits)
qed

lemma finish_MoveToDead:
  assumes ok: "claimed_ok K j (wdb w)" and run: "MoveToDead j msg w = (r, w')"
  shows "queue_ok K (wdb w')"
proof -
  define d1 where "d1 = (wdb w)\<lparr>dead_letters := dead_letters (wdb w) @ [bury (clock w) msg j]\<rparr>"
  have j: "dead_key (bury (clock w) msg j) = job_key j" by (simp add: dead_key_def bury_def job_key_def)
  have d1: "job_id j \<notin> dl_id ` set (dead_letters (wdb w)) \<Longrightarrow> queue_ok K d1"
    using ok by (auto simp: d1_def claimed_ok_def queue_ok_def known_def)
  have d2: "job_id j \<notin> dl_id ` set (dead_letters (wdb w)) \<Longrightarrow>
      queue_ok K (d1\<lparr>jobs := row_del job_id (job_id j) (jobs d1)\<rparr>)"
  proof -
    assume new: "job_id j \<notin> dl_id ` set (dead_letters (wdb w))"
    have "job_key k \<in> known (d1\<lparr>jobs := row_del job_id (job_id j) (jobs d1)\<rparr>)" if "k \<in> set (jobs (wdb w))" for k
      using that ok j by (cases "job_id k = job_id j")
        (auto simp: d1_def known_def row_del_def claimed_ok_def tracks_def)
    then have "job_key ` set (jobs d1) \<subseteq> known (d1\<lparr>jobs := row_del job_id (job_id j) (jobs d1)\<rparr>)"
      unfolding d1_def by auto
    then have "known d1 \<subseteq> known (d1\<lparr>jobs := row_del job_id (job_id j) (jobs d1)\<rparr>)"
      by (simp add: known_def)
    with d1 [OF new] show ?thesis by (auto simp: queue_ok_def distinct_row_del) (auto simp: row_del_def)
  qed
  show ?thesis
    using run ok d1 d2
    by (auto simp: MoveToDead_def bindE_def sql_def ext_def q_insert_dead_def q_delete_job_def d1_def claimed_ok_def
        split: list.splits if_splits sum.splits prod.splits)
qed

lemma finish_queue_ok:
  assumes ok: "claimed_ok K j (wdb w)" and run: "finish env j r w = (q, w')"
  shows "queue_ok K (wdb w')"
proof (cases r)
  case (Inr u)
  with run ok keeps_Complete_q [of K "job_id j"] show ?thesis
    by (auto simp: finish_def bindE_def attempt_def run_simps keeps_def on_tables_def claimed_ok_def
        split: prod.splits dest: spec [of _ w])
next
  case (Inl e)
  have base: "queue_ok K (wdb w)" using ok by (simp add: claimed_ok_def)
  consider "e = GoPanic" | "e \<noteq> GoPanic" "max_attempts j \<le> attempts j"
    | "e \<noteq> GoPanic" "attempts j < max_attempts j" by linarith
  then show ?thesis
  proof cases
    case 1
    with Inl run base show ?thesis by (auto simp: finish_def run_simps)
  next
    case 2
    with Inl run show ?thesis
      by (auto simp: finish_def bindE_def attempt_def run_simps split: prod.splits dest: finish_MoveToDead [OF ok])
  next
    case 3
    with Inl run show ?thesis
      by (auto simp: finish_def bindE_def attempt_def run_simps split: prod.splits dest: finish_Retry [OF ok])
  qed
qed

lemma claim_claimed_ok:
  assumes "queue_ok K (wdb w)" and "Claim secs w = (Inr (Some j), w')"
  shows "claimed_ok K j (wdb w')"
proof -
  from assms(2) obtain k where k: "next_job (clock w) (jobs (wdb w)) = Some k" and j: "j = lease (clock w) secs k"
    and d: "wdb w' = (wdb w)\<lparr>jobs := row_upd job_id (job_id k) (lease (clock w) secs) (jobs (wdb w))\<rparr>"
    unfolding Claim_def by (auto elim!: sql_InrE simp: q_claim_def split: option.splits if_splits)
  have mem: "k \<in> set (jobs (wdb w))" "runnable (clock w) k" using next_job_Some [OF k] by auto
  have uniq: "x = k" if "x \<in> set (jobs (wdb w))" "job_id x = job_id k" for x
    using that mem(1) assms(1) by (auto simp: queue_ok_def distinct_map inj_on_def)
  have "job_ok k" using assms(1) mem(1) by (simp add: queue_ok_def)
  then have "job_ok (lease (clock w) secs k)" using mem(2) by (simp add: job_ok_def runnable_def)
  then have "queue_ok K (wdb w')"
    unfolding d using assms(1) uniq by (intro queue_ok_row_upd) (auto simp: job_key_def)
  moreover have "tracks j (wdb w')"
  proof -
    have "map job_id (jobs (wdb w')) = map job_id (jobs (wdb w))" by (simp add: d row_upd_keys)
    then have "job_id ` set (jobs (wdb w')) = job_id ` set (jobs (wdb w))" by (metis set_map)
    moreover have "x = j" if "x \<in> set (jobs (wdb w'))" "job_id x = job_id j" for x
      using that by (auto simp: d j dest!: row_upd_mem dest: uniq split: if_splits)
    ultimately show ?thesis using mem(1) by (auto simp: tracks_def j)
  qed
  ultimately show ?thesis by (simp add: claimed_ok_def)
qed

lemma keeps_worker_turn_q: "keeps (on_tables (queue_ok K)) (worker_turn env)"
  unfolding keeps_def on_tables_def
proof (intro allI impI)
  fix w :: world assume ok: "queue_ok K (wdb w)"
  obtain r w1 where c: "Claim (leaseSecs env) w = (r, w1)" by fastforce
  show "queue_ok K (wdb (snd (worker_turn env w)))"
  proof (cases "\<exists>j. r = Inr (Some j)")
    case True
    then obtain j where r: "r = Inr (Some j)" ..
    have c1: "claimed_ok K j (wdb w1)" using claim_claimed_ok [OF ok] c r by blast
    obtain q w2 where d: "dispatch env j w1 = (q, w2)" by fastforce
    have "claimed_ok K j (wdb w2)"
      using keepsD [OF claimed.keeps_dispatch_q, of K j w1 env j q w2] c1 d by (simp add: on_tables_def)
    moreover obtain x w3 where f: "finish env j q w2 = (x, w3)" by fastforce
    ultimately have "queue_ok K (wdb w3)" by (rule finish_queue_ok)
    with c r d f show ?thesis by (simp add: worker_turn_def process_def bindE_def attempt_def)
  next
    case False
    have "queue_ok K (wdb w1)"
    proof (cases r)
      case (Inl e)
      with c ok show ?thesis by (auto simp: Claim_def dest!: sql_Inl_wdb)
    next
      case (Inr m)
      with False have "m = None" by (cases m) auto
      with c ok Inr show ?thesis
        by (auto simp: Claim_def q_claim_def elim!: sql_InrE split: option.splits if_splits)
    qed
    with False c show ?thesis
      by (cases r) (auto simp: worker_turn_def bindE_def attempt_def run_simps split: option.splits)
  qed
qed

lemma queue_ok_reap_dead:
  assumes ok: "queue_ok K d" and run: "q_reap_dead now d = Inr (n, d')"
  shows "queue_ok K d'" and "j \<in> set (jobs d') \<Longrightarrow> expired now j \<Longrightarrow> \<not> exhausted j"
proof -
  let ?gone = "\<lambda>j. expired now j \<and> exhausted j"
  let ?moved = "filter ?gone (jobs d)"
  let ?msg = "''lease expired (max attempts reached)''"
  have d': "d' = d\<lparr>jobs := filter (\<lambda>j. \<not> ?gone j) (jobs d),
      dead_letters := dead_letters d @ map (bury now ?msg) ?moved\<rparr>"
    and new: "\<And>j. j \<in> set ?moved \<Longrightarrow> job_id j \<notin> dl_id ` set (dead_letters d)"
    using run by (auto simp: q_reap_dead_def Let_def list_ex_iff split: if_splits)
  show "j \<in> set (jobs d') \<Longrightarrow> expired now j \<Longrightarrow> \<not> exhausted j" by (simp add: d')
  have "dead_key (bury now ?msg j) = job_key j" for j by (simp add: dead_key_def bury_def job_key_def)
  then have "dead_key ` set (dead_letters d') = dead_key ` set (dead_letters d) \<union> job_key ` set ?moved"
    by (simp add: d' image_Un image_image)
  moreover have "job_key ` set (jobs d) = job_key ` set (jobs d') \<union> job_key ` set ?moved"
    unfolding image_Un [symmetric] by (rule arg_cong [where f = "(`) job_key"]) (auto simp: d')
  ultimately have "known d' = known d" by (simp only: known_def Un_ac)
  moreover have "x \<notin> dl_id ` set (dead_letters d)" if "x \<in> job_id ` set ?moved" for x
    using that by (elim imageE) (use new in simp)
  then have "dl_id ` set (dead_letters d) \<inter> job_id ` set ?moved = {}" by fast
  then have "distinct (map dl_id (dead_letters d'))"
    using ok by (simp add: d' queue_ok_def comp_def distinct_map_filter)
  moreover have "distinct (map job_id (jobs d'))" using ok by (simp add: d' queue_ok_def distinct_map_filter)
  ultimately show "queue_ok K d'" using ok by (auto simp: queue_ok_def d')
qed

lemma queue_ok_reap_requeue:
  assumes ok: "queue_ok K d" and few: "\<And>j. j \<in> set (jobs d) \<Longrightarrow> expired now j \<Longrightarrow> \<not> exhausted j"
    and run: "q_reap_requeue now d = Inr (n, d')"
  shows "queue_ok K d'"
proof -
  let ?f = "\<lambda>j. if expired now j then requeue j else j"
  have d': "d' = d\<lparr>jobs := map ?f (jobs d)\<rparr>" using run by (simp add: q_reap_requeue_def)
  have key: "job_key (?f j) = job_key j" for j by (simp add: job_key_def requeue_def)
  then have "map job_key (jobs d') = map job_key (jobs d)" by (simp add: d')
  then have "job_key ` set (jobs d') = job_key ` set (jobs d)" by (metis set_map)
  moreover have "map job_id (jobs d') = map job_id (jobs d)" by (simp add: d')
  moreover have "job_ok (requeue j)" if "j \<in> set (jobs d)" "expired now j" for j
    using that few [of j] ok by (auto simp: queue_ok_def job_ok_def exhausted_def requeue_def)
  then have "\<forall>j \<in> set (jobs d'). job_ok j" using ok by (auto simp: d' queue_ok_def)
  moreover have "dead_letters d' = dead_letters d" by (simp add: d')
  ultimately show ?thesis using ok by (simp only: queue_ok_def known_def)
qed

lemma keeps_ReapExpired_q: "keeps (on_tables (queue_ok K)) ReapExpired"
  unfolding ReapExpired_def
proof (rule keeps_bindE_post [where
      J = "\<lambda>_ w. \<forall>j \<in> set (jobs (wdb w)). expired (clock w) j \<longrightarrow> \<not> exhausted j"])
  show "keeps (on_tables (queue_ok K)) (sql q_reap_dead)"
    by (rule keeps_sql) (rule queue_ok_reap_dead)
next
  fix w x w' assume "on_tables (queue_ok K) w" and "sql q_reap_dead w = (Inr x, w')"
  then show "\<forall>j \<in> set (jobs (wdb w')). expired (clock w') j \<longrightarrow> \<not> exhausted j"
    using queue_ok_reap_dead(2) by (fastforce simp: on_tables_def elim!: sql_InrE)
next
  fix x w assume "on_tables (queue_ok K) w"
    and "\<forall>j \<in> set (jobs (wdb w)). expired (clock w) j \<longrightarrow> \<not> exhausted j"
  then show "on_tables (queue_ok K) (snd (bindE (sql q_reap_requeue) (\<lambda>rq. ret (rq, x)) w))"
    using queue_ok_reap_requeue [of K "wdb w" "clock w"]
    by (auto simp: on_tables_def bindE_def sql_def ext_def ret_def
        split: list.splits sum.splits prod.splits if_splits)
qed

lemma keeps_reaper_turn_q: "keeps (on_tables (queue_ok K)) reaper_turn"
  unfolding reaper_turn_def by (intro keeps_intros keeps_ReapExpired_q)

lemma queue_ok_replay:
  assumes ok: "queue_ok K d" and run: "q_replay i now d = Inr (n, d')"
  shows "queue_ok K d'"
proof (cases "row_get dl_id i (dead_letters d)")
  case None
  with ok run show ?thesis by (simp add: q_replay_def)
next
  case (Some l)
  with run have new: "i \<notin> job_id ` set (jobs d)"
    and d': "d' = d\<lparr>dead_letters := row_del dl_id i (dead_letters d), jobs := jobs d @ [revive now l]\<rparr>"
    by (auto simp: q_replay_def split: if_splits)
  have l: "l \<in> set (dead_letters d)" "dl_id l = i" using row_get_SomeD [OF Some] by auto
  have uniq: "x = l" if "x \<in> set (dead_letters d)" "dl_id x = i" for x
    using that l ok by (auto simp: queue_ok_def distinct_map inj_on_def)
  have key: "job_key (revive now l) = dead_key l" by (simp add: job_key_def dead_key_def revive_def)
  have "dead_key x \<in> known d'" if "x \<in> set (dead_letters d)" for x
    using that uniq key by (cases "dl_id x = i") (auto simp: d' known_def row_del_def)
  then have "dead_key ` set (dead_letters d) \<subseteq> known d'" by blast
  moreover have "job_key ` set (jobs d) \<subseteq> known d'" by (auto simp: d' known_def)
  ultimately have "known d \<subseteq> known d'" by (simp add: known_def [of d])
  moreover have "job_ok (revive now l)" by (simp add: job_ok_def revive_def)
  ultimately show ?thesis
    using ok new l by (auto simp: queue_ok_def d' distinct_row_del)
qed

lemma keeps_Replay_q: "keeps (on_tables (queue_ok K)) (Replay i)"
  unfolding Replay_def by (intro keeps_intros) (rule queue_ok_replay)

section \<open>Reachable states of the queue\<close>

text \<open>
  Whole turns of the workers and of the reaper, replays by an administrator, orders placed by clients,
  starts of a worker process, and the passing of time, in any order and with any calls failing.
\<close>

inductive queue_step :: "wenv \<Rightarrow> world \<Rightarrow> world \<Rightarrow> bool" for env :: wenv where
  work: "queue_step env w (snd (worker_turn env w))"
| reap: "queue_step env w (snd (reaper_turn w))"
| replay: "queue_step env w (snd (Replay i w))"
| place: "queue_step env w (snd (PlaceOrder req w))"
| seed: "queue_step env w (snd (seedPoller w))"
| pass: "0 \<le> n \<Longrightarrow> queue_step env w (w\<lparr>clock := clock w + n, faults := bs\<rparr>)"

interpretation queue_sys: step_system "queue_step env" "on_tables (queue_ok K)" for env K
proof
  fix s t assume inv: "on_tables (queue_ok K) s" and "queue_step env s t"
  from this(2) show "on_tables (queue_ok K) t"
  proof cases
    case work
    with keeps_worker_turn_q inv show ?thesis by (simp add: keeps_def)
  next
    case reap
    with keeps_reaper_turn_q inv show ?thesis by (simp add: keeps_def)
  next
    case (replay i)
    with keeps_Replay_q inv show ?thesis by (simp add: keeps_def)
  next
    case (place req)
    with qinv.keeps_PlaceOrder_q inv show ?thesis by (simp add: keeps_def)
  next
    case seed
    with qinv.keeps_seedPoller_q inv show ?thesis by (simp add: keeps_def)
  next
    case (pass n bs)
    with inv show ?thesis by (simp add: on_tables_def)
  qed
qed

text \<open>
  No job is lost, and the attempt limit holds. From any state that satisfies the queue invariant,
  through any sequence of worker and reaper turns, replays, placed orders and passing time, whichever
  calls fail: every job that was known (its identifier, type and payload) is still in the queue or
  among the dead letters, and no job is claimed more often than its maximum number of attempts.
\<close>
theorem jobs_never_lost:
  assumes "queue_ok (known (wdb w)) (wdb w)" and "(queue_step env)\<^sup>*\<^sup>* w w'"
  shows "known (wdb w) \<subseteq> known (wdb w') \<and>
    (\<forall>j \<in> set (jobs (wdb w')). attempts j \<le> max_attempts j \<and>
      (job_status j = ''queued'' \<longrightarrow> attempts j < max_attempts j))"
proof -
  have "queue_ok (known (wdb w)) (wdb w')"
    using queue_sys.steps_inv [OF assms(2), of "known (wdb w)"] assms(1) by (simp add: on_tables_def)
  then show ?thesis by (simp add: queue_ok_def job_ok_def)
qed

definition sample_env :: wenv where
  "sample_env = \<lparr>w_md = sample_md, leaseSecs = 30, http_post = (\<lambda>url pl t. Inr 200), lib_text = (\<lambda>e. ''io'')\<rparr>"

lemma sample_queue_ok: "queue_ok (known sample_db) sample_db"
  by (simp add: queue_ok_def sample_db_def outbox_db_def open_db_def empty_db_def post_entry_def execute_job_def
      job_ok_def)

theorem jobs_never_lost_witness:
  "let w = sample_world sample_db; w' = snd (reaper_turn (snd (worker_turn sample_env w)))
   in (50, ''execute_order'', OrderPayload 7) \<in> known (wdb w')"
proof -
  let ?w = "sample_world sample_db"
  have "(queue_step sample_env)\<^sup>*\<^sup>* ?w (snd (reaper_turn (snd (worker_turn sample_env ?w))))"
    by (meson queue_step.work queue_step.reap r_into_rtranclp rtranclp.rtrancl_into_rtrancl)
  then have "known sample_db \<subseteq> known (wdb (snd (reaper_turn (snd (worker_turn sample_env ?w)))))"
    using jobs_never_lost [of ?w sample_env "snd (reaper_turn (snd (worker_turn sample_env ?w)))"] sample_queue_ok
    by simp
  moreover have "(50, ''execute_order'', OrderPayload 7) \<in> known sample_db"
    by (simp add: known_def job_key_def sample_db_def outbox_db_def open_db_def empty_db_def post_entry_def
        execute_job_def JobExecuteOrder_def)
  ultimately show ?thesis by (auto simp: Let_def)
qed

section \<open>Claiming\<close>

text \<open>
  C20. Claiming. Without failures, \<open>Claim\<close> returns no job exactly when none is due. Otherwise it
  returns a due job of the highest priority, and among those one with the earliest due time; the
  returned job and its row are leased from now on, with one more attempt, and every other row is
  untouched. A second claim right after it never returns the same job.
\<close>
theorem Claim_correct:
  assumes "queue_ok K (wdb w)" and "faults w = []"
    and "\<And>j. j \<in> set (jobs (wdb w)) \<Longrightarrow> attempts j + 1 < 2 ^ 31"
  shows "\<exists>r w'. Claim secs w = (Inr r, w') \<and>
    (case r of
       None \<Rightarrow> w' = w \<and> (\<forall>j \<in> set (jobs (wdb w)). \<not> runnable (clock w) j)
     | Some j' \<Rightarrow> \<exists>j \<in> set (jobs (wdb w)). runnable (clock w) j \<and> j' = lease (clock w) secs j \<and>
         (\<forall>k \<in> set (jobs (wdb w)). runnable (clock w) k \<longrightarrow>
            priority k < priority j \<or> priority k = priority j \<and> run_at j \<le> run_at k) \<and>
         w' = w\<lparr>wdb := (wdb w)\<lparr>jobs := row_upd job_id (job_id j) (\<lambda>_. j') (jobs (wdb w))\<rparr>\<rparr> \<and>
         (\<forall>k v. Claim secs w' = (Inr (Some k), v) \<longrightarrow> job_id k \<noteq> job_id j'))"
proof (cases "next_job (clock w) (jobs (wdb w))")
  case None
  then have "Claim secs w = (Inr None, w)" using assms(2) by (simp add: Claim_def run_simps q_claim_def)
  with None show ?thesis by (simp add: next_job_None)
next
  case (Some j)
  let ?l = "lease (clock w) secs"
  let ?w' = "w\<lparr>wdb := (wdb w)\<lparr>jobs := row_upd job_id (job_id j) ?l (jobs (wdb w))\<rparr>\<rparr>"
  note j = next_job_Some [OF Some]
  have uniq: "x = j" if "x \<in> set (jobs (wdb w))" "job_id x = job_id j" for x
    using that j(1) assms(1) by (auto simp: queue_ok_def distinct_map inj_on_def)
  have run: "Claim secs w = (Inr (Some (?l j)), ?w')"
    using Some assms(2,3) j(1) by (simp add: Claim_def run_simps q_claim_def)
  have same: "row_upd job_id (job_id j) ?l (jobs (wdb w)) = row_upd job_id (job_id j) (\<lambda>_. ?l j) (jobs (wdb w))"
    using uniq by (auto simp: row_upd_def)
  have again: "job_id k \<noteq> job_id j" if "Claim secs ?w' = (Inr (Some k), v)" for k v
  proof
    assume eq: "job_id k = job_id j"
    from that obtain m where m: "next_job (clock w) (jobs (wdb ?w')) = Some m" "k = ?l m"
      unfolding Claim_def by (auto elim!: sql_InrE simp: q_claim_def split: option.splits if_splits)
    then have "m \<in> set (jobs (wdb ?w'))" "runnable (clock w) m" using next_job_Some [OF m(1)] by auto
    with eq m(2) show False by (auto simp: runnable_def dest!: row_upd_mem split: if_splits)
  qed
  have "\<forall>k \<in> set (jobs (wdb w)). runnable (clock w) k \<longrightarrow>
      priority k < priority j \<or> priority k = priority j \<and> run_at j \<le> run_at k" using j(3) by blast
  with run same again j(1,2) show ?thesis
    by (intro exI [of _ "Some (?l j)"] exI [of _ ?w']) (auto intro!: bexI [of _ j])
qed

theorem Claim_correct_witness:
  "\<exists>j w'. Claim 30 (sample_world sample_db) = (Inr (Some j), w') \<and> job_id j = 50 \<and> attempts j = 1 \<and>
     leased_until j = Some 30000"
proof -
  have js: "jobs sample_db = [execute_job 50 7 0]"
    by (simp add: sample_db_def outbox_db_def open_db_def empty_db_def post_entry_def)
  have r: "runnable 0 (execute_job 50 7 0)" by (simp add: runnable_def execute_job_def)
  obtain x w' where c: "Claim 30 (sample_world sample_db) = (Inr x, w')" and
    spec: "case x of
       None \<Rightarrow> w' = sample_world sample_db \<and> (\<forall>j \<in> set (jobs sample_db). \<not> runnable 0 j)
     | Some j' \<Rightarrow> \<exists>j \<in> set (jobs sample_db). j' = lease 0 30 j"
    using Claim_correct [of "known sample_db" "sample_world sample_db" 30] sample_queue_ok
    by (auto simp: js execute_job_def split: option.splits)
  then show ?thesis using js r by (cases x) (auto simp: execute_job_def)
qed

end
