(* ===== verification/Worker_Properties.thy ===== *)
theory Worker_Properties
  imports Job_Queue
begin

text \<open>
  What the worker does with a claimed job: completion, retry with exponential backoff, dead-lettering
  and replay; the reaper; the recurring quote poll and the price alerts.
\<close>

section \<open>The outcome of processing\<close>

lemma keeps_refresh_loop_nf: "keeps no_faults (refresh_loop m ss prices)"
proof (induction ss arbitrary: prices)
  case (Cons s ss)
  then show ?case
    unfolding refresh_loop.simps Refresh_def SetQuote_def Let_def
    by (auto intro!: keeps_intros split: sum.splits)
qed (simp add: keeps_ret)

lemma keeps_fire_loop_nf: "keeps no_faults (fire_loop prices as)"
  by (induction as)
    (auto intro!: keeps_intros simp: Enqueue_def MarkTriggered_def split: option.splits sum.splits)

lemma keeps_MD_Quote_nf: "keeps no_faults (MD_Quote m s)"
  unfolding MD_Quote_def GetQuote_def SetQuote_def Let_def
  by (rule keeps_bindE) (auto intro!: keeps_intros split: sum.splits option.splits rval.splits)

lemma keeps_fill_nf: "keeps no_faults (fill_tx ord price)"
  unfolding fill_tx_def book_trade_def LockForUpdate_def Holdings_def SetStatus_def Entry_Insert_def BumpSeq_def
    SetFilled_def Enqueue_def InvalidateSnapshot_def Let_def
  by (intro keeps_intros)

lemma keeps_dispatch_nf: "keeps no_faults (dispatch env j)"
  unfolding dispatch_def handleExecuteOrder_def handleSettle_def handlePollQuotes_def handleAlertWebhook_def
    ExecuteOrder_def execute_priced_def reject_def Order_Get_def SetStatus_def DistinctSymbols_def Alert_Symbols_def
    ListActive_def Enqueue_def
  by (auto intro!: keeps_intros keeps_refresh_loop_nf keeps_fire_loop_nf keeps_MD_Quote_nf keeps_fill_nf
      split: payload.splits sum.splits option.splits)

text \<open>The tables after the bookkeeping of one processed job.\<close>

definition processed_db :: "wenv \<Rightarrow> job \<Rightarrow> err + unit \<Rightarrow> time \<Rightarrow> db \<Rightarrow> db" where
  "processed_db env j r now d =
     (case r of
        Inr _ \<Rightarrow> d\<lparr>jobs := row_upd job_id (job_id j)
                      (\<lambda>k. k\<lparr>job_status := ''done'', leased_until := None\<rparr>) (jobs d)\<rparr>
      | Inl e \<Rightarrow>
          (let msg = err_text (lib_text env) e
           in if max_attempts j \<le> attempts j
              then d\<lparr>dead_letters := dead_letters d @ [bury now msg j],
                     jobs := row_del job_id (job_id j) (jobs d)\<rparr>
              else d\<lparr>jobs := row_upd job_id (job_id j)
                       (\<lambda>k. k\<lparr>job_status := ''queued'', run_at := now + min (2 ^ nat (attempts j)) 300 * 1000,
                              leased_until := None, last_error := Some msg\<rparr>) (jobs d)\<rparr>))"

text \<open>
  C22. Processing a job without failures of the bookkeeping calls. If its handler succeeds, the job is
  marked done. If the handler fails with attempts left, the job is queued again with the error's text,
  due after \<open>2^attempts\<close> seconds but at most 300. If its attempts are used up, it leaves the queue for
  the dead letters with the error's text. Nothing else changes after the handler.
\<close>
theorem process_outcome:
  assumes nf: "faults w = []" and run: "dispatch env j w = (r, w1)" and "r \<noteq> Inl GoPanic"
    and "0 \<le> attempts j" and "job_id j \<notin> dl_id ` set (dead_letters (wdb w1))"
  shows "process env j w = (Inr (), w1\<lparr>wdb := processed_db env j r (clock w1) (wdb w1)\<rparr>)"
proof -
  have "faults w1 = []"
    using keepsD [OF keeps_dispatch_nf, of w env j r w1] nf run by (simp add: no_faults_def)
  with assms show ?thesis
    by (cases r)
      (auto simp: process_def finish_def bindE_def attempt_def run_simps Complete_def q_complete_def MoveToDead_def
        q_insert_dead_def q_delete_job_def Retry_def q_retry_def processed_db_def backoff_secs_def Let_def)
qed

definition odd_job :: job where
  "odd_job = \<lparr>job_id = 60, job_type = ''mystery'', job_payload = EmptyPayload, priority = 0, run_at = 0,
     job_status = ''inflight'', attempts = 2, max_attempts = 5, leased_until = Some 30000, last_error = None,
     job_created = 0\<rparr>"

theorem process_outcome_witness:
  "let w = sample_world (empty_db\<lparr>jobs := [odd_job]\<rparr>)
   in map (\<lambda>j. (job_status j, run_at j, attempts j)) (jobs (wdb (snd (process sample_env odd_job w)))) =
      [(''queued'', 4000, 2)]"
proof -
  let ?w = "sample_world (empty_db\<lparr>jobs := [odd_job]\<rparr>)"
  let ?e = "ErrMsg (''unknown job type '' @ go_quote (job_type odd_job))"
  have "dispatch sample_env odd_job ?w = (Inl ?e, ?w)"
    by (simp add: dispatch_def job_type_defs run_simps odd_job_def)
  from process_outcome [OF _ this]
  have "process sample_env odd_job ?w =
      (Inr (), ?w\<lparr>wdb := processed_db sample_env odd_job (Inl ?e) 0 (empty_db\<lparr>jobs := [odd_job]\<rparr>)\<rparr>)"
    by (simp add: odd_job_def empty_db_def)
  then show ?thesis by (simp add: processed_db_def odd_job_def empty_db_def row_upd_def Let_def)
qed

section \<open>Dead letters\<close>

text \<open>
  C37. Dead-lettering and replay are inverse up to the columns a dead letter does not keep. Without
  failures, moving a job to the dead letters and replaying it puts the same job (identifier, type and
  payload) back at the end of the queue, due now, with no attempts used, and leaves the dead letters as
  they were; its priority and attempt limit are the defaults 0 and 5. Replaying an identifier that is not
  among the dead letters is a not-found error that changes nothing.
\<close>
theorem dead_letter_replay:
  assumes "faults w = []" and "job_id j \<notin> dl_id ` set (dead_letters (wdb w))"
  shows "bindE (MoveToDead j msg) (\<lambda>_. Replay (job_id j)) w = (Inr (), w\<lparr>wdb := (wdb w)\<lparr>jobs :=
      row_del job_id (job_id j) (jobs (wdb w)) @
      [\<lparr>job_id = job_id j, job_type = job_type j, job_payload = job_payload j, priority = 0,
        run_at = clock w, job_status = ''queued'', attempts = 0, max_attempts = 5, leased_until = None,
        last_error = None, job_created = clock w\<rparr>]\<rparr>\<rparr>) \<and>
    Replay (job_id j) w = (Inl ErrNotFound, w)"
proof -
  have none: "row_get dl_id (job_id j) (dead_letters (wdb w)) = None"
    using assms(2) by (simp add: row_get_None_iff)
  have same: "row_del dl_id (job_id j) (dead_letters (wdb w)) = dead_letters (wdb w)"
    using assms(2) by (force simp: row_del_def filter_id_conv)
  have gone: "job_id j \<notin> job_id ` set (row_del job_id (job_id j) (jobs (wdb w)))"
    by (auto simp: row_del_def)
  have del: "row_del dl_id (job_id j) (dead_letters (wdb w) @ [bury t msg j]) = dead_letters (wdb w)" for t
    using same by (simp add: row_del_def)
  show ?thesis
    using assms none gone
    by (simp add: MoveToDead_def Replay_def bindE_def run_simps q_insert_dead_def q_delete_job_def q_replay_def
        row_get_append del)
      (simp add: revive_def bury_def)
qed

theorem dead_letter_replay_witness:
  "let w = sample_world (empty_db\<lparr>jobs := [odd_job]\<rparr>)
   in map (\<lambda>j. (job_id j, job_type j, job_status j, attempts j, max_attempts j))
        (jobs (wdb (snd (bindE (MoveToDead odd_job ''x'') (\<lambda>_. Replay 60) w)))) =
      [(60, ''mystery'', ''queued'', 0, 5)]"
  using dead_letter_replay [of "sample_world (empty_db\<lparr>jobs := [odd_job]\<rparr>)" odd_job "''x''"]
  by (simp add: odd_job_def empty_db_def row_del_def)

text \<open>
  C40. A job that is both in the queue, exhausted and with an expired lease, and among the dead letters
  stops the reaper: from then on, at any later time and whichever calls fail, \<open>ReapExpired\<close> returns an
  error and changes nothing, so no other expired lease is ever requeued while that row exists.
\<close>
theorem reaper_blocked:
  assumes "j \<in> set (jobs (wdb w))" and "expired (clock w) j" and "exhausted j"
    and "job_id j \<in> dl_id ` set (dead_letters (wdb w))" and "0 \<le> n"
  shows "\<exists>e w'. ReapExpired (w\<lparr>clock := clock w + n, faults := bs\<rparr>) = (Inl e, w') \<and> wdb w' = wdb w"
proof -
  have "expired (clock w + n) j" using assms(2,5) by (auto simp: expired_def split: option.splits)
  then have "list_ex (\<lambda>j. job_id j \<in> dl_id ` set (dead_letters (wdb w)))
      (filter (\<lambda>j. expired (clock w + n) j \<and> exhausted j) (jobs (wdb w)))"
    using assms(1,3,4) by (auto simp: list_ex_iff)
  then have "q_reap_dead (clock w + n) (wdb w) = Inl UniqueViolation" by (simp add: q_reap_dead_def)
  then show ?thesis
    by (cases bs) (auto simp: ReapExpired_def bindE_def sql_def ext_def)
qed

text \<open>
  How that happens: a job fails its last attempt, its dead letter is written, and the delete that
  should follow fails. Another worker crashes on the job 61.
\<close>

definition last_try :: job where
  "last_try = odd_job\<lparr>attempts := 5\<rparr>"

definition crashed :: job where
  "crashed = odd_job\<lparr>job_id := 61, attempts := 1\<rparr>"

definition half_dead :: world where
  "half_dead = (snd (process sample_env last_try
      ((sample_world (empty_db\<lparr>jobs := [last_try, crashed]\<rparr>))\<lparr>faults := [False, True]\<rparr>)))\<lparr>clock := 40000\<rparr>"

theorem reaper_blocked_witness:
  "\<exists>e w'. ReapExpired (half_dead\<lparr>clock := clock half_dead + 1000000, faults := []\<rparr>) = (Inl e, w') \<and>
     map job_status (jobs (wdb w')) = [''inflight'', ''inflight'']"
proof -
  have j: "jobs (wdb half_dead) = [last_try, crashed]" "dl_id ` set (dead_letters (wdb half_dead)) = {60}"
    "clock half_dead = 40000" by code_simp+
  have "last_try \<in> set (jobs (wdb half_dead))" "expired (clock half_dead) last_try" "exhausted last_try"
    "job_id last_try \<in> dl_id ` set (dead_letters (wdb half_dead))"
    by (simp_all only: j) (simp_all add: last_try_def odd_job_def expired_def exhausted_def)
  from reaper_blocked [OF this, of 1000000 "[]"] j(1) show ?thesis
    by (auto simp: last_try_def crashed_def odd_job_def)
qed

section \<open>Polling quotes and firing alerts\<close>

text \<open>The random source only returns identifiers that are not in use.\<close>

definition fresh_ids :: "world \<Rightarrow> bool" where
  "fresh_ids w \<longleftrightarrow> inj (rng w) \<and> (\<forall>n \<ge> drawn w. rng w n \<notin> job_id ` set (jobs (wdb w)))"

definition queued_job :: "uuid \<Rightarrow> string \<Rightarrow> payload \<Rightarrow> int \<Rightarrow> time \<Rightarrow> int \<Rightarrow> time \<Rightarrow> job" where
  "queued_job i typ pl prio runAt maxAtt now =
     \<lparr>job_id = i, job_type = typ, job_payload = pl, priority = prio, run_at = runAt,
      job_status = ''queued'', attempts = 0, max_attempts = maxAtt, leased_until = None,
      last_error = None, job_created = now\<rparr>"

lemma Enqueue_fresh:
  assumes "faults w = []" and "fresh_ids w"
  shows "Enqueue typ pl prio runAt maxAtt w = (Inr (rng w (drawn w)), w\<lparr>drawn := Suc (drawn w),
      wdb := (wdb w)\<lparr>jobs := jobs (wdb w) @ [queued_job (rng w (drawn w)) typ pl prio runAt maxAtt (clock w)]\<rparr>\<rparr>)"
    and "fresh_ids (w\<lparr>drawn := Suc (drawn w),
      wdb := (wdb w)\<lparr>jobs := jobs (wdb w) @ [queued_job (rng w (drawn w)) typ pl prio runAt maxAtt (clock w)]\<rparr>\<rparr>)"
  using assms Enqueue_run [of w]
  by (auto simp: fresh_ids_def queued_job_def inj_eq)

text \<open>The provider's price, where it has one, and the alerts that fire at it.\<close>

definition poll_price :: "mdsvc \<Rightarrow> time \<Rightarrow> string \<Rightarrow> int option" where
  "poll_price m now s = (case prov_Quote (md_provider m) s now of Inl _ \<Rightarrow> None | Inr p \<Rightarrow> Some p)"

definition fires :: "(string \<Rightarrow> int option) \<Rightarrow> alert \<Rightarrow> bool" where
  "fires price a \<longleftrightarrow> (case price (alert_symbol a) of None \<Rightarrow> False | Some p \<Rightarrow> crossed a p)"

definition webhook_jobs :: "(string \<Rightarrow> int option) \<Rightarrow> alert list \<Rightarrow> (string \<times> payload) list" where
  "webhook_jobs price as =
     map (\<lambda>a. (JobAlertWebhook, alert_payload a (the (price (alert_symbol a))))) (filter (fires price) as)"

definition poll_map :: "mdsvc \<Rightarrow> time \<Rightarrow> string list \<Rightarrow> string \<Rightarrow> int option" where
  "poll_map m now ss s = (if s \<in> set ss then poll_price m now s else None)"

lemma poll_map_Cons:
  "poll_price m now s = None \<Longrightarrow> poll_map m now (s # ss) = poll_map m now ss"
  "poll_price m now s = Some p \<Longrightarrow>
     map_of prices ++ poll_map m now (s # ss) = map_of ((s, p) # prices) ++ poll_map m now ss"
  by (auto simp: poll_map_def map_add_def fun_eq_iff split: option.splits)

lemma refresh_loop_run:
  assumes "faults w = []"
  shows "\<exists>prices' w'. refresh_loop m ss prices w = (Inr prices', w') \<and>
    map_of prices' = map_of prices ++ poll_map m (clock w) ss \<and>
    faults w' = [] \<and> wdb w' = wdb w \<and> clock w' = clock w \<and> drawn w' = drawn w \<and> rng w' = rng w"
  using assms
proof (induction ss arbitrary: prices w)
  case Nil
  then show ?case by (simp add: run_simps map_add_def poll_map_def)
next
  case (Cons s ss)
  show ?case
  proof (cases "prov_Quote (md_provider m) s (clock w)")
    case (Inl e)
    have run: "refresh_loop m (s # ss) prices w = refresh_loop m ss prices w"
      by (simp add: bindE_def attempt_def Refresh_def run_simps Inl)
    have pm: "poll_map m (clock w) (s # ss) = poll_map m (clock w) ss"
      by (rule poll_map_Cons) (simp add: poll_price_def Inl)
    show ?thesis unfolding run pm using Cons.IH [OF Cons.prems] .
  next
    case (Inr p)
    define w1 where "w1 = snd (SetQuote (md_quoteTTL m) \<lparr>quote_symbol = s, quote_price = p, quote_as_of = clock w\<rparr> w)"
    have w1: "faults w1 = []" "wdb w1 = wdb w" "clock w1 = clock w" "drawn w1 = drawn w" "rng w1 = rng w"
      using Cons.prems by (simp_all add: w1_def SetQuote_def redis_set_def run_simps)
    have run: "refresh_loop m (s # ss) prices w = refresh_loop m ss ((s, p) # prices) w1"
      using Cons.prems
      by (simp add: bindE_def attempt_def Refresh_def run_simps Inr Let_def SetQuote_def redis_set_def w1_def)
    have pm: "map_of prices ++ poll_map m (clock w) (s # ss) =
        map_of ((s, p) # prices) ++ poll_map m (clock w) ss"
      by (rule poll_map_Cons) (simp add: poll_price_def Inr)
    show ?thesis unfolding run pm using Cons.IH [OF w1(1), of "(s, p) # prices"] by (simp only: w1)
  qed
qed

text \<open>Marking the alerts of a list of identifiers as triggered.\<close>

definition mark :: "uuid set \<Rightarrow> alert list \<Rightarrow> alert list" where
  "mark I as = map (\<lambda>a. if alert_id a \<in> I then a\<lparr>triggered := True\<rparr> else a) as"

lemma mark_empty [simp]: "mark {} as = as"
  by (simp add: mark_def)

lemma row_upd_mark: "row_upd alert_id i (\<lambda>a. a\<lparr>triggered := True\<rparr>) as = mark {i} as"
  by (simp add: row_upd_def mark_def)

lemma mark_mark: "mark I (mark J as) = mark (I \<union> J) as"
  by (auto simp: mark_def)

lemma fire_loop_run:
  assumes "faults w = []" and "fresh_ids w"
  shows "\<exists>js w'. fire_loop prices as w = (Inr (), w') \<and> faults w' = [] \<and> fresh_ids w' \<and> clock w' = clock w \<and>
    wdb w' = (wdb w)\<lparr>jobs := jobs (wdb w) @ js,
                     alerts := mark (alert_id ` set (filter (fires (map_of prices)) as)) (alerts (wdb w))\<rparr> \<and>
    map (\<lambda>j. (job_type j, job_payload j)) js = webhook_jobs (map_of prices) as"
  using assms
proof (induction as arbitrary: w)
  case Nil
  then show ?case by (auto simp: run_simps webhook_jobs_def)
next
  case (Cons a as)
  show ?case
  proof (cases "fires (map_of prices) a")
    case False
    then have "fire_loop prices (a # as) w = fire_loop prices as w"
      by (auto simp: fires_def split: option.splits)
    with False Cons show ?thesis by (auto simp: webhook_jobs_def)
  next
    case True
    then obtain p where p: "map_of prices (alert_symbol a) = Some p" "crossed a p"
      by (auto simp: fires_def split: option.splits)
    let ?j = "queued_job (rng w (drawn w)) JobAlertWebhook (alert_payload a p) 5 (clock w) 5 (clock w)"
    let ?w1 = "w\<lparr>drawn := Suc (drawn w), wdb := (wdb w)\<lparr>jobs := jobs (wdb w) @ [?j]\<rparr>\<rparr>"
    define w2 where "w2 = ?w1\<lparr>wdb := (wdb ?w1)\<lparr>alerts := mark {alert_id a} (alerts (wdb w))\<rparr>\<rparr>"
    have run: "fire_loop prices (a # as) w = fire_loop prices as w2"
      using p Cons.prems
      by (simp add: bindE_def attempt_def run_simps Enqueue_fresh(1) MarkTriggered_def q_mark_triggered_def
          row_upd_mark w2_def)
    have "fresh_ids w2" using Enqueue_fresh(2) [OF Cons.prems, of JobAlertWebhook "alert_payload a p" 5 "clock w" 5]
      by (simp add: w2_def fresh_ids_def)
    moreover have "faults w2 = []" using Cons.prems by (simp add: w2_def)
    ultimately obtain js w' where IH: "fire_loop prices as w2 = (Inr (), w')" "faults w' = []" "fresh_ids w'"
      "clock w' = clock w2"
      "wdb w' = (wdb w2)\<lparr>jobs := jobs (wdb w2) @ js,
                     alerts := mark (alert_id ` set (filter (fires (map_of prices)) as)) (alerts (wdb w2))\<rparr>"
      "map (\<lambda>j. (job_type j, job_payload j)) js = webhook_jobs (map_of prices) as"
      using Cons.IH by blast
    show ?thesis
      using IH True p unfolding run
      by (intro exI [of _ "?j # js"] exI [of _ w'])
        (simp add: w2_def mark_mark webhook_jobs_def queued_job_def)
  qed
qed

lemma fires_cong: "price (alert_symbol a) = price' (alert_symbol a) \<Longrightarrow> fires price a = fires price' a"
  by (simp add: fires_def)

text \<open>The alerts that a poll at this time fires.\<close>

definition due_alerts :: "mdsvc \<Rightarrow> time \<Rightarrow> db \<Rightarrow> alert list" where
  "due_alerts m now d = filter (\<lambda>a. \<not> triggered a \<and> fires (poll_price m now) a) (alerts d)"

lemma handlePollQuotes_run:
  assumes nf: "faults w = []" and fresh: "fresh_ids w"
  shows "\<exists>js i w'. handlePollQuotes env w = (Inr (), w') \<and> faults w' = [] \<and> clock w' = clock w \<and>
    i \<notin> job_id ` set (jobs (wdb w)) \<and>
    wdb w' = (wdb w)\<lparr>jobs := jobs (wdb w) @ js @
                       [queued_job i JobPollQuotes EmptyPayload 0 (clock w + 15000) 1000000 (clock w)],
                     alerts := mark (alert_id ` set (due_alerts (w_md env) (clock w) (wdb w))) (alerts (wdb w))\<rparr> \<and>
    map (\<lambda>j. (job_type j, job_payload j)) js =
      map (\<lambda>a. (JobAlertWebhook, alert_payload a (the (poll_price (w_md env) (clock w) (alert_symbol a)))))
        (due_alerts (w_md env) (clock w) (wdb w))"
proof -
  let ?m = "w_md env" and ?d = "wdb w"
  let ?active = "filter (\<lambda>a. \<not> triggered a) (alerts ?d)"
  let ?traded = "remdups (filter (\<lambda>i. i \<noteq> CASH) (map entry_instrument (entries ?d)))"
  let ?syms = "remdups (UniverseSymbols ?m @ ?traded @ remdups (map alert_symbol ?active))"
  obtain prices w1 where r: "refresh_loop ?m ?syms [] w = (Inr prices, w1)"
    and pm: "map_of prices = Map.empty ++ poll_map ?m (clock w) ?syms"
    and w1: "faults w1 = []" "wdb w1 = ?d" "clock w1 = clock w" "drawn w1 = drawn w" "rng w1 = rng w"
    using refresh_loop_run [OF nf, of ?m ?syms "[]"] by auto
  have price: "map_of prices (alert_symbol a) = poll_price ?m (clock w) (alert_symbol a)" if "a \<in> set ?active" for a
    using that by (auto simp: pm poll_map_def map_add_def split: option.splits)
  have fr1: "fresh_ids w1" using fresh w1 by (simp add: fresh_ids_def)
  obtain js w2 where f: "fire_loop prices ?active w1 = (Inr (), w2)" "faults w2 = []" "fresh_ids w2" "clock w2 = clock w1"
    "wdb w2 = (wdb w1)\<lparr>jobs := jobs (wdb w1) @ js,
                     alerts := mark (alert_id ` set (filter (fires (map_of prices)) ?active)) (alerts (wdb w1))\<rparr>"
    "map (\<lambda>j. (job_type j, job_payload j)) js = webhook_jobs (map_of prices) ?active"
    using fire_loop_run [OF w1(1) fr1] by blast
  have fires: "filter (fires (map_of prices)) ?active = due_alerts ?m (clock w) ?d"
  proof -
    have "filter (fires (map_of prices)) ?active = filter (fires (poll_price ?m (clock w))) ?active"
      by (rule filter_cong [OF refl]) (rule fires_cong, rule price)
    then show ?thesis by (simp add: due_alerts_def)
  qed
  have hooks: "webhook_jobs (map_of prices) ?active =
      map (\<lambda>a. (JobAlertWebhook, alert_payload a (the (poll_price ?m (clock w) (alert_symbol a)))))
        (due_alerts ?m (clock w) ?d)"
    unfolding webhook_jobs_def fires using price by (auto simp: due_alerts_def)
  let ?i = "rng w2 (drawn w2)"
  let ?j = "queued_job ?i JobPollQuotes EmptyPayload 0 (clock w2 + pollEvery) 1000000 (clock w2)"
  have la: "ListActive w1 = (Inr ?active, w1)"
    using w1(1) by (simp add: ListActive_def run_simps w1(2) [symmetric])
  have run: "handlePollQuotes env w = (Inr (), w2\<lparr>drawn := Suc (drawn w2),
      wdb := (wdb w2)\<lparr>jobs := jobs (wdb w2) @ [?j]\<rparr>\<rparr>)"
    using nf r f(1) la Enqueue_fresh(1) [OF f(2,3)]
    by (simp add: handlePollQuotes_def bindE_def DistinctSymbols_def Alert_Symbols_def run_simps)
  have "?i \<notin> job_id ` set (jobs ?d)" using f(3,5) w1(2) by (auto simp: fresh_ids_def)
  then show ?thesis
    by (intro exI [of _ js] exI [of _ ?i] exI [of _ "snd (handlePollQuotes env w)"])
      (simp add: run f(2,4,6) f(5) [unfolded fires w1(2)] hooks w1(3) pollEvery_def)
qed

text \<open>
  C35. Price alerts. When no call fails and identifiers are fresh, one run of \<open>handlePollQuotes\<close>
  enqueues, in the order of the alerts, exactly one webhook job for each untriggered alert whose
  symbol has a price at or beyond its threshold, carrying that price, marks exactly those alerts as
  triggered, and enqueues the next poll, due 15 seconds later. Alerts that are already triggered
  never fire again.
\<close>
theorem poll_fires_alerts:
  assumes "faults w = []" and "fresh_ids w"
  shows "\<exists>js i w'. handlePollQuotes env w = (Inr (), w') \<and>
    jobs (wdb w') = jobs (wdb w) @ js @
      [queued_job i JobPollQuotes EmptyPayload 0 (clock w + 15000) 1000000 (clock w)] \<and>
    map (\<lambda>j. (job_type j, job_payload j)) js =
      map (\<lambda>a. (JobAlertWebhook, alert_payload a (the (poll_price (w_md env) (clock w) (alert_symbol a)))))
        (due_alerts (w_md env) (clock w) (wdb w)) \<and>
    alerts (wdb w') = mark (alert_id ` set (due_alerts (w_md env) (clock w) (wdb w))) (alerts (wdb w))"
  using handlePollQuotes_run [OF assms, of env] by force

definition alert_world :: world where
  "alert_world = sample_world (empty_db\<lparr>alerts := [
     \<lparr>alert_id = 71, alert_symbol = ''INFY'', alert_direction = ''above'', threshold = 160000,
      webhook_url = ''u'', triggered = False, alert_created = 0\<rparr>,
     \<lparr>alert_id = 72, alert_symbol = ''INFY'', alert_direction = ''below'', threshold = 160000,
      webhook_url = ''u'', triggered = False, alert_created = 0\<rparr>]\<rparr>)"

theorem poll_fires_alerts_witness:
  "\<exists>w'. handlePollQuotes sample_env alert_world = (Inr (), w') \<and>
     map triggered (alerts (wdb w')) = [True, False]"
proof -
  have "fresh_ids alert_world"
    by (simp add: fresh_ids_def alert_world_def sample_world_def empty_db_def inj_def)
  moreover have "map triggered (mark (alert_id ` set (due_alerts (w_md sample_env) (clock alert_world)
      (wdb alert_world))) (alerts (wdb alert_world))) = [True, False]" by code_simp
  ultimately show ?thesis
    using poll_fires_alerts [of alert_world sample_env] by (force simp: alert_world_def)
qed

section \<open>The recurring poller\<close>

definition active_pollers :: "db \<Rightarrow> nat" where
  "active_pollers d = length (filter (active_of_type JobPollQuotes) (jobs d))"

lemma filter_row_upd_unique:
  assumes "distinct (map key xs)" and "x \<in> set xs" and "key x = k" and "P x" and "\<not> P (f x)"
  shows "Suc (length (filter P (row_upd key k f xs))) = length (filter P xs)"
  using assms
proof (induction xs)
  case (Cons y ys)
  show ?case
  proof (cases "key y = k")
    case True
    then have "y = x" using Cons.prems by (auto simp: image_iff)
    have "row_upd key k f ys = ys" using Cons.prems True by (intro row_upd_absent) auto
    with Cons.prems \<open>y = x\<close> show ?thesis by (simp add: row_upd_def)
  next
    case False
    with Cons show ?thesis by (auto simp: row_upd_def)
  qed
qed simp

lemma seedPoller_count:
  assumes "faults w = []" and "fresh_ids w"
  shows "active_pollers (wdb (snd (seedPoller w))) = max 1 (active_pollers (wdb w))"
proof (cases "active_pollers (wdb w)")
  case 0
  then have "seedPoller w = bindE (attempt (Enqueue JobPollQuotes EmptyPayload 0 (clock w) 1000000)) (\<lambda>_. ret ()) w"
    using assms(1) by (simp add: seedPoller_def bindE_def attempt_def HasActive_def run_simps active_pollers_def)
  with 0 show ?thesis
    using Enqueue_fresh(1) [OF assms]
    by (simp add: bindE_def attempt_def run_simps active_pollers_def active_of_type_def queued_job_def)
next
  case (Suc n)
  then have "0 < length (filter (active_of_type JobPollQuotes) (jobs (wdb w)))" by (simp add: active_pollers_def)
  then have "seedPoller w = (Inr (), w)"
    using assms(1) by (simp add: seedPoller_def bindE_def attempt_def HasActive_def run_simps)
  with Suc show ?thesis by simp
qed

lemma poll_turn_count:
  assumes nf: "faults w = []" and fresh: "fresh_ids w" and ok: "queue_ok K (wdb w)"
    and j: "j \<in> set (jobs (wdb w))" "job_type j = JobPollQuotes" "job_status j = ''inflight''"
  shows "active_pollers (wdb (snd (process env j w))) = active_pollers (wdb w)"
proof -
  let ?d = "wdb w" and ?P = "active_of_type JobPollQuotes"
  obtain js i w1 where run: "handlePollQuotes env w = (Inr (), w1)" and w1: "faults w1 = []"
    and d1: "jobs (wdb w1) = jobs ?d @ js @
               [queued_job i JobPollQuotes EmptyPayload 0 (clock w + 15000) 1000000 (clock w)]"
    and types: "map (\<lambda>j. (job_type j, job_payload j)) js =
      map (\<lambda>a. (JobAlertWebhook, alert_payload a (the (poll_price (w_md env) (clock w) (alert_symbol a)))))
        (due_alerts (w_md env) (clock w) ?d)"
    using handlePollQuotes_run [OF nf fresh, of env] by force
  have disp: "dispatch env j w = (Inr (), w1)"
    using run j(2) by (simp add: dispatch_def job_type_defs)
  have ok1: "distinct (map job_id (jobs (wdb w1)))"
    using keepsD [OF qinv.keeps_dispatch_q, of K w env j _ w1] disp ok by (simp add: on_tables_def queue_ok_def)
  have "map fst (map (\<lambda>j. (job_type j, job_payload j)) js) =
      map (\<lambda>_. JobAlertWebhook) (due_alerts (w_md env) (clock w) ?d)" unfolding types by simp
  then have "map job_type js = map (\<lambda>_. JobAlertWebhook) (due_alerts (w_md env) (clock w) ?d)"
    by (simp add: comp_def)
  then have "x \<in> set js \<Longrightarrow> job_type x = JobAlertWebhook" for x
    by (metis (no_types, lifting) image_iff list.set_map)
  then have none: "filter ?P js = []" by (auto simp: filter_empty_conv active_of_type_def job_type_defs)
  let ?done = "\<lambda>k. k\<lparr>job_status := ''done'', leased_until := None\<rparr>"
  have "Suc (length (filter ?P (row_upd job_id (job_id j) ?done (jobs (wdb w1))))) = length (filter ?P (jobs (wdb w1)))"
    by (rule filter_row_upd_unique [OF ok1, of j]) (use j d1 in \<open>simp_all add: active_of_type_def\<close>)
  moreover have "length (filter ?P (jobs (wdb w1))) = Suc (length (filter ?P (jobs ?d)))"
    by (simp add: d1 none) (simp add: active_of_type_def queued_job_def)
  moreover have "jobs (wdb (snd (process env j w))) = row_upd job_id (job_id j) ?done (jobs (wdb w1))"
    using w1 by (simp add: process_def bindE_def attempt_def disp finish_def Complete_def q_complete_def run_simps)
  ultimately show ?thesis by (simp add: active_pollers_def)
qed

text \<open>
  The recurring poll. Without failures and with fresh identifiers, \<open>seedPoller\<close> adds a poll job
  exactly when none is queued or in flight, and processing a claimed poll job keeps the number of
  active poll jobs: the finished one is replaced by exactly one that is queued for later.
\<close>
theorem poller_kept:
  assumes "faults w = []" and "fresh_ids w" and "queue_ok K (wdb w)"
  shows "active_pollers (wdb (snd (seedPoller w))) = max 1 (active_pollers (wdb w)) \<and>
    (\<forall>j \<in> set (jobs (wdb w)). job_type j = JobPollQuotes \<longrightarrow> job_status j = ''inflight'' \<longrightarrow>
       active_pollers (wdb (snd (process env j w))) = active_pollers (wdb w))"
  using seedPoller_count [OF assms(1,2)] poll_turn_count [OF assms] by blast

definition poll_world :: world where
  "poll_world = snd (Claim 30 (snd (seedPoller (sample_world empty_db))))"

definition poll_job :: job where
  "poll_job = lease 0 30 (queued_job 100 JobPollQuotes EmptyPayload 0 0 1000000 0)"

lemma poll_world_jobs: "jobs (wdb poll_world) = [poll_job]" "faults poll_world = []" "drawn poll_world = 1"
  "dead_letters (wdb poll_world) = []" "rng poll_world = (\<lambda>n. 100 + n)"
  by (simp_all add: poll_world_def poll_job_def seedPoller_def bindE_def attempt_def HasActive_def run_simps
      Enqueue_run empty_db_def active_of_type_def Claim_def q_claim_def next_job_def runnable_def row_upd_def
      lease_def queued_job_def sample_world_def)

theorem poller_kept_witness:
  "active_pollers (wdb (snd (process sample_env poll_job poll_world))) = 1"
proof -
  have "fresh_ids poll_world" by (auto simp: fresh_ids_def poll_world_jobs inj_def poll_job_def queued_job_def)
  moreover have "queue_ok {} (wdb poll_world)"
    by (simp add: queue_ok_def poll_world_jobs job_ok_def poll_job_def queued_job_def)
  ultimately show ?thesis
    using poller_kept [of poll_world "{}" sample_env]
    by (simp add: poll_world_jobs) (simp add: active_pollers_def poll_world_jobs poll_job_def queued_job_def
        active_of_type_def)
qed

text \<open>
  C27. The poller can be duplicated. If the call that marks a finished poll job as done fails, the job
  stays in flight although its successor is already queued; once its lease expires the reaper queues
  it again, and two poll jobs are active from then on.
\<close>
theorem poller_duplicated:
  "let w1 = snd (process sample_env poll_job (poll_world\<lparr>faults := replicate 4 False @ [True]\<rparr>));
       w2 = snd (reaper_turn (w1\<lparr>clock := 31000, faults := []\<rparr>))
   in active_pollers (wdb poll_world) = 1 \<and>
      map (\<lambda>j. (job_type j, job_status j)) (jobs (wdb w2)) =
        [(''poll_quotes'', ''queued''), (''poll_quotes'', ''queued'')]"
  by code_simp

end
