(* ===== verification/Trading_Views.thy ===== *)
theory Trading_Views
  imports Trading_Properties
begin

text \<open>
  Opening a portfolio, cancelling an order, and the derived views: the portfolio view with its
  positions and total, the audit trail, and the snapshot cache around them.
\<close>

section \<open>Opening a portfolio\<close>

text \<open>
  Opening a portfolio. A negative seed or any failure leaves every table as it was. Otherwise the
  portfolio is new, it is the only one added, its cash balance is exactly the seed, and no other
  balance of any portfolio changes.
\<close>
theorem CreatePortfolio_effect:
  "case CreatePortfolio name seedPaise w of
     (Inl e, w') \<Rightarrow> same_tables (wdb w) (wdb w')
   | (Inr i, w') \<Rightarrow> 0 \<le> seedPaise \<and> i \<notin> pf_id ` set (portfolios (wdb w)) \<and>
       map pf_id (portfolios (wdb w')) = map pf_id (portfolios (wdb w)) @ [i] \<and>
       (\<forall>p j. balance (wdb w') p j = balance (wdb w) p j + (if p = i \<and> j = CASH then seedPaise else 0))"
proof (cases "seedPaise < 0")
  case True
  then show ?thesis by (simp add: CreatePortfolio_def run_simps)
next
  case False
  let ?body = "bindE (Portfolio_Create name) (\<lambda>i.
           if 0 < seedPaise then
             bindE (LockForUpdate i) (\<lambda>_.
             bindE uuid_New (\<lambda>tid.
             bindE (Entry_Insert (seed_entry tid i seedPaise)) (\<lambda>_.
             bindE (BumpSeq i 1) (\<lambda>_. ret i))))
           else ret i)"
  have eq: "CreatePortfolio name seedPaise = runTx ?body" using False by (simp add: CreatePortfolio_def)
  obtain r w' where run: "runTx ?body w = (r, w')" by fastforce
  show ?thesis
  proof (cases r)
    case (Inl e)
    with run show ?thesis by (simp add: eq runTx_Inl_same)
  next
    case (Inr i)
    with run obtain bs w2 cs where b: "?body (w\<lparr>faults := bs\<rparr>) = (Inr i, w2)" and w': "w' = w2\<lparr>faults := cs\<rparr>"
      by (blast elim: runTx_InrE)
    from b obtain tid where "i \<notin> pf_id ` set (portfolios (wdb (w\<lparr>faults := bs\<rparr>)))"
      and "wdb w2 = open_db (clock (w\<lparr>faults := bs\<rparr>)) tid i name seedPaise (wdb (w\<lparr>faults := bs\<rparr>))"
      by (rule create_body_InrE)
    then have new: "i \<notin> pf_id ` set (portfolios (wdb w))"
      and d: "wdb w' = open_db (clock w) tid i name seedPaise (wdb w)" using w' by simp_all
    show ?thesis
      using Inr run False new by (simp add: eq d open_db_balance) (simp add: open_db_def Let_def)
  qed
qed

section \<open>Cancelling\<close>

text \<open>
  C34. Cancelling. \<open>CancelOrder\<close> succeeds only on a stored pending order, which it returns as
  cancelled, and its only change is that order's status and reason; with any error the tables are
  unchanged, and without failures the error is an invariant error for an order that is not pending
  and not-found for an unknown order.
\<close>
theorem CancelOrder_effect:
  "(case CancelOrder i w of
      (Inl e, w') \<Rightarrow> wdb w' = wdb w \<and>
        (faults w = [] \<longrightarrow>
          (case row_get order_id i (orders (wdb w)) of
             Some ord \<Rightarrow> e = InvariantError ''only pending orders can be cancelled'' \<and>
               order_status ord \<noteq> ''pending''
           | None \<Rightarrow> e = ErrNotFound))
    | (Inr ord', w') \<Rightarrow> \<exists>ord. row_get order_id i (orders (wdb w)) = Some ord \<and>
        order_status ord = ''pending'' \<and> ord' = ord\<lparr>order_status := ''cancelled''\<rparr> \<and>
        wdb w' = set_status_db i ''cancelled'' ''cancelled by user'' (wdb w))"
  by (auto simp: CancelOrder_def bindE_def Order_Get_def SetStatus_def sql_def ext_def q_get_order_def
      q_set_status_def set_status_db_def ret_def raise_def
      split: sum.splits prod.splits list.splits option.splits if_splits)

theorem CancelOrder_effect_witness:
  "fst (CancelOrder 7 (sample_world sample_db)) = Inr (sample_order\<lparr>order_status := ''cancelled''\<rparr>) \<and>
   fst (CancelOrder 8 (sample_world sample_db)) = Inl ErrNotFound"
proof -
  have r: "isl (fst (CancelOrder 8 (sample_world sample_db)))"
    "\<not> isl (fst (CancelOrder 7 (sample_world sample_db)))" by code_simp+
  have n: "row_get order_id 8 (orders sample_db) = None" by code_simp
  show ?thesis
    using CancelOrder_effect [where i = 7 and w = "sample_world sample_db"]
      CancelOrder_effect [where i = 8 and w = "sample_world sample_db"]
      r sample_row(1) n
    by (auto split: prod.splits sum.splits)
qed

section \<open>The audit trail\<close>

text \<open>
  C27. The audit trail is complete and in order: without failures, \<open>History\<close> of a portfolio returns every
  entry of its event stream, numbered 1, 2, .. up to the sequence counter without a gap or a
  repetition, so that replaying the list gives every current balance, and at most 100 orders of that
  portfolio, newest first.
\<close>
theorem History_complete:
  assumes "ledger_inv (wdb w)" and "faults w = []" and "p \<in> set (portfolios (wdb w))"
  shows "\<exists>es os. History (pf_id p) w = (Inr (es, os), w) \<and>
    map entry_seq es = [1..seq_counter p] \<and> es = portfolio_entries (pf_id p) None (wdb w) \<and>
    (\<forall>i. net es i = balance (wdb w) (pf_id p) i) \<and>
    length os \<le> 100 \<and> sorted (map (\<lambda>r. - order_created r) os) \<and>
    set os \<subseteq> {r \<in> set (orders (wdb w)). order_portfolio r = pf_id p}"
proof -
  let ?es = "portfolio_entries (pf_id p) None (wdb w)"
  let ?os = "take 100 (sort_key (\<lambda>r. - order_created r)
               (filter (\<lambda>r. order_portfolio r = pf_id p) (orders (wdb w))))"
  have seqs: "map entry_seq ?es = [1..seq_counter p]"
    using assms(1,3) by (simp add: ledger_inv_def seqs_ok_def)
  have "sorted (map entry_seq ?es)" by (simp add: seqs)
  then have "sort_key entry_seq ?es = ?es" by (rule sort_key_id_if_sorted)
  then have run: "History (pf_id p) w = (Inr (?es, ?os), w)"
    using assms(2)
    by (simp add: History_def bindE_def Entry_List_def ListByPortfolio_def run_simps portfolio_entries_def)
  have "sorted (map (\<lambda>r. - order_created r) ?os)"
    by (simp only: take_map [symmetric] sorted_sort_key sorted_wrt_take)
  moreover have "set ?os \<subseteq> {r \<in> set (orders (wdb w)). order_portfolio r = pf_id p}"
    by (rule subset_trans [OF set_take_subset]) auto
  ultimately show ?thesis
    using run seqs by (intro exI [of _ ?es] exI [of _ ?os]) (simp add: balance_def)
qed

theorem History_complete_witness:
  "\<exists>es os. History 4 (sample_world sample_db) = (Inr (es, os), sample_world sample_db) \<and>
     map entry_seq es = [1] \<and> net es CASH = 1000000"
  using History_complete [of "sample_world sample_db" "\<lparr>pf_id = 4, pf_name = ''demo'', pf_created = 0, seq_counter = 1\<rparr>"]
    sample_inv row_get_SomeD [OF sample_row(2)] sample_balance [of 4 CASH]
  by auto

section \<open>The portfolio view\<close>

text \<open>The price a view uses: the cached quote, else the provider's, else 0.\<close>

definition price_at :: "mdsvc \<Rightarrow> world \<Rightarrow> string \<Rightarrow> int" where
  "price_at m w i =
     (case rlive (clock w) (wredis w) (quoteKey i) of
        Some (RQuote q) \<Rightarrow> quote_price q
      | _ \<Rightarrow> (case prov_Quote (md_provider m) i (clock w) of Inl _ \<Rightarrow> 0 | Inr p \<Rightarrow> p))"

definition spec_position :: "(string \<Rightarrow> int) \<Rightarrow> string \<times> int \<Rightarrow> position" where
  "spec_position price h = \<lparr>pos_instrument = fst h, pos_quantity = snd h, pos_price = price (fst h),
     pos_market_value = wrap64 (snd h * price (fst h))\<rparr>"

lemma GetQuote_no_quote:
  assumes "faults w = []" and "\<And>q. rlive (clock w) (wredis w) (quoteKey s) \<noteq> Some (RQuote q)"
  shows "\<exists>e. GetQuote s w = (Inl e, w)"
  using assms by (auto simp: GetQuote_def redis_get_def bindE_def run_simps split: option.splits rval.splits)

lemma price_at_other:
  "k = quoteKey i \<Longrightarrow> j \<noteq> i \<Longrightarrow> price_at m (w\<lparr>wredis := (wredis w)(k \<mapsto> v)\<rparr>) j = price_at m w j"
  by (simp add: price_at_def rlive_def cong: option.case_cong rval.case_cong)

lemma MD_Quote_price:
  assumes nf: "faults w = []" and run: "MD_Quote m i w = (r, w')"
  shows "(case r of Inl _ \<Rightarrow> 0 | Inr q \<Rightarrow> quote_price q) = price_at m w i \<and>
    (\<forall>j. j \<noteq> i \<longrightarrow> price_at m w' j = price_at m w j) \<and> faults w' = []"
proof (cases "\<exists>q. rlive (clock w) (wredis w) (quoteKey i) = Some (RQuote q)")
  case True
  then obtain q where "rlive (clock w) (wredis w) (quoteKey i) = Some (RQuote q)" ..
  with run nf show ?thesis by (auto simp: MD_Quote_hit price_at_def)
next
  case False
  with nf obtain e where g: "GetQuote i w = (Inl e, w)" using GetQuote_no_quote by blast
  have pr: "price_at m w i = (case prov_Quote (md_provider m) i (clock w) of Inl _ \<Rightarrow> 0 | Inr p \<Rightarrow> p)"
    using False by (auto simp: price_at_def split: option.splits rval.splits)
  show ?thesis
  proof (cases "prov_Quote (md_provider m) i (clock w)")
    case (Inl a)
    with run g nf pr show ?thesis by (auto simp: MD_Quote_def bindE_def attempt_def run_simps)
  next
    case (Inr price)
    with run g nf pr show ?thesis
      by (auto simp: MD_Quote_def bindE_def attempt_def run_simps Let_def SetQuote_def redis_set_def price_at_other)
  qed
qed

definition held :: "string \<times> int \<Rightarrow> bool" where
  "held h \<longleftrightarrow> fst h \<noteq> CASH \<and> snd h \<noteq> 0"

lemma positions_loop_run:
  assumes "faults w = []" and "distinct (map fst h)" and "in_int64 tot"
    and "\<And>i. i \<in> fst ` set h \<Longrightarrow> price_at m w i = price i"
  shows "\<exists>w'. positions_loop m h ps tot w =
    (Inr (ps @ map (spec_position price) (filter held h),
          wrap64 (tot + (\<Sum>x \<leftarrow> filter held h. pos_market_value (spec_position price x)))), w') \<and> faults w' = []"
  using assms
proof (induction h arbitrary: ps tot w)
  case Nil
  then show ?case by (simp add: run_simps)
next
  case (Cons x h)
  obtain i qty where x: "x = (i, qty)" by fastforce
  show ?case
  proof (cases "held x")
    case False
    then show ?thesis using Cons.IH [of w tot ps] Cons.prems by (auto simp: x held_def)
  next
    case True
    obtain r w1 where q: "MD_Quote m i w = (r, w1)" by fastforce
    note step = MD_Quote_price [OF Cons.prems(1) q]
    let ?mv = "wrap64 (qty * price i)"
    have prices: "price_at m w1 j = price j" if "j \<in> fst ` set h" for j
      using that step Cons.prems(2,4) by (metis fst_conv image_eqI list.set_intros(2) distinct.simps(2) list.simps(9) set_map x)
    have "price_at m w i = price i" using Cons.prems(4) by (simp add: x)
    then have pr: "(case r of Inl _ \<Rightarrow> 0 | Inr q \<Rightarrow> quote_price q) = price i" using step by simp
    have run: "positions_loop m (x # h) ps tot w =
      positions_loop m h (ps @ [spec_position price x]) (wrap64 (tot + ?mv)) w1"
      using True by (simp add: x held_def bindE_def attempt_def q pr spec_position_def Let_def)
    obtain w' where "positions_loop m h (ps @ [spec_position price x]) (wrap64 (tot + ?mv)) w1 =
      (Inr ((ps @ [spec_position price x]) @ map (spec_position price) (filter held h),
        wrap64 (wrap64 (tot + ?mv) + (\<Sum>x \<leftarrow> filter held h. pos_market_value (spec_position price x)))), w')"
      and "faults w' = []"
      using Cons.IH [of w1 "wrap64 (tot + ?mv)" "ps @ [spec_position price x]"] step Cons.prems(2) prices
      by auto
    with True show ?thesis
      unfolding run by (simp add: x spec_position_def add.assoc wrap64_add_mid del: positions_loop.simps)
  qed
qed

lemma held_rows:
  "set (filter held (map (\<lambda>i. (i, net es i)) (remdups (map entry_instrument es)))) =
     {(i, net es i) |i. i \<noteq> CASH \<and> net es i \<noteq> 0}"
proof -
  have "(i, net es i) \<in> (\<lambda>i. (i, net es i)) ` entry_instrument ` set es" if "net es i \<noteq> 0" for i
    using that net_absent [of i es] by blast
  then show ?thesis by (auto simp: held_def)
qed

text \<open>The view as a function of the event stream and a price list.\<close>

definition view_ok :: "entry list \<Rightarrow> (string \<Rightarrow> int) \<Rightarrow> portfolio_view \<Rightarrow> bool" where
  "view_ok es price v \<longleftrightarrow>
     view_cash v = net es CASH \<and>
     set (view_positions v) = {spec_position price (i, net es i) |i. i \<noteq> CASH \<and> net es i \<noteq> 0} \<and>
     sorted_wrt (<) (map pos_instrument (view_positions v)) \<and>
     view_market_value v = wrap64 (\<Sum>x \<leftarrow> view_positions v. pos_market_value x) \<and>
     view_total_value v = wrap64 (view_cash v + view_market_value v)"

lemma sum_list_sort_key: "(\<Sum>x \<leftarrow> sort_key k xs. (f x :: int)) = (\<Sum>x \<leftarrow> xs. f x)"
proof -
  have "mset (map f (sort_key k xs)) = mset (map f xs)" by simp
  then show ?thesis by (metis sum_mset_sum_list)
qed

lemma strictly_sorted_sort_key:
  "distinct (map f xs) \<Longrightarrow> sorted_wrt (<) (map f (sort_key f xs :: 'a list) :: 'b :: linorder list)"
  by (simp add: strict_sorted_iff distinct_map inj_on_def)

lemma compute_view_run:
  assumes nf: "faults w = []" and ex: "p \<in> pf_id ` set (portfolios (wdb w))"
    and fits: "\<And>i. in_int64 (net (portfolio_entries p asOf (wdb w)) i)"
  shows "\<exists>v w'. compute_view m p asOf w = (Inr v, w') \<and> view_portfolio v = p \<and>
    view_ok (portfolio_entries p asOf (wdb w)) (price_at m w) v \<and> faults w' = []"
proof -
  let ?es = "portfolio_entries p asOf (wdb w)"
  define h where "h = map (\<lambda>i. (i, net ?es i)) (remdups (map entry_instrument ?es))"
  have hold: "Holdings p asOf w = (Inr h, w)"
    using nf fits by (simp add: Holdings_def run_simps q_holdings_def Let_def h_def list_all_iff)
  have dist: "distinct (map fst h)" by (simp add: h_def comp_def)
  obtain w' where loop: "positions_loop m h [] 0 w =
      (Inr (map (spec_position (price_at m w)) (filter held h),
        wrap64 (\<Sum>x \<leftarrow> filter held h. pos_market_value (spec_position (price_at m w) x))), w')"
    and nf': "faults w' = []"
    using positions_loop_run [OF nf dist, of 0 m "price_at m w" "[]"] by (auto simp: in_int64_def)
  let ?ps = "map (spec_position (price_at m w)) (filter held h)"
  let ?mv = "wrap64 (\<Sum>x \<leftarrow> ?ps. pos_market_value x)"
  let ?v = "\<lparr>view_portfolio = p, view_cash = map_at h CASH, view_positions = sort_key pos_instrument ?ps,
     view_market_value = ?mv, view_total_value = wrap64 (map_at h CASH + ?mv),
     view_as_of = (case asOf of None \<Rightarrow> clock w | Some t \<Rightarrow> t)\<rparr>"
  have run: "compute_view m p asOf w = (Inr ?v, w')"
    using nf ex hold loop
    by (simp add: compute_view_def bindE_def Portfolio_Exists_def run_simps comp_def)
  have names: "map pos_instrument ?ps = map fst (filter held h)" by (simp add: spec_position_def comp_def)
  have "distinct (map pos_instrument ?ps)" unfolding names using dist by (simp add: distinct_map_filter)
  then have sorted: "sorted_wrt (<) (map pos_instrument (sort_key pos_instrument ?ps))"
    by (rule strictly_sorted_sort_key)
  have "set ?ps = {spec_position (price_at m w) (i, net ?es i) |i. i \<noteq> CASH \<and> net ?es i \<noteq> 0}"
    using held_rows [of ?es] by (auto simp: h_def)
  moreover have "map_at h CASH = net ?es CASH" by (simp add: h_def map_at_rows)
  ultimately have "view_ok ?es (price_at m w) ?v"
    using sorted by (simp add: view_ok_def sum_list_sort_key)
  with run nf' show ?thesis by (intro exI [of _ ?v] exI [of _ w']) simp
qed

text \<open>
  C23. The portfolio view is a function of the event stream and the prices. Without failures and with
  balances in range, a point-in-time query, or a current query that misses the snapshot cache,
  returns a view whose cash is the replayed cash balance, whose positions are exactly the other
  instruments with a non-zero replayed balance, strictly ordered by name (so the iteration order of
  the holdings does not matter), each valued at its price, with the market value and the total as
  the sums (modulo \<open>2^64\<close>). A point-in-time query replays only the entries up to that time.
\<close>
theorem Portfolio_view:
  assumes nf: "faults w = []" and ex: "p \<in> pf_id ` set (portfolios (wdb w))"
    and fits: "\<And>i. in_int64 (net (portfolio_entries p asOf (wdb w)) i)"
    and miss: "asOf \<noteq> None \<or> rlive (clock w) (wredis w) (snapKey p) = None"
  shows "\<exists>v w'. Portfolio m p asOf w = (Inr v, w') \<and> view_portfolio v = p \<and>
    view_ok (portfolio_entries p asOf (wdb w)) (price_at m w) v"
proof -
  obtain v w' where cv: "compute_view m p asOf w = (Inr v, w')" "view_portfolio v = p"
    "view_ok (portfolio_entries p asOf (wdb w)) (price_at m w) v" "faults w' = []"
    using compute_view_run [OF nf ex fits, of m] by blast
  show ?thesis
  proof (cases asOf)
    case None
    then have "GetSnapshot p w = (Inl ErrMiss, w)"
      using miss nf by (simp add: GetSnapshot_def redis_get_def bindE_def run_simps)
    with None cv show ?thesis
      by (simp add: Portfolio_def bindE_def attempt_def SetSnapshot_def redis_set_def run_simps)
  next
    case (Some t)
    with cv show ?thesis by (simp add: Portfolio_def)
  qed
qed

theorem Portfolio_view_witness:
  "\<exists>v w'. Portfolio sample_md 4 None (sample_world sample_db) = (Inr v, w') \<and> view_cash v = 1000000 \<and>
     view_positions v = [] \<and> view_total_value v = 1000000"
proof -
  have b: "net (portfolio_entries 4 None sample_db) i = (if i = CASH then 1000000 else 0)" for i
    using sample_balance [of 4 i] by (simp add: balance_def)
  have "\<exists>v w'. Portfolio sample_md 4 None (sample_world sample_db) = (Inr v, w') \<and> view_portfolio v = 4 \<and>
    view_ok (portfolio_entries 4 None sample_db) (price_at sample_md (sample_world sample_db)) v"
    using Portfolio_view [of "sample_world sample_db" 4 None sample_md] row_get_SomeD [OF sample_row(2)]
    by (force simp: b in_int64_def sample_world_def rlive_def)
  then obtain v w' where v: "Portfolio sample_md 4 None (sample_world sample_db) = (Inr v, w')"
    "view_ok (portfolio_entries 4 None sample_db) (price_at sample_md (sample_world sample_db)) v" by blast
  then have "set (view_positions v) = {}" "view_cash v = 1000000" by (auto simp: view_ok_def b)
  with v show ?thesis by (auto simp: view_ok_def in_int64_def)
qed

section \<open>Snapshots\<close>

lemma book_trade_snapshot:
  assumes "faults w = []" and "book_trade ord price cost sq w = (Inr x, w')"
  shows "wredis w' (snapKey (order_portfolio ord)) = None"
  using assms
  by (auto simp: book_trade_def bindE_def run_simps Let_def Entry_Insert_def BumpSeq_def SetFilled_def
      Enqueue_def InvalidateSnapshot_run q_insert_entry_def q_bump_seq_def q_set_filled_def q_insert_job_def
      split: if_splits option.splits)

lemma fill_tx_snapshot:
  assumes nf: "faults w = []" and run: "fill_tx ord price w = (Inr x, w')"
  shows "wredis w' (snapKey (order_portfolio ord)) = None \<or>
    (\<exists>why. wdb w' = set_status_db (order_id ord) ''rejected'' why (wdb w))"
proof -
  obtain sq h where "LockForUpdate (order_portfolio ord) w = (Inr sq, w)"
    and "Holdings (order_portfolio ord) None w = (Inr h, w)"
    using nf run
    by (auto simp: fill_tx_def bindE_def LockForUpdate_def Holdings_def q_lock_portfolio_def
        q_holdings_def Let_def run_simps split: option.splits if_splits)
  then show ?thesis
    using run nf book_trade_snapshot [OF nf]
    by (auto simp: fill_tx_def bindE_def Let_def SetStatus_run split: if_splits)
qed

text \<open>
  A trade drops the cached snapshot: when a pending order is filled and no call failed, the cache
  holds no snapshot of its portfolio when \<open>ExecuteOrder\<close> returns, so the next view is computed from
  the event stream that includes the trade.
\<close>
theorem trade_drops_snapshot:
  assumes inv: "ledger_inv (wdb w)" and nf: "faults w = []"
    and row: "row_get order_id i (orders (wdb w)) = Some ord" and pend: "order_status ord = ''pending''"
    and run: "ExecuteOrder m i w = (Inr (), w')"
    and row': "row_get order_id i (orders (wdb w')) = Some ord'" "order_status ord' = ''filled''"
  shows "rlive now (wredis w') (snapKey (order_portfolio ord)) = None"
proof -
  obtain q w1 where q: "MD_Quote m (order_instrument ord) w = (Inr q, w1)"
    using nf row pend run
    by (auto simp: ExecuteOrder_def bindE_def attempt_def Order_Get_run run_simps split: sum.splits prod.splits)
  note fr = MD_Quote_frame [OF q]
  have st: "order_static (wdb w) ord" using orders_static [OF inv row] .
  have ex: "execute_priced ord (quote_price q) w1 = (Inr (), w')"
    using ExecuteOrder_run [OF nf row pend q] run by simp
  have id: "order_id ord = i" using row_get_SomeD [OF row] by simp
  have nofill: False if "wdb w' = set_status_db (order_id ord) ''rejected'' why (wdb w1)" for why
    using that row row' fr(4) by (auto simp: row_get_set_status id)
  have tx: "runTx (fill_tx ord (exec_price ord (quote_price q))) w1 = (Inr (), w')"
    using ex nofill by (auto simp: execute_priced_eq [OF st] split: if_splits elim!: reject_InrE)
  have "faults w1 = []" using fr(5) nf by simp
  with tx obtain w2 bs where "fill_tx ord (exec_price ord (quote_price q)) w1 = (Inr (), w2)" "w' = w2\<lparr>faults := bs\<rparr>"
    by (auto simp: run_simps split: prod.splits sum.splits dest!: ext_ret_Inr)
  with fill_tx_snapshot [OF \<open>faults w1 = []\<close>] nofill have "wredis w' (snapKey (order_portfolio ord)) = None" by force
  then show ?thesis by (simp add: rlive_def)
qed

definition cached_world :: world where
  "cached_world = (sample_world sample_db)\<lparr>wredis := (wredis (sample_world sample_db))(snapKey 4 \<mapsto>
     (RSnapshot \<lparr>view_portfolio = 4, view_cash = 1000000, view_positions = [], view_market_value = 0,
        view_total_value = 1000000, view_as_of = 0\<rparr>, Some 5000))\<rparr>"

theorem trade_drops_snapshot_witness:
  "rlive 0 (wredis cached_world) (snapKey 4) \<noteq> None \<and>
   rlive 0 (wredis (snd (ExecuteOrder sample_md 7 cached_world))) (snapKey 4) = None"
proof -
  let ?w' = "snd (ExecuteOrder sample_md 7 cached_world)"
  have run: "fst (ExecuteOrder sample_md 7 cached_world) = Inr ()"
    and st: "map_option order_status (row_get order_id 7 (orders (wdb ?w'))) = Some ''filled''"
    and c: "rlive 0 (wredis cached_world) (snapKey 4) \<noteq> None" by code_simp+
  from st obtain ord' where "row_get order_id 7 (orders (wdb ?w')) = Some ord'" "order_status ord' = ''filled''"
    by auto
  with run have "rlive 0 (wredis ?w') (snapKey (order_portfolio sample_order)) = None"
    by (intro trade_drops_snapshot [where w = cached_world and m = sample_md and i = 7 and ord' = ord'])
      (simp_all add: cached_world_def sample_inv sample_row prod_eq_iff)
  with c show ?thesis by simp
qed

end
