(* ===== verification/Trading_Concurrency.thy ===== *)
theory Trading_Concurrency
  imports Worker_Properties Trading_Views
begin

text \<open>
  The API and the workers running at the same time. A \<open>thread\<close> is a call in progress, stopped between
  two of its database or cache operations: an execution that has read its order, looked up a price,
  or committed and has its job to update; a cancellation or a settlement that has read its order; a
  submission that found no order with its key; a view that was computed and is about to be cached.
  \<open>thread_step\<close> performs the next operation. A transaction is one operation: the row lock of
  \<open>LockForUpdate\<close> serialises the transactions of a portfolio.

  \<open>sys_step\<close> interleaves threads, new calls, claims, the reaper, crashes, failures and time in any way.
  Threads that run undisturbed do what \<open>process\<close> does (\<open>thread_runs_process\<close>).
\<close>

datatype thread =
    TExec job uuid
  | TQuote job order
  | TFill job order int
  | TSettle job uuid
  | TSettleWrite job uuid
  | TOther job
  | TFinish job "err + unit"
  | TCancel uuid
  | TPlace place_req
  | TSnap portfolio_view

definition start :: "job \<Rightarrow> thread" where
  "start j =
     (if job_type j = JobExecuteOrder then
        (case job_payload j of OrderPayload i \<Rightarrow> TExec j i | _ \<Rightarrow> TFinish j (Inl ErrDecode))
      else if job_type j = JobSettle then
        (case job_payload j of OrderPayload i \<Rightarrow> TSettle j i | _ \<Rightarrow> TFinish j (Inl ErrDecode))
      else TOther j)"

fun thread_step :: "wenv \<Rightarrow> thread \<Rightarrow> world \<Rightarrow> thread list \<times> world" where
  "thread_step env (TExec j i) w =
     (case Order_Get i w of
        (Inl e, w') \<Rightarrow> ([TFinish j (Inl e)], w')
      | (Inr ord, w') \<Rightarrow>
          (if order_status ord \<noteq> ''pending'' then ([TFinish j (Inr ())], w') else ([TQuote j ord], w')))"
| "thread_step env (TQuote j ord) w =
     (case MD_Quote (w_md env) (order_instrument ord) w of
        (Inl e, w') \<Rightarrow> ([TFinish j (Inl (ErrWrap ''price lookup failed'' e))], w')
      | (Inr q, w') \<Rightarrow> ([TFill j ord (quote_price q)], w'))"
| "thread_step env (TFill j ord price) w =
     (case execute_priced ord price w of (r, w') \<Rightarrow> ([TFinish j r], w'))"
| "thread_step env (TSettle j i) w =
     (case Order_Get i w of
        (Inl e, w') \<Rightarrow> ([TFinish j (Inl e)], w')
      | (Inr ord, w') \<Rightarrow>
          (if order_status ord = ''filled'' then ([TSettleWrite j i], w') else ([TFinish j (Inr ())], w')))"
| "thread_step env (TSettleWrite j i) w =
     (case SetStatus i ''settled'' (Some ''settled (T+1)'') w of (r, w') \<Rightarrow> ([TFinish j r], w'))"
| "thread_step env (TOther j) w = (case dispatch env j w of (r, w') \<Rightarrow> ([TFinish j r], w'))"
| "thread_step env (TFinish j r) w = ([], snd (finish env j r w))"
| "thread_step env (TCancel i) w = ([], snd (SetStatus i ''cancelled'' (Some ''cancelled by user'') w))"
| "thread_step env (TPlace req) w = ([], snd (place_new req (eff_type req) w))"
| "thread_step env (TSnap v) w = ([], snd (SetSnapshot v w))"

type_synonym sys = "world \<times> thread list"

inductive sys_step :: "wenv \<Rightarrow> sys \<Rightarrow> sys \<Rightarrow> bool" for env :: wenv where
  claim: "Claim (leaseSecs env) w = (r, w') \<Longrightarrow>
    sys_step env (w, ts) (w', ts @ (case r of Inr (Some j) \<Rightarrow> [start j] | _ \<Rightarrow> []))"
| thread: "thread_step env t w = (us, w') \<Longrightarrow> sys_step env (w, ts @ t # vs) (w', ts @ us @ vs)"
| crash: "sys_step env (w, ts @ t # vs) (w, ts @ vs)"
| cancel: "Order_Get i w = (r, w') \<Longrightarrow>
    sys_step env (w, ts) (w', ts @ (case r of
      Inr ord \<Rightarrow> (if order_status ord = ''pending'' then [TCancel i] else []) | Inl _ \<Rightarrow> []))"
| place: "valid_req req \<Longrightarrow> find_existing (req_idempotency_key req) w = (r, w') \<Longrightarrow>
    sys_step env (w, ts) (w', ts @ (case r of Inr None \<Rightarrow> [TPlace req] | _ \<Rightarrow> []))"
| create: "sys_step env (w, ts) (snd (CreatePortfolio name seedPaise w), ts)"
| view: "compute_view (w_md env) p None w = (r, w') \<Longrightarrow>
    sys_step env (w, ts) (w', ts @ (case r of Inr v \<Rightarrow> [TSnap v] | Inl _ \<Rightarrow> []))"
| reap: "sys_step env (w, ts) (snd (reaper_turn w), ts)"
| replay: "sys_step env (w, ts) (snd (Replay i w), ts)"
| seed: "sys_step env (w, ts) (snd (seedPoller w), ts)"
| pass: "0 \<le> n \<Longrightarrow> sys_step env (w, ts) (w\<lparr>clock := clock w + n, faults := bs\<rparr>, ts)"

text \<open>Running the only thread to its end.\<close>

fun drain :: "nat \<Rightarrow> wenv \<Rightarrow> thread list \<Rightarrow> world \<Rightarrow> world" where
  "drain 0 env ts w = w"
| "drain (Suc n) env [] w = w"
| "drain (Suc n) env (t # ts) w = (case thread_step env t w of (us, w') \<Rightarrow> drain n env (us @ ts) w')"

text \<open>
  The threads are the code: a claimed job whose thread runs undisturbed to its end (at most four
  operations) leaves the world exactly as \<open>process\<close> does.
\<close>
theorem thread_runs_process: "drain 4 env [start j] w = snd (process env j w)"
  by (auto simp: start_def process_def dispatch_def handleExecuteOrder_def handleSettle_def ExecuteOrder_def
      bindE_def attempt_def eval_nat_numeral ret_def raise_def job_type_defs
      split: prod.splits sum.splits payload.splits if_splits)

section \<open>Operations that leave the event stream alone\<close>

text \<open>Time, the portfolios and the entries stand still.\<close>

definition still :: "time \<Rightarrow> portfolio list \<Rightarrow> entry list \<Rightarrow> world \<Rightarrow> bool" where
  "still c ps es w \<longleftrightarrow> clock w = c \<and> portfolios (wdb w) = ps \<and> entries (wdb w) = es"

lemma keeps_still [keeps_intros]:
  "keeps (still c ps es) uuid_New"
  "keeps (still c ps es) (redis_get k)"
  "keeps (still c ps es) (redis_set k v ttl)"
  "keeps (still c ps es) (redis_del k)"
  by (auto simp: keeps_def still_def uuid_New_def redis_get_def redis_set_def redis_del_def ext_def
      split: list.splits)

lemma keeps_still_sql:
  "(\<And>now d x d'. q now d = Inr (x, d') \<Longrightarrow> portfolios d' = portfolios d \<and> entries d' = entries d) \<Longrightarrow>
     keeps (still c ps es) (sql q)"
  by (auto simp: keeps_def still_def sql_def ext_def split: list.splits sum.splits prod.splits)

lemma keeps_still_repo [keeps_intros]:
  "keeps (still c ps es) (Order_Get i)"
  "keeps (still c ps es) (GetByIdempotencyKey k)"
  "keeps (still c ps es) (Portfolio_Exists i)"
  "keeps (still c ps es) (Holdings i asOf)"
  "keeps (still c ps es) (SetStatus i st why)"
  "keeps (still c ps es) (Order_Create ord)"
  "keeps (still c ps es) (Claim n)"
  "keeps (still c ps es) (Complete i)"
  "keeps (still c ps es) (Retry i t msg)"
  "keeps (still c ps es) (HasActive typ)"
  "keeps (still c ps es) DistinctSymbols"
  "keeps (still c ps es) Alert_Symbols"
  "keeps (still c ps es) ListActive"
  "keeps (still c ps es) (MarkTriggered a)"
  "keeps (still c ps es) (sql (q_insert_dead j msg))"
  "keeps (still c ps es) (sql (q_delete_job i))"
  "keeps (still c ps es) (sql (q_replay i))"
  "keeps (still c ps es) (sql q_reap_dead)"
  "keeps (still c ps es) (sql q_reap_requeue)"
  "keeps (still c ps es) (sql (q_insert_job i typ pl prio runAt maxAtt))"
  unfolding Order_Get_def GetByIdempotencyKey_def Portfolio_Exists_def Holdings_def SetStatus_def Order_Create_def
    Claim_def Complete_def Retry_def HasActive_def DistinctSymbols_def Alert_Symbols_def ListActive_def
    MarkTriggered_def
  by (rule keeps_still_sql,
      auto simp: q_get_order_def q_get_by_key_def q_holdings_def q_set_status_def q_insert_order_def q_claim_def
        q_complete_def q_retry_def q_mark_triggered_def q_insert_dead_def q_delete_job_def q_replay_def
        q_reap_dead_def q_reap_requeue_def q_insert_job_def Let_def
      split: option.splits if_splits)+

lemma keeps_still_Enqueue [keeps_intros]: "keeps (still c ps es) (Enqueue typ pl prio runAt maxAtt)"
  unfolding Enqueue_def by (intro keeps_intros)

lemma keeps_still_MD_Quote [keeps_intros]: "keeps (still c ps es) (MD_Quote m s)"
  unfolding MD_Quote_def GetQuote_def SetQuote_def Let_def
  by (rule keeps_bindE) (auto intro!: keeps_intros split: sum.splits option.splits rval.splits)

lemma keeps_still_refresh [keeps_intros]: "keeps (still c ps es) (refresh_loop m ss prices)"
proof (induction ss arbitrary: prices)
  case (Cons s ss)
  then show ?case
    unfolding refresh_loop.simps Refresh_def SetQuote_def Let_def
    by (auto intro!: keeps_intros split: sum.splits)
qed (simp add: keeps_ret)

lemma keeps_still_fire [keeps_intros]: "keeps (still c ps es) (fire_loop prices as)"
  by (induction as) (auto intro!: keeps_intros split: option.splits sum.splits)

lemma keeps_still_positions [keeps_intros]: "keeps (still c ps es) (positions_loop m h rs tot)"
proof (induction h arbitrary: rs tot)
  case (Cons x h)
  then show ?case by (cases x) (auto intro!: keeps_intros simp: Let_def)
qed (simp add: keeps_ret)

lemma keeps_still_finish [keeps_intros]: "keeps (still c ps es) (finish env j r)"
  unfolding finish_def MoveToDead_def by (auto intro!: keeps_intros split: sum.splits)

lemma keeps_still_queue [keeps_intros]:
  "keeps (still c ps es) reaper_turn" "keeps (still c ps es) (Replay i)" "keeps (still c ps es) seedPoller"
  unfolding reaper_turn_def ReapExpired_def Replay_def seedPoller_def
  by (auto intro!: keeps_intros split: sum.splits)

lemma keeps_still_find [keeps_intros]: "keeps (still c ps es) (find_existing k)"
  unfolding find_existing_def by (auto intro!: keeps_intros split: sum.splits)

lemma keeps_still_view [keeps_intros]:
  "keeps (still c ps es) (compute_view m p t)" "keeps (still c ps es) (SetSnapshot v)"
  unfolding compute_view_def SetSnapshot_def by (auto intro!: keeps_intros split: prod.splits)

lemma keeps_still_other:
  "job_type j \<noteq> JobExecuteOrder \<Longrightarrow> job_type j \<noteq> JobSettle \<Longrightarrow> keeps (still c ps es) (dispatch env j)"
  unfolding dispatch_def handlePollQuotes_def handleAlertWebhook_def
  by (auto intro!: keeps_intros split: payload.splits sum.splits)

section \<open>The queue does not touch the ledger\<close>

lemma keeps_ledger_queue [keeps_intros]:
  "keeps (on_tables ledger_inv) (Claim n)"
  "keeps (on_tables ledger_inv) (Complete i)"
  "keeps (on_tables ledger_inv) (Retry i t msg)"
  "keeps (on_tables ledger_inv) (HasActive typ)"
  "keeps (on_tables ledger_inv) DistinctSymbols"
  "keeps (on_tables ledger_inv) Alert_Symbols"
  "keeps (on_tables ledger_inv) ListActive"
  "keeps (on_tables ledger_inv) (MarkTriggered a)"
  "keeps (on_tables ledger_inv) (sql (q_insert_dead j msg))"
  "keeps (on_tables ledger_inv) (sql (q_delete_job i))"
  "keeps (on_tables ledger_inv) (sql (q_replay i))"
  "keeps (on_tables ledger_inv) (sql q_reap_dead)"
  "keeps (on_tables ledger_inv) (sql q_reap_requeue)"
  "keeps (on_tables ledger_inv) (sql (q_insert_job i typ pl prio runAt maxAtt))"
  unfolding Claim_def Complete_def Retry_def HasActive_def DistinctSymbols_def Alert_Symbols_def ListActive_def
    MarkTriggered_def
  by (rule keeps_sql,
      auto simp: q_claim_def q_complete_def q_retry_def q_mark_triggered_def q_insert_dead_def q_delete_job_def
        q_replay_def q_reap_dead_def q_reap_requeue_def q_insert_job_def Let_def
      split: option.splits if_splits)+

lemma keeps_ledger_Enqueue [keeps_intros]: "keeps (on_tables ledger_inv) (Enqueue typ pl prio runAt maxAtt)"
  unfolding Enqueue_def by (intro keeps_intros)

lemma keeps_ledger_refresh [keeps_intros]: "keeps (on_tables P) (refresh_loop m ss prices)"
  by (induction ss arbitrary: prices) (auto intro!: keeps_intros split: sum.splits)

lemma keeps_ledger_fire [keeps_intros]: "keeps (on_tables ledger_inv) (fire_loop prices as)"
  by (induction as) (auto intro!: keeps_intros split: option.splits sum.splits)

lemma keeps_ledger_finish [keeps_intros]: "keeps (on_tables ledger_inv) (finish env j r)"
  unfolding finish_def MoveToDead_def by (auto intro!: keeps_intros split: sum.splits)

lemma keeps_ledger_turns [keeps_intros]:
  "keeps (on_tables ledger_inv) reaper_turn" "keeps (on_tables ledger_inv) (Replay i)"
  "keeps (on_tables ledger_inv) seedPoller"
  unfolding reaper_turn_def ReapExpired_def Replay_def seedPoller_def
  by (auto intro!: keeps_intros split: sum.splits)

lemma keeps_ledger_other:
  "job_type j \<noteq> JobExecuteOrder \<Longrightarrow> job_type j \<noteq> JobSettle \<Longrightarrow> keeps (on_tables ledger_inv) (dispatch env j)"
  unfolding dispatch_def handlePollQuotes_def handleAlertWebhook_def
  by (auto intro!: keeps_intros split: payload.splits sum.splits)

lemma keeps_ledger_SetStatus [keeps_intros]:
  "st \<in> set statuses \<Longrightarrow> keeps (on_tables ledger_inv) (SetStatus i st (Some why))"
  by (rule keeps_SetStatus) (use set_status_inv in \<open>simp add: set_status_db_def\<close>)

lemma keeps_place_new: "valid_req req \<Longrightarrow> keeps (on_tables ledger_inv) (place_new req (eff_type req))"
  unfolding place_new_def by (intro keeps_intros keeps_outbox)

section \<open>Every step keeps the ledger invariant and only extends the event stream\<close>

text \<open>Portfolios are never removed, and new entries carry the time at which they are written.\<close>

definition grows :: "time \<Rightarrow> db \<Rightarrow> db \<Rightarrow> bool" where
  "grows now d d' \<longleftrightarrow> pf_id ` set (portfolios d) \<subseteq> pf_id ` set (portfolios d') \<and>
     (\<exists>new. entries d' = entries d @ new \<and> (\<forall>e \<in> set new. entry_created e = now))"

lemma grows_same: "portfolios d' = portfolios d \<Longrightarrow> entries d' = entries d \<Longrightarrow> grows now d d'"
  by (simp add: grows_def)

lemma grows_still:
  assumes "\<And>c ps es. keeps (still c ps es) m" and "m w = (r, w')"
  shows "grows (clock w) (wdb w) (wdb w') \<and> clock w' = clock w"
proof -
  have "still (clock w) (portfolios (wdb w)) (entries (wdb w)) w'"
    using keepsD [OF assms(1), of _ _ _ w r w'] assms(2) by (simp add: still_def)
  then show ?thesis by (simp add: still_def grows_same)
qed

lemma same_tables_grows: "same_tables d d' \<Longrightarrow> grows now d d'"
  by (cases d, cases d') (auto simp: same_tables_def grows_def)

definition at_time :: "time \<Rightarrow> world \<Rightarrow> bool" where
  "at_time c w \<longleftrightarrow> clock w = c"

lemma keeps_at_time [keeps_intros]:
  "keeps (at_time c) (sql q)"
  "keeps (at_time c) uuid_New"
  "keeps (at_time c) (redis_del k)"
  by (auto simp: keeps_def at_time_def sql_def uuid_New_def redis_del_def ext_def split: list.splits sum.splits)

lemma keeps_at_time_runTx [keeps_intros]: "keeps (at_time c) fn \<Longrightarrow> keeps (at_time c) (runTx fn)"
  unfolding keeps_def at_time_def
proof (intro allI impI)
  fix w :: world assume fn: "\<forall>w. clock w = c \<longrightarrow> clock (snd (fn w)) = c" and w: "clock w = c"
  have ret: "clock (snd (ext (ret x) v)) = clock v" for x :: 'b and v
    by (auto simp: ext_def ret_def split: list.splits)
  obtain r w1 where b: "ext (ret ()) w = (r, w1)" by fastforce
  obtain q w2 where f: "fn w1 = (q, w2)" by fastforce
  have "clock w1 = c" using b w by (auto simp: ext_def ret_def split: list.splits if_splits)
  then have "clock w2 = c" using fn f by (metis snd_conv)
  with b f \<open>clock w1 = c\<close> show "clock (snd (runTx fn w)) = c"
    by (auto simp: runTx_def rollback_def ext_def ret_def split: sum.splits list.splits)
qed

lemma execute_priced_clock: "execute_priced ord price w = (r, w') \<Longrightarrow> clock w' = clock w"
proof -
  have "keeps (at_time (clock w)) (execute_priced ord price)"
    unfolding execute_priced_def reject_def fill_tx_def book_trade_def LockForUpdate_def Holdings_def SetStatus_def
      Entry_Insert_def BumpSeq_def SetFilled_def Enqueue_def InvalidateSnapshot_def Let_def
    by (auto intro!: keeps_intros split: option.splits)
  then show "execute_priced ord price w = (r, w') \<Longrightarrow> clock w' = clock w"
    by (auto simp: at_time_def dest: keepsD [of _ _ w])
qed

lemma exec_result_grows: "exec_result ord now d d' \<Longrightarrow> grows now d d'"
  unfolding exec_result_def
proof (elim disjE exE conjE)
  fix why assume "d' = set_status_db (order_id ord) ''rejected'' why d"
  then show ?thesis by (intro grows_same) (simp_all add: set_status_db_def)
next
  fix market tid jid sq
  assume "d' = trade_db now tid jid ord (exec_price ord market)
      (wrap64 (order_quantity ord * exec_price ord market)) sq d"
  then show ?thesis by (simp add: grows_def trade_db_all_entries)
qed

lemma execute_priced_grows:
  assumes "order_static (wdb w) ord" and "execute_priced ord price w = (r, w')"
  shows "grows (clock w) (wdb w) (wdb w') \<and> clock w' = clock w"
proof (cases r)
  case (Inl e)
  with assms execute_priced_Inl [of ord price w e w'] execute_priced_clock [OF assms(2)] show ?thesis
    by (simp add: same_tables_grows)
next
  case (Inr x)
  with assms execute_priced_result [of ord price w x w' "wdb w"] execute_priced_clock [OF assms(2)] show ?thesis
    by (simp add: exec_result_grows)
qed

lemma place_new_grows:
  assumes "place_new req ty w = (r, w')"
  shows "grows (clock w) (wdb w) (wdb w') \<and> clock w' = clock w"
proof
  have "keeps (at_time (clock w)) (place_new req ty)"
    unfolding place_new_def outbox_tx_def Portfolio_Exists_def Order_Create_def Enqueue_def
    by (intro keeps_intros)
  with assms show "clock w' = clock w" by (auto simp: at_time_def dest: keepsD [of _ _ w])
  show "grows (clock w) (wdb w) (wdb w')"
  proof (cases r)
    case (Inl e)
    with assms place_new_Inl [of req ty w e w'] show ?thesis by (simp add: same_tables_grows)
  next
    case (Inr ord)
    with assms place_new_Inr [of req ty w ord w'] show ?thesis
      by (auto intro!: grows_same simp: outbox_db_def)
  qed
qed

lemma CreatePortfolio_grows:
  assumes "CreatePortfolio name seedPaise w = (r, w')"
  shows "grows (clock w) (wdb w) (wdb w') \<and> clock w' = clock w"
proof
  have "keeps (at_time (clock w)) (CreatePortfolio name seedPaise)"
    unfolding CreatePortfolio_def Portfolio_Create_def LockForUpdate_def Entry_Insert_def BumpSeq_def
    by (intro keeps_intros)
  with assms show "clock w' = clock w" by (auto simp: at_time_def dest: keepsD [of _ _ w])
  show "grows (clock w) (wdb w) (wdb w')"
  proof (cases r)
    case (Inl e)
    with assms show ?thesis
      by (auto simp: CreatePortfolio_def run_simps intro!: same_tables_grows dest: runTx_Inl_same split: if_splits)
  next
    case (Inr i)
    have "\<exists>tid. wdb w' = open_db (clock w) tid i name seedPaise (wdb w)"
      using assms Inr
      by (auto simp: CreatePortfolio_def run_simps split: if_splits elim!: runTx_InrE create_body_InrE)
    then show ?thesis by (auto simp: grows_def open_db_def Let_def post_entry_def)
  qed
qed

fun thread_ok :: "db \<Rightarrow> thread \<Rightarrow> bool" where
  "thread_ok d (TQuote j ord) = order_static d ord"
| "thread_ok d (TFill j ord price) = order_static d ord"
| "thread_ok d (TOther j) = (job_type j \<noteq> JobExecuteOrder \<and> job_type j \<noteq> JobSettle)"
| "thread_ok d (TPlace req) = valid_req req"
| "thread_ok d _ = True"

definition sys_inv :: "sys \<Rightarrow> bool" where
  "sys_inv s \<longleftrightarrow> ledger_inv (wdb (fst s)) \<and> (\<forall>t \<in> set (snd s). thread_ok (wdb (fst s)) t)"

lemma thread_ok_grows: "grows now d d' \<Longrightarrow> thread_ok d t \<Longrightarrow> thread_ok d' t"
  by (cases t) (auto simp: grows_def intro: order_static_pf_ids)

lemma thread_ok_start [simp]: "thread_ok d (start j)"
  by (auto simp: start_def split: payload.splits)

text \<open>One operation of a thread.\<close>

lemma keeps_run: "keeps (on_tables P) m \<Longrightarrow> P (wdb w) \<Longrightarrow> m w = (r, w') \<Longrightarrow> P (wdb w')"
  by (auto simp: on_tables_def dest: keepsD [of "on_tables P" m w r w'])

lemma keeps_compute_view [keeps_intros]: "keeps (on_tables P) (compute_view m p t)"
  unfolding compute_view_def by (auto intro!: keeps_intros split: prod.splits)

text \<open>Operations that keep the ledger and leave the event stream alone.\<close>

definition quiet :: "'a io \<Rightarrow> bool" where
  "quiet m \<longleftrightarrow> keeps (on_tables ledger_inv) m \<and> (\<forall>c ps es. keeps (still c ps es) m)"

lemma quiet_step:
  assumes "quiet m" and "ledger_inv (wdb w)" and "m w = (r, w')"
  shows "ledger_inv (wdb w') \<and> grows (clock w) (wdb w) (wdb w') \<and> clock w' = clock w"
  using assms keeps_run [of ledger_inv m w r w'] grows_still [of m w r w'] by (simp add: quiet_def)

lemma quiet_snd:
  "quiet m \<Longrightarrow> ledger_inv (wdb w) \<Longrightarrow>
   ledger_inv (wdb (snd (m w))) \<and> grows (clock w) (wdb w) (wdb (snd (m w))) \<and> clock (snd (m w)) = clock w"
  by (rule quiet_step [of m w "fst (m w)" "snd (m w)"]) simp_all

lemma quiet_ops [simp]:
  "quiet (Order_Get i)" "quiet (MD_Quote m s)" "quiet (Claim n)" "quiet (find_existing k)"
  "quiet (compute_view m p t)" "quiet (SetSnapshot v)" "quiet reaper_turn" "quiet (Replay i)" "quiet seedPoller"
  "quiet (finish env j r)"
  by (simp_all add: quiet_def keeps_intros)

lemma quiet_SetStatus [simp]: "st \<in> set statuses \<Longrightarrow> quiet (SetStatus i st (Some why))"
  by (simp add: quiet_def keeps_intros)

lemma quiet_other [simp]:
  "job_type j \<noteq> JobExecuteOrder \<Longrightarrow> job_type j \<noteq> JobSettle \<Longrightarrow> quiet (dispatch env j)"
  by (simp add: quiet_def keeps_ledger_other keeps_still_other)

lemma order_get_step:
  assumes "ledger_inv (wdb w)" and "Order_Get i w = (r, w')"
  shows "ledger_inv (wdb w') \<and> grows (clock w) (wdb w) (wdb w') \<and> clock w' = clock w \<and>
    (\<forall>ord. r = Inr ord \<longrightarrow> order_static (wdb w') ord)"
proof -
  have "order_static (wdb w') ord" if "r = Inr ord" for ord
    using assms that by (auto elim!: Order_Get_InrE simp: orders_static)
  with quiet_step [of "Order_Get i" w r w'] assms show ?thesis by simp
qed

lemma execute_priced_step:
  assumes "ledger_inv (wdb w)" and "order_static (wdb w) ord" and "execute_priced ord price w = (r, w')"
  shows "ledger_inv (wdb w') \<and> grows (clock w) (wdb w) (wdb w') \<and> clock w' = clock w"
proof -
  have "exec_inv ord (wdb w')"
    using keeps_run [OF keeps_execute_priced _ assms(3)] assms(1,2) by (simp add: exec_inv_def)
  then show ?thesis using execute_priced_grows [OF assms(2,3)] by (simp add: exec_inv_def)
qed

lemma thread_step_inv:
  assumes inv: "ledger_inv (wdb w)" and ok: "thread_ok (wdb w) t" and run: "thread_step env t w = (us, w')"
  shows "ledger_inv (wdb w') \<and> grows (clock w) (wdb w) (wdb w') \<and> clock w' = clock w \<and>
    (\<forall>u \<in> set us. thread_ok (wdb w') u)"
proof (cases t)
  case (TExec j i)
  with run order_get_step [OF inv, of i] show ?thesis
    by (fastforce split: prod.splits sum.splits if_splits)
next
  case (TQuote j ord)
  obtain r w1 where q: "MD_Quote (w_md env) (order_instrument ord) w = (r, w1)" by fastforce
  note quiet_step [OF quiet_ops(2) inv q]
  moreover have "order_static (wdb w1) ord" using TQuote ok MD_Quote_wdb [OF q] by simp
  ultimately show ?thesis using run TQuote q by (auto split: sum.splits)
next
  case (TFill j ord price)
  with run ok execute_priced_step [OF inv, of ord price] show ?thesis by (auto split: prod.splits)
next
  case (TSettle j i)
  with run order_get_step [OF inv, of i] show ?thesis
    by (fastforce split: prod.splits sum.splits if_splits)
next
  case (TSettleWrite j i)
  with run quiet_snd [of "SetStatus i ''settled'' (Some ''settled (T+1)'')", OF _ inv] show ?thesis
    by (auto simp: statuses_def split: prod.splits)
next
  case (TOther j)
  with run ok quiet_snd [of "dispatch env j", OF _ inv] show ?thesis by (auto split: prod.splits)
next
  case (TFinish j r)
  with run quiet_snd [of "finish env j r", OF _ inv] show ?thesis by auto
next
  case (TCancel i)
  with run quiet_snd [of "SetStatus i ''cancelled'' (Some ''cancelled by user'')", OF _ inv] show ?thesis
    by (auto simp: statuses_def)
next
  case (TPlace req)
  with run have p: "place_new req (eff_type req) w = (fst (place_new req (eff_type req) w), w')" and "us = []" by auto
  with keeps_run [OF keeps_place_new inv p] place_new_grows [OF p] ok TPlace show ?thesis by simp
next
  case (TSnap v)
  with run quiet_snd [of "SetSnapshot v", OF _ inv] show ?thesis by auto
qed

text \<open>One step of the system.\<close>

definition sys_ok_step :: "sys \<Rightarrow> sys \<Rightarrow> bool" where
  "sys_ok_step s s' \<longleftrightarrow> sys_inv s' \<and> grows (clock (fst s)) (wdb (fst s)) (wdb (fst s')) \<and>
     clock (fst s) \<le> clock (fst s')"

lemma sys_ok_stepI:
  assumes "sys_inv (w, ts)" and "ledger_inv (wdb w') \<and> grows (clock w) (wdb w) (wdb w') \<and> clock w' = clock w"
    and "\<forall>u \<in> set us. thread_ok (wdb w') u"
  shows "sys_ok_step (w, ts) (w', ts @ us)"
  using assms by (auto simp: sys_ok_step_def sys_inv_def intro: thread_ok_grows)

lemma sys_step_inv:
  assumes "sys_step env s s'" and "sys_inv s"
  shows "sys_ok_step s s'"
  using assms
proof induction
  case (claim w r w' ts)
  then have "ledger_inv (wdb w)" by (simp add: sys_inv_def)
  from quiet_step [OF quiet_ops(3) this claim(1)] claim(2) show ?case
    by (intro sys_ok_stepI) (auto split: sum.splits option.splits)
next
  case (thread t w us w' ts vs)
  then show ?case
    using thread_step_inv [of w t env us w'] by (auto simp: sys_ok_step_def sys_inv_def intro: thread_ok_grows)
next
  case (crash w ts t vs)
  then show ?case by (auto simp: sys_ok_step_def sys_inv_def grows_same)
next
  case (cancel i w r w' ts)
  then show ?case
    using order_get_step [of w i r w'] by (intro sys_ok_stepI) (auto simp: sys_inv_def split: sum.splits)
next
  case (place req w r w' ts)
  then have "ledger_inv (wdb w)" by (simp add: sys_inv_def)
  from quiet_step [OF quiet_ops(4) this place(2)] place show ?case
    by (intro sys_ok_stepI) (auto split: sum.splits option.splits)
next
  case (create w ts name seedPaise)
  obtain r w' where c: "CreatePortfolio name seedPaise w = (r, w')" by fastforce
  then show ?case
    using create CreatePortfolio_grows [OF c] keeps_run [OF keeps_CreatePortfolio _ c]
    by (auto simp: sys_ok_step_def sys_inv_def intro: thread_ok_grows)
next
  case (view p w r w' ts)
  then have "ledger_inv (wdb w)" by (simp add: sys_inv_def)
  from quiet_step [OF quiet_ops(5) this view(1)] view(2) show ?case
    by (intro sys_ok_stepI) (auto split: sum.splits)
next
  case (reap w ts)
  then show ?case using quiet_snd [of reaper_turn w] sys_ok_stepI [of w ts _ "[]"] by (simp add: sys_inv_def)
next
  case (replay w ts i)
  then show ?case using quiet_snd [of "Replay i" w] sys_ok_stepI [of w ts _ "[]"] by (simp add: sys_inv_def)
next
  case (seed w ts)
  then show ?case using quiet_snd [of seedPoller w] sys_ok_stepI [of w ts _ "[]"] by (simp add: sys_inv_def)
next
  case (pass n w ts bs)
  then show ?case by (auto simp: sys_ok_step_def sys_inv_def grows_same)
qed

interpretation trading_sys: step_system "sys_step env" sys_inv for env
  by unfold_locales (use sys_step_inv sys_ok_step_def in blast)

section \<open>Safety of all interleavings\<close>

text \<open>
  C2. The ledger is always sound. Start with an empty database and let clients and workers run in any
  interleaving, with any calls failing, workers crashing, leases expiring and jobs executed more than
  once: in every reachable state no portfolio has a negative balance of cash or of any instrument,
  the event stream of every portfolio is numbered 1, 2, .. without gaps, every entry has a positive
  quantity, order identifiers and idempotency keys are unique, and every order has one of the five
  statuses.
\<close>
theorem ledger_always_sound:
  assumes "(sys_step env)\<^sup>*\<^sup>* (w, []) (w', ts)" and "wdb w = empty_db"
  shows "(\<forall>p i. 0 \<le> balance (wdb w') p i) \<and>
    (\<forall>p \<in> set (portfolios (wdb w')).
       map entry_seq (portfolio_entries (pf_id p) None (wdb w')) = [1..seq_counter p]) \<and>
    (\<forall>e \<in> set (entries (wdb w')). 0 < entry_quantity e) \<and>
    distinct (map order_id (orders (wdb w'))) \<and>
    distinct (filter (\<lambda>k. k \<noteq> []) (map idempotency_key (orders (wdb w')))) \<and>
    (\<forall>ord \<in> set (orders (wdb w')).
       order_status ord \<in> {''pending'', ''filled'', ''rejected'', ''cancelled'', ''settled''})"
proof -
  have "sys_inv (w, [])" using assms(2) by (simp add: sys_inv_def ledger_inv_empty)
  with trading_sys.steps_inv [OF assms(1)] have "ledger_inv (wdb w')" by (simp add: sys_inv_def)
  then show ?thesis by (auto simp: ledger_inv_defs statuses_def)
qed


section \<open>Concrete interleavings\<close>

text \<open>Commands that perform chosen steps, to exhibit reachable states by evaluation.\<close>

datatype cmd = DoClaim | DoThread nat | DoCancel uuid | DoView uuid | DoReap | DoPass int | DoCreate string int

fun run_cmd :: "wenv \<Rightarrow> cmd \<Rightarrow> sys \<Rightarrow> sys" where
  "run_cmd env DoClaim (w, ts) =
     (case Claim (leaseSecs env) w of
        (r, w') \<Rightarrow> (w', ts @ (case r of Inr (Some j) \<Rightarrow> [start j] | _ \<Rightarrow> [])))"
| "run_cmd env (DoThread k) (w, ts) =
     (if k < length ts
      then (case thread_step env (ts ! k) w of (us, w') \<Rightarrow> (w', take k ts @ us @ drop (Suc k) ts))
      else (w, ts))"
| "run_cmd env (DoCancel i) (w, ts) =
     (case Order_Get i w of
        (r, w') \<Rightarrow> (w', ts @ (case r of
           Inr ord \<Rightarrow> (if order_status ord = ''pending'' then [TCancel i] else []) | Inl _ \<Rightarrow> [])))"
| "run_cmd env (DoView p) (w, ts) =
     (case compute_view (w_md env) p None w of
        (r, w') \<Rightarrow> (w', ts @ (case r of Inr v \<Rightarrow> [TSnap v] | Inl _ \<Rightarrow> [])))"
| "run_cmd env DoReap (w, ts) = (snd (reaper_turn w), ts)"
| "run_cmd env (DoPass n) (w, ts) = (w\<lparr>clock := clock w + max 0 n, faults := []\<rparr>, ts)"
| "run_cmd env (DoCreate name amount) (w, ts) = (snd (CreatePortfolio name amount w), ts)"

lemma run_cmd_step: "(sys_step env)\<^sup>*\<^sup>* s (run_cmd env c s)"
proof (cases s)
  case (Pair w ts)
  show ?thesis
  proof (cases c)
    case (DoThread k)
    show ?thesis
    proof (cases "k < length ts")
      case True
      obtain us w' where t: "thread_step env (ts ! k) w = (us, w')" by fastforce
      have "sys_step env (w, take k ts @ ts ! k # drop (Suc k) ts) (w', take k ts @ us @ drop (Suc k) ts)"
        using t by (rule sys_step.thread)
      then show ?thesis using True t by (simp add: Pair DoThread id_take_nth_drop [symmetric])
    qed (simp add: Pair DoThread)
  qed (auto simp: Pair split: prod.splits intro!: r_into_rtranclp sys_step.intros)
qed

definition run_cmds :: "wenv \<Rightarrow> cmd list \<Rightarrow> sys \<Rightarrow> sys" where
  "run_cmds env cs s = fold (run_cmd env) cs s"

lemma run_cmds_steps: "(sys_step env)\<^sup>*\<^sup>* s (run_cmds env cs s)"
proof (induction cs arbitrary: s)
  case (Cons c cs)
  have "(sys_step env)\<^sup>*\<^sup>* (run_cmd env c s) (run_cmds env cs (run_cmd env c s))" by (rule Cons.IH)
  then show ?case using run_cmd_step [of env s c] by (simp add: run_cmds_def)
qed (simp add: run_cmds_def)

definition sample_sys :: sys where
  "sample_sys = (sample_world sample_db, [])"

theorem ledger_always_sound_witness:
  "let w' = fst (run_cmds sample_env [DoCreate ''a'' 500, DoClaim] (sample_world empty_db, []))
   in length (portfolios (wdb w')) = 1 \<and> 0 \<le> balance (wdb w') 100 CASH"
proof -
  let ?s = "run_cmds sample_env [DoCreate ''a'' 500, DoClaim] (sample_world empty_db, [])"
  have "(sys_step sample_env)\<^sup>*\<^sup>* (sample_world empty_db, []) (fst ?s, snd ?s)"
    using run_cmds_steps [of sample_env "(sample_world empty_db, [])"] by simp
  from ledger_always_sound [OF this] have "0 \<le> balance (wdb (fst ?s)) 100 CASH" by simp
  moreover have "length (portfolios (wdb (fst ?s))) = 1" by code_simp
  ultimately show ?thesis by (simp add: Let_def)
qed



text \<open>
  C38. One order can be filled twice. A worker claims the execution job and reads the order as pending;
  before it commits, its lease of 30 seconds expires, the reaper requeues the job, and a second worker
  claims it, reads the order as pending and fills it; then the first worker continues and fills it
  again, because the transaction does not look at the status. The portfolio holds six shares for an
  order of three, and has paid twice.
\<close>
theorem double_fill_reachable:
  "\<exists>w ts. (sys_step sample_env)\<^sup>*\<^sup>* sample_sys (w, ts) \<and>
     map (\<lambda>r. (order_id r, order_quantity r, order_status r)) (orders (wdb w)) = [(7, 3, ''filled'')] \<and>
     balance (wdb w) 4 ''INFY'' = 6 \<and> balance (wdb w) 4 CASH = 1000000 - 2 * 495000"
proof -
  let ?cs = "[DoClaim, DoThread 0, DoPass 31000, DoReap, DoClaim, DoThread 1, DoThread 1, DoThread 1,
    DoThread 0, DoThread 0]"
  let ?s = "run_cmds sample_env ?cs sample_sys"
  have "map (\<lambda>r. (order_id r, order_quantity r, order_status r)) (orders (wdb (fst ?s))) = [(7, 3, ''filled'')]"
    "balance (wdb (fst ?s)) 4 ''INFY'' = 6" "balance (wdb (fst ?s)) 4 CASH = 1000000 - 2 * 495000"
    by code_simp+
  then show ?thesis
    using run_cmds_steps [of sample_env sample_sys ?cs] by (intro exI [of _ "fst ?s"] exI [of _ "snd ?s"]) simp
qed

text \<open>
  C39. A cancelled order can have been filled. A client's cancellation reads the order as pending, a
  worker fills it, and the cancellation then overwrites the status: the order is reported as cancelled
  although its trade is in the ledger.
\<close>
theorem cancelled_but_filled_reachable:
  "\<exists>w ts. (sys_step sample_env)\<^sup>*\<^sup>* sample_sys (w, ts) \<and>
     map (\<lambda>r. (order_id r, order_status r)) (orders (wdb w)) = [(7, ''cancelled'')] \<and>
     balance (wdb w) 4 ''INFY'' = 3"
proof -
  let ?cs = "[DoCancel 7, DoClaim, DoThread 1, DoThread 1, DoThread 1, DoThread 0]"
  let ?s = "run_cmds sample_env ?cs sample_sys"
  have "map (\<lambda>r. (order_id r, order_status r)) (orders (wdb (fst ?s))) = [(7, ''cancelled'')]"
    "balance (wdb (fst ?s)) 4 ''INFY'' = 3" by code_simp+
  then show ?thesis
    using run_cmds_steps [of sample_env sample_sys ?cs] by (intro exI [of _ "fst ?s"] exI [of _ "snd ?s"]) simp
qed

text \<open>
  The snapshot cache can serve a view that misses a committed trade. A view computed before the
  trade is stored in the cache after the trade has dropped the old snapshot; until it expires, readers
  get the old cash although the ledger has the new balance.
\<close>
theorem stale_snapshot_reachable:
  "\<exists>w ts v. (sys_step sample_env)\<^sup>*\<^sup>* sample_sys (w, ts) \<and>
     rlive (clock w) (wredis w) (snapKey 4) = Some (RSnapshot v) \<and>
     view_cash v = 1000000 \<and> balance (wdb w) 4 CASH = 505000"
proof -
  let ?cs = "[DoView 4, DoClaim, DoThread 1, DoThread 1, DoThread 1, DoThread 0]"
  let ?s = "run_cmds sample_env ?cs sample_sys"
  let ?cash = "case rlive (clock (fst ?s)) (wredis (fst ?s)) (snapKey 4) of
     Some (RSnapshot v) \<Rightarrow> Some (view_cash v) | _ \<Rightarrow> None"
  have "?cash = Some 1000000" "balance (wdb (fst ?s)) 4 CASH = 505000" by code_simp+
  then obtain v where "rlive (clock (fst ?s)) (wredis (fst ?s)) (snapKey 4) = Some (RSnapshot v)"
    "view_cash v = 1000000" "balance (wdb (fst ?s)) 4 CASH = 505000"
    by (auto split: option.splits rval.splits)
  then show ?thesis
    using run_cmds_steps [of sample_env sample_sys ?cs]
    by (intro exI [of _ "fst ?s"] exI [of _ "snd ?s"] exI [of _ v]) simp
qed

end
