(* ===== verification/Market_Data_Properties.thy ===== *)
theory Market_Data_Properties
  imports Market_Data_Service
begin

text \<open>
  What the market data promises: the prices of the two providers, the age and the origin of a
  quote that the read-through cache returns, and the list of top movers.
\<close>

section \<open>The providers' prices\<close>

lemma dbl_abs: "\<bar>x\<bar> \<le> y \<Longrightarrow> \<bar>dbl x\<bar> \<le> y * (1 + 1 / 2 ^ 53)"
proof -
  assume "\<bar>x\<bar> \<le> y"
  have "\<bar>dbl x\<bar> \<le> \<bar>x\<bar> + \<bar>dbl x - x\<bar>" by linarith
  also have "\<dots> \<le> \<bar>x\<bar> * (1 + 1 / 2 ^ 53)" using dbl_error [of x] by (simp add: distrib_left)
  also have "\<dots> \<le> y * (1 + 1 / 2 ^ 53)" using \<open>\<bar>x\<bar> \<le> y\<close> by (intro mult_right_mono) simp_all
  finally show ?thesis .
qed

lemma stub_amp_range: "0 \<le> stub_amp h \<and> stub_amp h \<le> 348 / 10000"
proof -
  define x where "x = dbl (25 / 1000) * of_nat (h mod 100)"
  have "h mod 100 \<le> 99" by linarith
  then have m: "of_nat (h mod 100) \<le> (99 :: rat)" by (metis of_nat_le_iff of_nat_numeral)
  have "\<bar>dbl (25 / 1000)\<bar> \<le> 2501 / 100000" using dbl_abs [of "25 / 1000" "25 / 1000"] by simp
  then have "\<bar>x\<bar> \<le> 2501 / 100000 * 99" unfolding x_def abs_mult using m by (intro mult_mono) simp_all
  then have "\<bar>dbl x\<bar> \<le> 2477 / 1000" using dbl_abs [of x "2501 / 100000 * 99"] by simp
  then have y: "\<bar>dbl (dbl x / 100)\<bar> \<le> 2478 / 100000" using dbl_abs [of "dbl x / 100" "2477 / 100000"] by simp
  have z: "\<bar>dbl (1 / 100)\<bar> \<le> 1001 / 100000" using dbl_abs [of "1 / 100" "1 / 100"] by simp
  have "0 \<le> x" unfolding x_def by (intro mult_nonneg_nonneg dbl_nonneg) simp_all
  then have nn: "0 \<le> dbl (1 / 100) + dbl (dbl x / 100)" by (intro add_nonneg_nonneg dbl_nonneg) (simp_all add: dbl_nonneg)
  then have "\<bar>dbl (1 / 100) + dbl (dbl x / 100)\<bar> \<le> 3479 / 100000" using y z by linarith
  then have "\<bar>dbl (dbl (1 / 100) + dbl (dbl x / 100))\<bar> \<le> 348 / 10000" using dbl_abs by fastforce
  then show ?thesis using dbl_nonneg [OF nn] by (simp add: stub_amp_def x_def)
qed

lemma stub_price_band:
  assumes wave: "\<And>x. \<bar>gosin x\<bar> \<le> 1" and base: "32000 \<le> base"
  shows "964 * base \<le> 1000 * stub_price gosin h base now \<and> 1000 * stub_price gosin h base now \<le> 1036 * base"
proof -
  define x where "x = dbl (stub_amp h * gosin (dbl (dbl (of_int (now div 1000) / 90) + of_nat (h mod 1000))))"
  define f where "f = dbl (1 + x)"
  have "\<bar>stub_amp h * gosin y\<bar> \<le> 348 / 10000" for y
    using mult_mono [of "\<bar>stub_amp h\<bar>" "348 / 10000" "\<bar>gosin y\<bar>" 1] stub_amp_range [of h] wave [of y]
    by (simp add: abs_mult)
  then have "\<bar>x\<bar> \<le> 348 / 10000 * (1 + 1 / 2 ^ 53)" unfolding x_def by (rule dbl_abs)
  then have x: "9651 / 10000 \<le> 1 + x" "1 + x \<le> 10349 / 10000" by (simp_all add: abs_le_iff)
  have f: "965 / 1000 \<le> f" "f \<le> 1035 / 1000"
    using dbl_lower [of "1 + x"] dbl_upper [of "1 + x"] x unfolding f_def by simp_all
  let ?b = "rat_of_int base"
  have b: "32000 \<le> ?b" using base by (metis of_int_le_iff of_int_numeral)
  have bf: "?b * (965 / 1000) \<le> ?b * f" "?b * f \<le> ?b * (1035 / 1000)"
    using f b by (intro mult_left_mono; simp)+
  have "(?b * (965 / 1000)) * (1 - 1 / 2 ^ 53) \<le> ?b * f * (1 - 1 / 2 ^ 53)"
    "?b * f * (1 + 1 / 2 ^ 53) \<le> ?b * (1035 / 1000) * (1 + 1 / 2 ^ 53)"
    using bf by (intro mult_right_mono; simp)+
  moreover have "0 \<le> ?b * f" using bf b by linarith
  ultimately have "(?b * (965 / 1000)) * (1 - 1 / 2 ^ 53) \<le> dbl (?b * f)"
    "dbl (?b * f) \<le> ?b * (1035 / 1000) * (1 + 1 / 2 ^ 53)"
    using dbl_lower [of "?b * f"] dbl_upper [of "?b * f"] by linarith+
  then have p: "?b * (9649 / 10000) \<le> dbl (?b * f)" "dbl (?b * f) \<le> ?b * (10351 / 10000)"
    using b by simp_all
  have eq: "stub_price gosin h base now = \<lfloor>dbl (?b * f)\<rfloor>"
    using p b by (simp add: stub_price_def Let_def x_def [symmetric] f_def [symmetric] go_trunc_def)
  have "?b * (964 / 1000) \<le> of_int \<lfloor>dbl (?b * f)\<rfloor>" "of_int \<lfloor>dbl (?b * f)\<rfloor> \<le> ?b * (1036 / 1000)"
    using p b by linarith+
  then have "of_int (964 * base) \<le> rat_of_int (1000 * stub_price gosin h base now)"
    "rat_of_int (1000 * stub_price gosin h base now) \<le> of_int (1036 * base)"
    by (simp_all add: eq)
  then show ?thesis by (simp only: of_int_le_iff)
qed

text \<open>
  C33. Offline prices are believable. The stub never fails; with a sine whose values lie between -1
  and 1, the price of a listed stock stays within 3.6% of its reference close, so every price is
  positive, and the price of any other symbol never moves and lies between 10000 and 509999 paise.
\<close>
theorem stub_quote_band:
  assumes "\<And>x. \<bar>gosin x\<bar> \<le> 1"
  shows "\<exists>p. prov_Quote (stub gosin) s now = Inr p \<and> 0 < p \<and>
    (case universeBySymbol s of
       Some st \<Rightarrow> 964 * base_paise st \<le> 1000 * p \<and> 1000 * p \<le> 1036 * base_paise st
     | None \<Rightarrow> 10000 \<le> p \<and> p \<le> 509999 \<and> (\<forall>now'. prov_Quote (stub gosin) s now' = Inr p))"
proof (cases "universeBySymbol s")
  case None
  have "unat (fnv32a s) mod 500000 < 500000" by simp
  with None show ?thesis by (simp add: stub_def stub_Quote_def Let_def)
next
  case (Some st)
  have "32000 \<le> base_paise st" using universeBySymbol_SomeD [OF Some] nseUniverse_base_range by blast
  with stub_price_band [where gosin = gosin and base = "base_paise st" and h = "unat (fnv32a s)" and now = now, OF assms] Some show ?thesis
    by (simp add: stub_def stub_Quote_def Let_def)
qed

theorem stub_quote_band_witness:
  "\<exists>p. prov_Quote (stub (\<lambda>_. 1)) ''TCS'' 0 = Inr p \<and> 0 < p \<and>
    964 * 385000 \<le> 1000 * p \<and> 1000 * p \<le> 1036 * 385000"
proof -
  have "universeBySymbol ''TCS'' = Some (nse ''TCS'' ''Tata Consultancy Services'' ''IT'' 385000)"
    by code_simp
  then show ?thesis using stub_quote_band [of "\<lambda>_. 1" "''TCS''" 0] by (simp add: nse_def)
qed

text \<open>
  The synthetic price of an unlisted symbol can exceed the 5000 rupees that the comment in the
  source gives as its maximum: TECHM is quoted at 508068 paise, at all times.
\<close>
theorem stub_exceeds_comment: "prov_Quote (stub gosin) ''TECHM'' now = Inr 508068"
proof -
  have "universeBySymbol ''TECHM'' = None" "fnv32a ''TECHM'' = 547998068" by code_simp+
  then show ?thesis by (simp add: stub_def stub_Quote_def Let_def)
qed

text \<open>
  Live prices. When the server answers with a positive price, the quote is that price in paise,
  rounded towards zero after one floating point multiplication: within one paisa and the rounding
  error of it. An answer without a price gives the reference close for a listed stock and an error for
  any other; a failed call, another status and a body that does not decode are errors.
\<close>
theorem finnhub_quote_cases:
  "case http (finnhub_url apiKey s) now of
     Inl e \<Rightarrow> prov_Quote (finnhub http apiKey) s now = Inl e
   | Inr resp \<Rightarrow>
       (if resp_status resp \<noteq> 200 then \<exists>e. prov_Quote (finnhub http apiKey) s now = Inl (ErrMsg e)
        else case resp_c resp of
          None \<Rightarrow> prov_Quote (finnhub http apiKey) s now = Inl ErrDecode
        | Some c \<Rightarrow>
            if 0 < c then \<exists>p. prov_Quote (finnhub http apiKey) s now = Inr p \<and> 0 \<le> p \<and>
              100 * c * (1 - 1 / 2 ^ 53) - 1 < of_int p \<and> of_int p \<le> 100 * c * (1 + 1 / 2 ^ 53)
            else case universeBySymbol s of
              Some stk \<Rightarrow> prov_Quote (finnhub http apiKey) s now = Inr (base_paise stk)
            | None \<Rightarrow> \<exists>e. prov_Quote (finnhub http apiKey) s now = Inl (ErrMsg e))"
proof -
  have up: "of_int (go_trunc (dbl (c * 100))) \<le> 100 * c * (1 + 1 / 2 ^ 53)"
    and low: "100 * c * (1 - 1 / 2 ^ 53) - 1 < of_int (go_trunc (dbl (c * 100)))"
    and nn: "0 \<le> go_trunc (dbl (c * 100))" if "0 < c" for c
  proof -
    have p: "0 \<le> dbl (c * 100)" using that by (intro dbl_nonneg) simp
    have l: "100 * c * (1 - 1 / 2 ^ 53) \<le> dbl (c * 100)" "dbl (c * 100) \<le> 100 * c * (1 + 1 / 2 ^ 53)"
      using dbl_lower [of "c * 100"] dbl_upper [of "c * 100"] that by (simp_all add: mult.commute)
    have e: "go_trunc (dbl (c * 100)) = \<lfloor>dbl (c * 100)\<rfloor>" using p by (simp add: go_trunc_def)
    show "0 \<le> go_trunc (dbl (c * 100))" using p by (simp add: e)
    show "of_int (go_trunc (dbl (c * 100))) \<le> 100 * c * (1 + 1 / 2 ^ 53)" unfolding e using l(2) by linarith
    show "100 * c * (1 - 1 / 2 ^ 53) - 1 < of_int (go_trunc (dbl (c * 100)))" unfolding e using l(1) by linarith
  qed
  show ?thesis
  proof (cases "http (finnhub_url apiKey s) now")
    case (Inr resp)
    show ?thesis
    proof (cases "resp_c resp")
      case (Some c)
      show ?thesis
      proof (cases "0 < c")
        case True
        with Inr Some show ?thesis using up [OF True] low [OF True] nn [OF True]
          by (auto simp: finnhub_def finnhub_Quote_def)
      qed (use Inr Some in \<open>auto simp: finnhub_def finnhub_Quote_def universe_PrevClose_def split: option.splits\<close>)
    qed (use Inr in \<open>simp add: finnhub_def finnhub_Quote_def\<close>)
  qed (simp add: finnhub_def finnhub_Quote_def)
qed

section \<open>Quotes from the cache\<close>

text \<open>
  A quote is genuine at a time if the provider gave its price when it was taken, and it was taken no
  longer ago than the cache keeps quotes. A genuine cache holds nothing but such quotes, each under
  its own symbol and until its time is up.
\<close>

definition genuine :: "mdsvc \<Rightarrow> string \<Rightarrow> time \<Rightarrow> quote \<Rightarrow> bool" where
  "genuine m s now q \<longleftrightarrow> quote_symbol q = s \<and>
     prov_Quote (md_provider m) s (quote_as_of q) = Inr (quote_price q) \<and>
     quote_as_of q \<le> now \<and> now \<le> quote_as_of q + md_quoteTTL m * 1000"

definition genuine_cache :: "mdsvc \<Rightarrow> world \<Rightarrow> bool" where
  "genuine_cache m w \<longleftrightarrow>
     (\<forall>s v e. wredis w (quoteKey s) = Some (v, e) \<longrightarrow>
        (\<exists>q. v = RQuote q \<and> quote_symbol q = s \<and> quote_as_of q \<le> clock w \<and>
           prov_Quote (md_provider m) s (quote_as_of q) = Inr (quote_price q) \<and>
           e = Some (quote_as_of q + md_quoteTTL m * 1000)))"

lemma genuine_cache_live:
  assumes "genuine_cache m w" and "rlive (clock w) (wredis w) (quoteKey s) = Some v"
  shows "\<exists>q. v = RQuote q \<and> genuine m s (clock w) q"
  using assms by (auto simp: genuine_cache_def genuine_def rlive_def split: option.splits if_splits prod.splits) force+

lemma genuine_cache_faults [simp]: "genuine_cache m (w\<lparr>faults := f\<rparr>) = genuine_cache m w"
  by (simp add: genuine_cache_def)

lemma SetQuote_genuine:
  assumes "0 < md_quoteTTL m" and "genuine_cache m w"
    and "prov_Quote (md_provider m) s (clock w) = Inr price"
    and "SetQuote (md_quoteTTL m) \<lparr>quote_symbol = s, quote_price = price, quote_as_of = clock w\<rparr> w = (r, w')"
  shows "genuine_cache m w' \<and> clock w' = clock w"
proof -
  have "genuine_cache m (w\<lparr>wredis := (wredis w)(quoteKey s \<mapsto>
      (RQuote \<lparr>quote_symbol = s, quote_price = price, quote_as_of = clock w\<rparr>, Some (clock w + md_quoteTTL m * 1000)))\<rparr>)"
    using assms(2,3) by (auto simp: genuine_cache_def)
  with assms show ?thesis
    by (auto simp: SetQuote_def redis_set_def ext_def genuine_cache_def split: list.splits if_splits)
qed

lemma MD_Quote_genuine:
  assumes ttl: "0 < md_quoteTTL m" and gc: "genuine_cache m w" and run: "MD_Quote m s w = (r, w')"
  shows "genuine_cache m w' \<and> (\<forall>q. r = Inr q \<longrightarrow> genuine m s (clock w) q)"
proof -
  obtain r1 w1 where g: "GetQuote s w = (r1, w1)" by fastforce
  then have w1: "genuine_cache m w1" "clock w1 = clock w"
    using gc by (auto simp: GetQuote_def bindE_def redis_get_def ext_def run_simps
        split: list.splits if_splits option.splits rval.splits)
  show ?thesis
  proof (cases r1)
    case (Inr q)
    then have "rlive (clock w) (wredis w) (quoteKey s) = Some (RQuote q)"
      using g by (auto simp: GetQuote_def bindE_def redis_get_def ext_def run_simps
          split: list.splits if_splits option.splits rval.splits)
    with genuine_cache_live [OF gc] have "genuine m s (clock w) q" by blast
    with run g w1 Inr show ?thesis by (auto simp: MD_Quote_def bindE_def attempt_def run_simps)
  next
    case (Inl e)
    show ?thesis
    proof (cases "prov_Quote (md_provider m) s (clock w)")
      case (Inl e')
      with run g w1 \<open>r1 = Inl e\<close> show ?thesis by (auto simp: MD_Quote_def bindE_def attempt_def run_simps)
    next
      case (Inr price)
      let ?q = "\<lparr>quote_symbol = s, quote_price = price, quote_as_of = clock w\<rparr>"
      obtain r2 w2 where st: "SetQuote (md_quoteTTL m) ?q w1 = (r2, w2)" by fastforce
      have "genuine_cache m w2" using SetQuote_genuine [OF ttl w1(1), of s price r2 w2] st Inr w1(2) by simp
      moreover have "genuine m s (clock w) ?q" using ttl Inr by (simp add: genuine_def)
      moreover have "r = Inr ?q" "w' = w2"
        using run g st w1(2) Inr \<open>r1 = Inl e\<close> by (simp_all add: MD_Quote_def bindE_def attempt_def run_simps Let_def)
      ultimately show ?thesis by simp
    qed
  qed
qed

lemma Refresh_genuine:
  assumes ttl: "0 < md_quoteTTL m" and gc: "genuine_cache m w" and run: "Refresh m s w = (r, w')"
  shows "genuine_cache m w' \<and> (\<forall>q. r = Inr q \<longrightarrow> genuine m s (clock w) q \<and> quote_as_of q = clock w)"
proof (cases "prov_Quote (md_provider m) s (clock w)")
  case (Inl e)
  with run gc show ?thesis by (auto simp: Refresh_def bindE_def run_simps)
next
  case (Inr price)
  let ?q = "\<lparr>quote_symbol = s, quote_price = price, quote_as_of = clock w\<rparr>"
  obtain r2 w2 where st: "SetQuote (md_quoteTTL m) ?q w = (r2, w2)" by fastforce
  have "genuine_cache m w2" using SetQuote_genuine [OF ttl gc Inr st] by simp
  moreover have "genuine m s (clock w) ?q" using ttl Inr by (simp add: genuine_def)
  moreover have "w' = w2 \<and> (r = Inr ?q \<or> (\<exists>e. r = Inl e))"
  proof (cases r2)
    case (Inl e)
    with run st Inr have "Inl e = r \<and> w2 = w'" by (simp add: Refresh_def bindE_def run_simps Let_def)
    then show ?thesis by blast
  next
    case (Inr u)
    with run st \<open>prov_Quote (md_provider m) s (clock w) = Inr price\<close> show ?thesis
      by (simp add: Refresh_def bindE_def run_simps Let_def)
  qed
  ultimately show ?thesis by auto
qed

text \<open>
  C21. Quotes are genuine and fresh. Whichever calls fail, starting from a genuine cache (the empty
  one, for instance): every quote that the read-through service or a refresh returns carries a price
  that the provider gave for that very symbol at the quote's time stamp, which is at most the
  configured time to live ago, and the cache stays genuine, also as time passes.
\<close>
theorem quotes_genuine:
  assumes "0 < md_quoteTTL m" and "genuine_cache m w"
  shows "(case MD_Quote m s w of (r, w') \<Rightarrow> genuine_cache m w' \<and> (\<forall>q. r = Inr q \<longrightarrow> genuine m s (clock w) q)) \<and>
    (case Refresh m s w of (r, w') \<Rightarrow> genuine_cache m w' \<and>
       (\<forall>q. r = Inr q \<longrightarrow> genuine m s (clock w) q \<and> quote_as_of q = clock w)) \<and>
    (clock w \<le> t \<longrightarrow> genuine_cache m (w\<lparr>clock := t\<rparr>))"
  using MD_Quote_genuine [OF assms, of s] Refresh_genuine [OF assms, of s] assms(2)
  by (auto simp: genuine_cache_def split: prod.splits) fastforce

definition empty_world :: world where
  "empty_world = \<lparr>wdb = \<lparr>portfolios = [], entries = [], orders = [], jobs = [], dead_letters = [],
     processed_keys = [], alerts = [], entries_serial = 0\<rparr>, wredis = Map.empty, clock = 0, rng = (\<lambda>n. n),
     drawn = 0, faults = [False, True]\<rparr>"

theorem quotes_genuine_witness:
  "case MD_Quote \<lparr>md_provider = stub (\<lambda>_. 0), md_quoteTTL = 10\<rparr> ''TECHM'' empty_world of (r, w') \<Rightarrow>
     r = Inr \<lparr>quote_symbol = ''TECHM'', quote_price = 508068, quote_as_of = 0\<rparr> \<and>
     genuine_cache \<lparr>md_provider = stub (\<lambda>_. 0), md_quoteTTL = 10\<rparr> w'"
proof -
  let ?m = "\<lparr>md_provider = stub (\<lambda>_. 0), md_quoteTTL = 10\<rparr>"
  have u: "universeBySymbol ''TECHM'' = None" "fnv32a ''TECHM'' = 547998068" by code_simp+
  obtain r w' where run: "MD_Quote ?m ''TECHM'' empty_world = (r, w')" by fastforce
  have "r = Inr \<lparr>quote_symbol = ''TECHM'', quote_price = 508068, quote_as_of = 0\<rparr>"
    using run u
    by (simp add: MD_Quote_def bindE_def attempt_def GetQuote_def redis_get_def ext_def run_simps Let_def
        empty_world_def rlive_def stub_def stub_Quote_def SetQuote_def redis_set_def)
  moreover have "genuine_cache ?m empty_world" by (simp add: genuine_cache_def empty_world_def)
  then have "genuine_cache ?m w'" using quotes_genuine [of ?m empty_world "''TECHM''"] run by simp
  ultimately show ?thesis by (simp add: run)
qed

section \<open>Top movers\<close>

lemma sorted_take_rest:
  assumes "sorted (map f xs)" and "x \<in> set (take k xs)" and "y \<in> set (drop k xs)"
  shows "f x \<le> f y"
proof -
  have "sorted (map f (take k xs) @ map f (drop k xs))" using assms(1) by (simp flip: map_append)
  then show ?thesis using assms(2,3) by (auto simp: sorted_append)
qed

text \<open>
  C30. The top movers. For the provider of any configuration and whichever calls fail, the list always
  comes back: it has at most as many stocks as asked for (all of them for a limit that is not
  positive), each a row of the list of stocks and each symbol once, ordered by the size of the day
  change and then by symbol, and no stock that was left out moved more than one that is in it.
\<close>
theorem Trending_top_movers:
  "\<exists>al out w'. Stocks \<lparr>md_provider = New_provider gosin http name apiKey, md_quoteTTL = ttl\<rparr> w = (Inr al, w') \<and>
     Trending \<lparr>md_provider = New_provider gosin http name apiKey, md_quoteTTL = ttl\<rparr> limit w = (Inr out, w') \<and>
     set out \<subseteq> set al \<and> distinct (map sq_symbol out) \<and> sorted (map mover_key out) \<and>
     length out = (if 0 < limit then min (nat limit) (length al) else length al) \<and>
     (\<forall>x \<in> set out. \<forall>y \<in> set al - set out. \<bar>sq_change_pct y\<bar> \<le> \<bar>sq_change_pct x\<bar>)"
proof -
  let ?m = "\<lparr>md_provider = New_provider gosin http name apiKey, md_quoteTTL = ttl\<rparr>"
  obtain al w' where al: "Stocks ?m w = (Inr al, w')"
    using stocks_loop_total unfolding Stocks_def by blast
  have "distinct (map stock_symbol (prov_Universe (md_provider ?m)))"
    by (simp add: New_provider_def stub_def finnhub_def nseUniverse_distinct)
  then have d: "distinct (map sq_symbol al)" using al stocks_loop_distinct unfolding Stocks_def by blast
  define xs k where "xs = sort_key mover_key al"
    and "k = (if 0 < limit \<and> limit < int (length xs) then nat limit else length xs)"
  have out: "Trending ?m limit w = (Inr (take k xs), w')"
    by (simp add: Trending_def bindE_def al ret_def Let_def xs_def k_def)
  have xs: "set xs = set al" "length xs = length al" "sorted (map mover_key xs)" by (simp_all add: xs_def)
  have dx: "distinct (map sq_symbol xs)"
  proof -
    have "mset (map sq_symbol xs) = mset (map sq_symbol al)" by (simp add: xs_def)
    then show ?thesis using d by (metis mset_eq_imp_distinct_iff)
  qed
  have "\<bar>sq_change_pct y\<bar> \<le> \<bar>sq_change_pct x\<bar>" if "x \<in> set (take k xs)" "y \<in> set al - set (take k xs)" for x y
  proof -
    have "y \<in> set (drop k xs)" using that(2) xs(1) by (metis DiffE UnE append_take_drop_id set_append)
    then have "mover_key x \<le> mover_key y" using sorted_take_rest [OF xs(3) that(1)] by blast
    then have "- go_abs (sq_change_pct x) \<le> - go_abs (sq_change_pct y)"
      by (auto simp: mover_key_def less_eq_prod_def)
    then show ?thesis by (simp add: go_abs_def abs_if split: if_splits)
  qed
  moreover have "distinct (map sq_symbol (take k xs))" "sorted (map mover_key (take k xs))"
    using dx xs(3) by (simp_all add: take_map [symmetric] sorted_wrt_take)
  moreover have "set (take k xs) \<subseteq> set al" using xs(1) set_take_subset by fastforce
  moreover have "length (take k xs) = (if 0 < limit then min (nat limit) (length al) else length al)"
    using xs(2) by (auto simp: k_def min_def)
  ultimately show ?thesis using al out by blast
qed

theorem Trending_top_movers_witness:
  "\<exists>out w'. Trending \<lparr>md_provider = New_provider (\<lambda>x. 0) (\<lambda>u t. Inl ErrIO) ''stub'' [], md_quoteTTL = 10\<rparr> 2 empty_world =
       (Inr out, w') \<and> length out \<le> 2 \<and> distinct (map sq_symbol out) \<and> sorted (map mover_key out)"
proof -
  obtain al :: "stock_quote list" and out w' where "Trending \<lparr>md_provider = New_provider (\<lambda>x. 0) (\<lambda>u t. Inl ErrIO) ''stub'' [], md_quoteTTL = 10\<rparr> 2
      empty_world = (Inr out, w')" and "distinct (map sq_symbol out)" and "sorted (map mover_key out)"
    and "length out = (if 0 < (2 :: int) then min (nat 2) (length al) else length al)"
    using Trending_top_movers [of "\<lambda>x. 0" "\<lambda>u t. Inl ErrIO" "''stub''" "[]" 10 empty_world 2] by blast
  then show ?thesis by auto
qed

text \<open>
  The conversion of live prices loses a paisa on prices that have no exact binary form: a price
  of 4.35 rupees is quoted as 434 paise, and a positive price below one paisa as 0.
\<close>
theorem finnhub_loses_paisa:
  "prov_Quote (finnhub (\<lambda>url now. Inr \<lparr>resp_status = 200, resp_c = Some (dbl (435 / 100))\<rparr>) apiKey) s t = Inr 434 \<and>
   prov_Quote (finnhub (\<lambda>url now. Inr \<lparr>resp_status = 200, resp_c = Some (dbl (5 / 1000))\<rparr>) apiKey) s t = Inr 0"
proof -
  have "go_trunc (dbl (dbl (435 / 100) * 100)) = 434" "\<not> dbl (435 / 100) \<le> 0"
    "go_trunc (dbl (dbl (5 / 1000) * 100)) = 0" "\<not> dbl (5 / 1000) \<le> 0" by code_simp+
  then show ?thesis by (simp add: finnhub_def finnhub_Quote_def)
qed

end
