(* ===== verification/Rate_Limit.thy ===== *)
theory Rate_Limit
  imports Store Go_Float
begin

text \<open>
  \<open>internal/ratelimit/ratelimit.go\<close>: per-key limits in Redis, as a token bucket or as a sliding
  window. Each limit check runs one Lua script, which is atomic; the scripts' numbers are floating
  point numbers and are computed with \<open>dbl\<close> after every operation.

  Redis conventions used by the scripts: a command on a key of another type is an error and ends the
  script (effects before it remain); \<open>HSET\<close> keeps the time to live of an existing key; \<open>PEXPIRE\<close> with
  a time that is not positive deletes the key; numbers are passed to commands as text with 17
  significant digits, which reads back exactly, and whose notation is an integer below \<open>10^17\<close>; the
  last member of a sorted set takes the key with it.

  The limiter (its default configuration and its counter of sliding-window requests) is passed along
  explicitly.
\<close>

record rl_result =
  rl_Allowed :: bool
  rl_Limit :: int
  rl_Remaining :: int
  rl_ResetSec :: int

record limiter =
  defaultCfg :: rl_config
  counter :: "64 word"

definition New_limiter :: "rat \<Rightarrow> int \<Rightarrow> limiter" where
  "New_limiter r b =
     \<lparr>defaultCfg = \<lparr>mode = ''token'', rate = r, burst = b, window_ms = 1000\<rparr>, counter = 0\<rparr>"

section \<open>The token bucket script\<close>

text \<open>
  The decision of the script: from the stored tokens and time stamp, if any, whether the request is
  allowed and the tokens that remain.
\<close>

definition refill :: "rat \<Rightarrow> rat \<Rightarrow> time \<Rightarrow> rat \<Rightarrow> time \<Rightarrow> rat" where
  "refill r b now tokens ts =
     min b (dbl (tokens + dbl (dbl (of_int (max 0 (now - ts)) / 1000) * r)))"

definition token_step :: "rat \<Rightarrow> rat \<Rightarrow> time \<Rightarrow> (rat \<times> time) option \<Rightarrow> bool \<times> rat" where
  "token_step r b now st =
     (let (tokens, ts) = (case st of None \<Rightarrow> (b, now) | Some s \<Rightarrow> s);
          avail = refill r b now tokens ts
      in if 1 \<le> avail then (True, dbl (avail - 1)) else (False, avail))"

definition token_ttl :: "rat \<Rightarrow> rat \<Rightarrow> int" where
  "token_ttl r b =
     (if 0 < r then \<lfloor>dbl (of_int \<lceil>dbl (dbl (b / r) * 1000)\<rceil> + 1000)\<rfloor> else 1000)"

definition token_reset :: "rat \<Rightarrow> rat \<Rightarrow> rat \<Rightarrow> int" where
  "token_reset r b tokens = (if 0 < r then \<lceil>dbl (dbl (b - tokens) / r)\<rceil> else 0)"

definition rexpiry :: "time \<Rightarrow> redis \<Rightarrow> rkey \<Rightarrow> time option" where
  "rexpiry now rd k = (if rlive now rd k = None then None else case rd k of None \<Rightarrow> None | Some (_, e) \<Rightarrow> e)"

text \<open>\<open>PEXPIRE\<close> on a key that holds the given value.\<close>

definition pexpire :: "time \<Rightarrow> int \<Rightarrow> rkey \<Rightarrow> rval \<Rightarrow> redis \<Rightarrow> redis" where
  "pexpire now ttl k v rd = (if ttl \<le> 0 then rd(k := None) else rd(k \<mapsto> (v, Some (now + ttl))))"

definition tokenBucket :: "rkey \<Rightarrow> rat \<Rightarrow> int \<Rightarrow> time \<Rightarrow> (int \<times> int \<times> int) io" where
  "tokenBucket k r bst now = ext (\<lambda>w.
     let b = dbl (of_int bst); rd = wredis w in
     case (case rlive (clock w) rd k of
             None \<Rightarrow> Some None
           | Some (RHash tokens ts) \<Rightarrow> Some (Some (tokens, ts))
           | Some _ \<Rightarrow> None) of
       None \<Rightarrow> (Inl WrongType, w)
     | Some st \<Rightarrow>
         (let (ok, tokens) = token_step r b now st; ttl = token_ttl r b
          in if \<bar>ttl\<bar> < 10 ^ 17
             then (Inr (if ok then 1 else 0, \<lfloor>tokens\<rfloor>, token_reset r b tokens),
                   w\<lparr>wredis := pexpire (clock w) ttl k (RHash tokens now) rd\<rparr>)
             else (Inl (ErrMsg ''ERR value is not an integer or out of range''),
                   w\<lparr>wredis := rd(k \<mapsto> (RHash tokens now, rexpiry (clock w) rd k))\<rparr>)))"

section \<open>The sliding window script\<close>

definition zset_of :: "rval option \<Rightarrow> (int \<times> string) list option" where
  "zset_of v = (case v of None \<Rightarrow> Some [] | Some (RZSet zs) \<Rightarrow> Some zs | Some _ \<Rightarrow> None)"

definition zadd :: "int \<Rightarrow> string \<Rightarrow> (int \<times> string) list \<Rightarrow> (int \<times> string) list" where
  "zadd score member zs = filter (\<lambda>z. snd z \<noteq> member) zs @ [(score, member)]"

text \<open>\<open>ZREMRANGEBYSCORE key 0 (now - window)\<close>, then the count, then the addition.\<close>

definition window_step ::
    "time \<Rightarrow> int \<Rightarrow> int \<Rightarrow> string \<Rightarrow> (int \<times> string) list \<Rightarrow> bool \<times> int \<times> (int \<times> string) list" where
  "window_step now window limit member zs =
     (let zs1 = filter (\<lambda>z. \<not> (0 \<le> fst z \<and> fst z \<le> now - window)) zs; count = int (length zs1)
      in if count < limit then (True, count + 1, zadd now member zs1) else (False, count, zs1))"

definition slidingWindow :: "rkey \<Rightarrow> time \<Rightarrow> int \<Rightarrow> int \<Rightarrow> string \<Rightarrow> (int \<times> int \<times> int) io" where
  "slidingWindow k now window limit member = ext (\<lambda>w.
     case zset_of (rlive (clock w) (wredis w) k) of
       None \<Rightarrow> (Inl WrongType, w)
     | Some zs \<Rightarrow>
         (let (ok, count, zs') = window_step now window limit member zs
          in (Inr (if ok then 1 else 0, max 0 (limit - count), \<lceil>dbl (of_int window / 1000)\<rceil>),
              w\<lparr>wredis := (if zs' = [] then (wredis w)(k := None)
                           else pexpire (clock w) window k (RZSet zs') (wredis w))\<rparr>)))"

section \<open>The limiter\<close>

definition GetConfig :: "limiter \<Rightarrow> string \<Rightarrow> rl_config io" where
  "GetConfig l key = bindE (redis_get (cfgKey key)) (\<lambda>r.
     case r of
       None \<Rightarrow> ret (defaultCfg l)
     | Some (RConfig c) \<Rightarrow> ret c
     | Some (RHash _ _) \<Rightarrow> raise WrongType
     | Some (RZSet _) \<Rightarrow> raise WrongType
     | Some _ \<Rightarrow> raise ErrDecode)"

definition SetConfig :: "string \<Rightarrow> rl_config \<Rightarrow> unit io" where
  "SetConfig key c =
     (let c1 = (if mode c = [] then c\<lparr>mode := ''token''\<rparr> else c);
          c2 = (if window_ms c1 = 0 then c1\<lparr>window_ms := 1000\<rparr> else c1)
      in redis_set (cfgKey key) (RConfig c2) None)"

definition member_name :: "time \<Rightarrow> 64 word \<Rightarrow> string" where
  "member_name now n = show_int now @ ''-'' @ show_nat (unat n)"

definition Allow :: "limiter \<Rightarrow> string \<Rightarrow> world \<Rightarrow> (err + rl_result) \<times> limiter \<times> world" where
  "Allow l key w =
     (case GetConfig l key w of
        (Inl e, w1) \<Rightarrow> (Inl e, l, w1)
      | (Inr cfg, w1) \<Rightarrow>
          (let now = clock w1 in
           if mode cfg = ''sliding'' then
             (let l' = l\<lparr>counter := counter l + 1\<rparr> in
              case slidingWindow (bucketKey key) now (window_ms cfg) (go_trunc (rate cfg))
                     (member_name now (counter l')) w1 of
                (Inl e, w2) \<Rightarrow> (Inl e, l', w2)
              | (Inr (a, rem, rs), w2) \<Rightarrow>
                  (Inr \<lparr>rl_Allowed = (a = 1), rl_Limit = go_trunc (rate cfg), rl_Remaining = rem,
                        rl_ResetSec = rs\<rparr>, l', w2))
           else
             (case tokenBucket (bucketKey key) (rate cfg) (burst cfg) now w1 of
                (Inl e, w2) \<Rightarrow> (Inl e, l, w2)
              | (Inr (a, rem, rs), w2) \<Rightarrow>
                  (Inr \<lparr>rl_Allowed = (a = 1), rl_Limit = burst cfg, rl_Remaining = rem,
                        rl_ResetSec = rs\<rparr>, l, w2))))"

end
