(* ===== verification/Rate_Limit_Properties.thy ===== *)
theory Rate_Limit_Properties
  imports Rate_Limit
begin

text \<open>
  What the limiter guarantees: a bound on the requests that a token bucket lets through, with the
  rounding of floating point numbers and the expiry of the Redis key accounted for, the exact
  guarantee of the sliding window, and what happens at the edges (a limit of zero per second, a
  change of the mode).
\<close>

section \<open>One step of the token bucket\<close>

text \<open>A sensible configuration: the bucket has a capacity and refills within \<open>2^40\<close> seconds.\<close>

definition sane_bucket :: "rat \<Rightarrow> int \<Rightarrow> bool" where
  "sane_bucket r bst \<longleftrightarrow> 0 < r \<and> 0 \<le> bst \<and> bst < 2 ^ 52 \<and> of_int bst \<le> r * 2 ^ 40"

definition ulp :: rat where
  "ulp = 1 / 2 ^ 53"

lemma ulp_bounds: "0 < ulp" "ulp < 1 / 1000"
  by (simp_all add: ulp_def)

lemma dbl_le: "0 \<le> x \<Longrightarrow> x \<le> y \<Longrightarrow> dbl x \<le> y * (1 + ulp)"
proof -
  assume "0 \<le> x" and "x \<le> y"
  have "dbl x \<le> x * (1 + ulp)" using dbl_upper [OF \<open>0 \<le> x\<close>] by (simp add: ulp_def)
  also have "\<dots> \<le> y * (1 + ulp)" using \<open>x \<le> y\<close> ulp_bounds by (intro mult_right_mono) simp_all
  finally show ?thesis .
qed

lemma dbl_ge: "0 \<le> y \<Longrightarrow> y \<le> x \<Longrightarrow> y * (1 - ulp) \<le> dbl x"
proof -
  assume "0 \<le> y" and "y \<le> x"
  have "y * (1 - ulp) \<le> x * (1 - ulp)" using \<open>y \<le> x\<close> ulp_bounds by (intro mult_right_mono) simp_all
  also have "\<dots> \<le> dbl x" using dbl_lower [of x] \<open>0 \<le> y\<close> \<open>y \<le> x\<close> by (simp add: ulp_def)
  finally show ?thesis .
qed

lemma dbl_burst: "sane_bucket r bst \<Longrightarrow> dbl (of_int bst) = of_int bst"
  by (rule dbl_of_int) (auto simp: sane_bucket_def)

text \<open>The refill is at most the elapsed time at the rate, up to rounding.\<close>

lemma refill_upper:
  assumes "0 \<le> tokens" and "tokens \<le> b" and "0 \<le> r" and "ts \<le> now"
  shows "refill r b now tokens ts \<le> tokens + of_int (now - ts) / 1000 * r * (1 + ulp) ^ 3 + ulp * b"
proof -
  let ?x = "of_int (now - ts) / 1000 :: rat"
  let ?z = "dbl (dbl ?x * r)"
  have x: "0 \<le> ?x" using assms(4) by simp
  have "dbl ?x * r \<le> ?x * (1 + ulp) * r" using dbl_le [OF x order_refl] assms(3) by (rule mult_right_mono)
  then have z: "?z \<le> ?x * (1 + ulp) * r * (1 + ulp)"
    using dbl_nonneg [OF x] assms(3) by (intro dbl_le) simp_all
  have z0: "0 \<le> ?z" using dbl_nonneg [OF x] assms(3) by (intro dbl_nonneg) simp
  have "dbl (tokens + ?z) \<le> (tokens + ?x * (1 + ulp) * r * (1 + ulp)) * (1 + ulp)"
    using assms(1) z z0 by (intro dbl_le) simp_all
  also have "\<dots> = tokens + ?x * r * (1 + ulp) ^ 3 + ulp * tokens" by (simp add: algebra_simps power3_eq_cube)
  also have "\<dots> \<le> tokens + ?x * r * (1 + ulp) ^ 3 + ulp * b" using assms(2) ulp_bounds by simp
  finally have "dbl (tokens + ?z) \<le> tokens + ?x * r * (1 + ulp) ^ 3 + ulp * b" .
  moreover have "max 0 (now - ts) = now - ts" using assms(4) by simp
  ultimately show ?thesis unfolding refill_def by (simp add: min_def)
qed

lemma refill_range:
  assumes "0 \<le> tokens" and "0 \<le> b" and "0 \<le> r"
  shows "0 \<le> refill r b now tokens ts \<and> refill r b now tokens ts \<le> b"
proof -
  have "0 \<le> dbl (dbl (of_int (max 0 (now - ts)) / 1000) * r)"
    using assms(3) by (intro dbl_nonneg mult_nonneg_nonneg) simp_all
  then have "0 \<le> dbl (tokens + dbl (dbl (of_int (max 0 (now - ts)) / 1000) * r))"
    using assms(1) by (intro dbl_nonneg) simp
  with assms(2) show ?thesis by (simp add: refill_def)
qed

text \<open>The tokens stay between 0 and the capacity.\<close>

lemma token_step_range:
  assumes "0 \<le> tokens" and "0 \<le> b" and "b \<le> 2 ^ 52" and "0 \<le> r"
    and "token_step r b now (Some (tokens, ts)) = (ok, tokens')"
  shows "0 \<le> tokens' \<and> tokens' \<le> b"
proof (cases "1 \<le> refill r b now tokens ts")
  case False
  with assms refill_range [of tokens b r now ts] show ?thesis by (auto simp: token_step_def Let_def)
next
  case True
  let ?a = "refill r b now tokens ts"
  have t: "tokens' = dbl (?a - 1)" using True assms(5) by (simp add: token_step_def Let_def)
  have a: "?a \<le> b" using refill_range [OF assms(1,2,4)] by simp
  have "dbl (?a - 1) \<le> (b - 1) * (1 + ulp)" using True a by (intro dbl_le) simp_all
  also have "\<dots> = b + (ulp * b - ulp - 1)" by (simp add: algebra_simps)
  also have "\<dots> \<le> b" using assms(3) by (simp add: ulp_def)
  finally show ?thesis using dbl_nonneg [of "?a - 1"] True by (simp add: t)
qed

text \<open>The cost of a step: what is let through is paid for by the tokens and the elapsed time.\<close>

lemma token_step_cost:
  assumes "0 \<le> tokens" and "tokens \<le> b" and "0 \<le> r" and "ts \<le> now"
    and "token_step r b now (Some (tokens, ts)) = (ok, tokens')"
  shows "(if ok then 1 else 0) + tokens' \<le>
    tokens + of_int (now - ts) / 1000 * r * (1 + ulp) ^ 3 + 2 * ulp * b"
proof -
  let ?a = "refill r b now tokens ts"
  have b: "0 \<le> b" using assms(1,2) by simp
  note up = refill_upper [OF assms(1-4)]
  have ub: "0 \<le> ulp * b" using b ulp_bounds by simp
  show ?thesis
  proof (cases "1 \<le> ?a")
    case False
    with assms(5) up ub show ?thesis by (simp add: token_step_def Let_def)
  next
    case True
    have "?a \<le> b" using refill_range [OF assms(1) b assms(3)] by simp
    have "dbl (?a - 1) \<le> (?a - 1) * (1 + ulp)" using True by (intro dbl_le) simp_all
    also have "\<dots> = ?a - 1 + ulp * (?a - 1)" by (simp add: algebra_simps)
    also have "\<dots> \<le> ?a - 1 + ulp * b" using \<open>?a \<le> b\<close> ulp_bounds by (intro add_left_mono mult_left_mono) simp_all
    finally show ?thesis using True assms(5) up by (simp add: token_step_def Let_def)
  qed
qed

section \<open>The expiry of the bucket is invisible\<close>

lemma token_ttl_bounds:
  assumes "sane_bucket r bst"
  shows "of_int bst / r * 1000 * (1 - ulp) ^ 2 + 1000 \<le> (of_int (token_ttl r (of_int bst)) :: rat)"
    and "0 < token_ttl r (of_int bst)" and "token_ttl r (of_int bst) < 10 ^ 17"
proof -
  let ?q = "of_int bst / r :: rat"
  let ?c = "\<lceil>dbl (dbl ?q * 1000)\<rceil>"
  have r: "0 < r" and b: "0 \<le> bst" and slow: "of_int bst \<le> r * 2 ^ 40" using assms by (auto simp: sane_bucket_def)
  have q0: "0 \<le> ?q" using r b by simp
  have q1: "?q \<le> 2 ^ 40" using r slow by (simp add: field_simps)
  have "dbl ?q \<le> 2 ^ 40 * (1 + ulp)" using q0 q1 by (rule dbl_le)
  also have "\<dots> \<le> 2 ^ 41" using ulp_bounds by simp
  finally have d1: "dbl ?q \<le> 2 ^ 41" .
  have d0: "0 \<le> dbl ?q" using q0 by (rule dbl_nonneg)
  have "dbl (dbl ?q * 1000) \<le> (2 ^ 41 * 1000) * (1 + ulp)" using d0 d1 by (intro dbl_le) simp_all
  also have "\<dots> \<le> 2 ^ 52" using ulp_bounds by simp
  finally have c1: "?c \<le> 2 ^ 52" by (simp add: ceiling_le_iff)
  have c0: "0 \<le> dbl (dbl ?q * 1000)" using d0 by (intro dbl_nonneg) simp
  then have c00: "0 \<le> ?c" by (simp add: le_ceiling_iff)
  have "dbl (of_int (?c + 1000)) = (of_int (?c + 1000) :: rat)" using c00 c1 by (intro dbl_of_int) simp
  then have ttl: "token_ttl r (of_int bst) = ?c + 1000" using r by (simp add: token_ttl_def)
  have "?q * (1 - ulp) * 1000 * (1 - ulp) \<le> dbl (dbl ?q * 1000)"
  proof (rule dbl_ge)
    show "0 \<le> ?q * (1 - ulp) * 1000" using q0 ulp_bounds by (intro mult_nonneg_nonneg) simp_all
    show "?q * (1 - ulp) * 1000 \<le> dbl ?q * 1000" using dbl_ge [OF q0 order_refl] by (intro mult_right_mono) simp_all
  qed
  also have "\<dots> \<le> of_int ?c" by (rule le_of_int_ceiling)
  finally show "?q * 1000 * (1 - ulp) ^ 2 + 1000 \<le> (of_int (token_ttl r (of_int bst)) :: rat)"
    by (simp add: ttl algebra_simps power2_eq_square)
  have "0 < x + 1000 \<and> x + 1000 < 10 ^ 17" if "0 \<le> x" "x \<le> 2 ^ 52" for x :: int using that by simp
  from this [OF c00 c1] show "0 < token_ttl r (of_int bst)" "token_ttl r (of_int bst) < 10 ^ 17"
    by (simp_all only: ttl)
qed

lemma refill_full_after_ttl:
  assumes sane: "sane_bucket r bst" and tokens: "0 \<le> tokens"
    and late: "ts + token_ttl r (of_int bst) < now"
  shows "refill r (of_int bst) now tokens ts = of_int bst"
proof -
  let ?b = "of_int bst :: rat" and ?x = "of_int (now - ts) / 1000 :: rat" and ?v = "1 - ulp"
  have r: "0 < r" and b: "0 \<le> ?b" and slow: "?b \<le> r * 2 ^ 40" using sane by (auto simp: sane_bucket_def)
  have v: "0 < ?v" using ulp_bounds by simp
  note ttl = token_ttl_bounds [OF sane]
  have "rat_of_int (token_ttl r ?b) \<le> rat_of_int (now - ts)" using late by (simp only: of_int_le_iff)
  then have "?b / r * 1000 * ?v ^ 2 + 1000 \<le> of_int (now - ts)" using ttl(1) by linarith
  then have x: "?b / r * ?v ^ 2 + 1 \<le> ?x" by (simp add: field_simps)
  have k0: "0 \<le> ?b / r * ?v ^ 2 + 1" using b r by simp
  have y: "(?b / r * ?v ^ 2 + 1) * ?v \<le> dbl ?x" using k0 x by (rule dbl_ge)
  have "(?b / r * ?v ^ 2 + 1) * ?v * r \<le> dbl ?x * r" using y r by (intro mult_right_mono) simp_all
  then have "(?b / r * ?v ^ 2 + 1) * ?v * r * ?v \<le> dbl (dbl ?x * r)"
    using r k0 v by (intro dbl_ge) (simp_all add: mult_nonneg_nonneg)
  then have "(?b / r * ?v ^ 2 + 1) * ?v * r * ?v \<le> tokens + dbl (dbl ?x * r)" using tokens by simp
  then have "(?b / r * ?v ^ 2 + 1) * ?v * r * ?v * ?v \<le> dbl (tokens + dbl (dbl ?x * r))"
    using k0 v r by (intro dbl_ge) simp_all
  moreover have "(?b / r * ?v ^ 2 + 1) * ?v * r * ?v * ?v = ?b * ?v ^ 5 + r * ?v ^ 3"
    using r by (simp add: field_simps eval_nat_numeral)
  moreover have "?b \<le> ?b * ?v ^ 5 + r * ?v ^ 3"
  proof -
    have "1 - 5 * ulp \<le> ?v ^ 5" using Bernoulli_inequality [of "- ulp" 5] ulp_bounds by simp
    then have "?b * (1 - 5 * ulp) \<le> ?b * ?v ^ 5" using b by (rule mult_left_mono)
    moreover have "1 / 2 \<le> ?v ^ 3" using Bernoulli_inequality [of "- ulp" 3] ulp_bounds by simp
    then have "r * (1 / 2) \<le> r * ?v ^ 3" using r by (intro mult_left_mono) simp_all
    moreover have "?b * (5 * ulp) \<le> r * (1 / 2)" using slow r by (simp add: ulp_def)
    ultimately show ?thesis by (simp add: algebra_simps)
  qed
  ultimately have "?b \<le> dbl (tokens + dbl (dbl ?x * r))" by simp
  moreover have "max 0 (now - ts) = now - ts" using late ttl(2) by simp
  ultimately show ?thesis by (simp add: refill_def min_def)
qed

lemma refill_now: "sane_bucket r bst \<Longrightarrow> refill r (of_int bst) now (of_int bst) now = of_int bst"
  by (simp add: refill_def dbl_burst)

text \<open>So a bucket that Redis has forgotten acts like the one it was.\<close>

lemma token_step_expired:
  assumes "sane_bucket r bst" and "0 \<le> tokens" and "ts + token_ttl r (of_int bst) < now"
  shows "token_step r (of_int bst) now None = token_step r (of_int bst) now (Some (tokens, ts))"
  using refill_full_after_ttl [OF assms] refill_now [OF assms(1)] by (simp add: token_step_def)

section \<open>Requests against a token bucket\<close>

text \<open>
  The number of requests let through when a client sends requests at the given times: a request
  passes if the limiter allows it, or if the check fails.
\<close>

fun passes :: "limiter \<Rightarrow> string \<Rightarrow> time list \<Rightarrow> world \<Rightarrow> time list" where
  "passes l key [] w = []"
| "passes l key (t # ts) w =
     (case Allow l key (w\<lparr>clock := t\<rparr>) of
        (r, l', w') \<Rightarrow>
          (if (case r of Inl _ \<Rightarrow> True | Inr res \<Rightarrow> rl_Allowed res) then [t] else []) @ passes l' key ts w')"

definition configured :: "limiter \<Rightarrow> string \<Rightarrow> rl_config \<Rightarrow> world \<Rightarrow> bool" where
  "configured l key c w \<longleftrightarrow>
     (case wredis w (cfgKey key) of None \<Rightarrow> defaultCfg l = c | Some v \<Rightarrow> v = (RConfig c, None))"

lemma GetConfig_run:
  "faults w = [] \<Longrightarrow> configured l key c w \<Longrightarrow> GetConfig l key w = (Inr c, w)"
  by (auto simp: GetConfig_def bindE_def redis_get_def rlive_def run_simps configured_def split: option.splits)

text \<open>The stored bucket, expired or not.\<close>

definition stored_bucket :: "rat \<Rightarrow> int \<Rightarrow> string \<Rightarrow> rat \<Rightarrow> time \<Rightarrow> world \<Rightarrow> bool" where
  "stored_bucket r bst key tokens ts w \<longleftrightarrow>
     wredis w (bucketKey key) = Some (RHash tokens ts, Some (ts + token_ttl r (of_int bst))) \<and>
     0 \<le> tokens \<and> tokens \<le> of_int bst"

lemma tokenBucket_run:
  assumes nf: "faults w = []" and sane: "sane_bucket r bst"
    and st: "stored_bucket r bst key tokens ts w \<or>
             wredis w (bucketKey key) = None \<and> tokens = of_int bst \<and> ts = clock w"
    and step: "token_step r (of_int bst) (clock w) (Some (tokens, ts)) = (ok, tokens')"
  shows "tokenBucket (bucketKey key) r bst (clock w) w =
    (Inr (if ok then 1 else 0, \<lfloor>tokens'\<rfloor>, token_reset r (of_int bst) tokens'),
     w\<lparr>wredis := (wredis w)(bucketKey key \<mapsto> (RHash tokens' (clock w), Some (clock w + token_ttl r (of_int bst))))\<rparr>)"
proof -
  note ttl = token_ttl_bounds [OF sane]
  let ?live = "rlive (clock w) (wredis w) (bucketKey key)"
  have "?live = None \<and> token_step r (of_int bst) (clock w) None = (ok, tokens') \<or>
        ?live = Some (RHash tokens ts)"
    using st
  proof
    assume "wredis w (bucketKey key) = None \<and> tokens = of_int bst \<and> ts = clock w"
    with step show ?thesis by (simp add: rlive_def token_step_def)
  next
    assume sb: "stored_bucket r bst key tokens ts w"
    then show ?thesis
      using step token_step_expired [OF sane, of tokens ts "clock w"]
      by (auto simp: stored_bucket_def rlive_def)
  qed
  then show ?thesis
    using nf step ttl(2,3) sane
    by (auto simp: tokenBucket_def run_simps Let_def dbl_burst pexpire_def)
qed

lemma Allow_token_run:
  assumes "faults w = []" and "configured l key c w" and "mode c \<noteq> ''sliding''"
    and "tokenBucket (bucketKey key) (rate c) (burst c) (clock w) w = (Inr (a, rem, rs), w')"
  shows "Allow l key w = (Inr \<lparr>rl_Allowed = (a = 1), rl_Limit = burst c, rl_Remaining = rem, rl_ResetSec = rs\<rparr>, l, w')"
  using GetConfig_run [OF assms(1,2)] assms(3,4) by (simp add: Allow_def Let_def)

lemma passes_bucket:
  assumes "sane_bucket (rate c) (burst c)" and "mode c \<noteq> ''sliding''"
  shows "faults w = [] \<Longrightarrow> configured l key c w \<Longrightarrow> sorted (ts # reqs) \<Longrightarrow>
    stored_bucket (rate c) (burst c) key tokens ts w \<or>
      wredis w (bucketKey key) = None \<and> tokens = of_int (burst c) \<and> reqs \<noteq> [] \<and> ts = hd reqs \<Longrightarrow>
    of_nat (length (passes l key reqs w)) \<le> tokens +
      of_int (last (ts # reqs) - ts) / 1000 * rate c * (1 + ulp) ^ 3 +
      2 * ulp * of_int (burst c) * of_nat (length reqs)"
proof (induction reqs arbitrary: w tokens ts)
  case Nil
  then show ?case by (simp add: stored_bucket_def)
next
  case (Cons t reqs)
  let ?b = "of_int (burst c) :: rat" and ?r = "rate c"
  let ?w = "w\<lparr>clock := t\<rparr>"
  have r: "0 \<le> ?r" and b: "0 \<le> ?b" "?b \<le> 2 ^ 52"
  proof -
    have "rat_of_int (burst c) \<le> rat_of_int (2 ^ 52)" using assms(1) by (simp only: of_int_le_iff sane_bucket_def) simp
    then show "?b \<le> 2 ^ 52" by simp
  qed (use assms(1) in \<open>auto simp: sane_bucket_def\<close>)
  have tk: "0 \<le> tokens" "tokens \<le> ?b" using Cons.prems(4) b by (auto simp: stored_bucket_def)
  have le: "ts \<le> t" using Cons.prems(3) by simp
  obtain ok tokens' where step: "token_step ?r ?b t (Some (tokens, ts)) = (ok, tokens')" by fastforce
  have rg: "0 \<le> tokens' \<and> tokens' \<le> ?b" using tk(1) b r step by (rule token_step_range)
  have cost: "(if ok then 1 else 0) + tokens' \<le> tokens + of_int (t - ts) / 1000 * ?r * (1 + ulp) ^ 3 + 2 * ulp * ?b"
    using tk r le step by (rule token_step_cost)
  let ?w' = "?w\<lparr>wredis := (wredis w)(bucketKey key \<mapsto> (RHash tokens' t, Some (t + token_ttl ?r ?b)))\<rparr>"
  have "tokenBucket (bucketKey key) ?r (burst c) t ?w =
      (Inr (if ok then 1 else 0, \<lfloor>tokens'\<rfloor>, token_reset ?r ?b tokens'), ?w')"
    using tokenBucket_run [of ?w ?r "burst c" key tokens ts ok tokens'] assms(1) Cons.prems step
    by (auto simp: stored_bucket_def)
  then have al: "Allow l key ?w = (Inr \<lparr>rl_Allowed = ok, rl_Limit = burst c, rl_Remaining = \<lfloor>tokens'\<rfloor>,
      rl_ResetSec = token_reset ?r ?b tokens'\<rparr>, l, ?w')"
    using Allow_token_run [of ?w l key c] Cons.prems(1,2) assms(2) by (simp add: configured_def)
  have "of_nat (length (passes l key reqs ?w')) \<le> tokens' +
      of_int (last (t # reqs) - t) / 1000 * ?r * (1 + ulp) ^ 3 + 2 * ulp * ?b * of_nat (length reqs)"
    by (rule Cons.IH) (use Cons.prems rg in \<open>simp_all add: configured_def stored_bucket_def\<close>)
  then have "of_nat (length (passes l key (t # reqs) w)) \<le> (if ok then 1 else 0) + tokens' +
      of_int (last (t # reqs) - t) / 1000 * ?r * (1 + ulp) ^ 3 + 2 * ulp * ?b * of_nat (length reqs)"
    by (simp add: al)
  also have "\<dots> \<le> tokens + of_int (t - ts) / 1000 * ?r * (1 + ulp) ^ 3 + 2 * ulp * ?b +
      of_int (last (t # reqs) - t) / 1000 * ?r * (1 + ulp) ^ 3 + 2 * ulp * ?b * of_nat (length reqs)"
    using cost by simp
  also have "\<dots> = tokens + of_int (last (ts # t # reqs) - ts) / 1000 * ?r * (1 + ulp) ^ 3 +
      2 * ulp * ?b * of_nat (length (t # reqs))"
    by (simp add: field_simps)
  finally show ?case .
qed

text \<open>
  C14. The token bucket keeps its promise. For a key in token mode with a sensible configuration, no
  bucket yet, and no failing calls, whatever the times of its requests: the number of requests let
  through is at most the burst size plus the rate times the elapsed time, up to the rounding of 64-bit
  floating point numbers (a relative error of about \<open>3 * 2^-53\<close> in the refill and at most
  \<open>2^-52\<close> of a bucket per request). That Redis forgets an idle bucket makes no difference.
\<close>
theorem token_bucket_bound:
  assumes "sane_bucket (rate c) (burst c)" and "mode c \<noteq> ''sliding''"
    and "faults w = []" and "configured l key c w" and "wredis w (bucketKey key) = None"
    and "sorted (t # reqs)"
  shows "of_nat (length (passes l key (t # reqs) w)) \<le>
    of_int (burst c) + of_int (last (t # reqs) - t) / 1000 * rate c * (1 + 1 / 2 ^ 53) ^ 3 +
    of_int (burst c) * of_nat (length (t # reqs)) / 2 ^ 52"
proof -
  have "of_nat (length (passes l key (t # reqs) w)) \<le> of_int (burst c) +
      of_int (last (t # t # reqs) - t) / 1000 * rate c * (1 + ulp) ^ 3 +
      2 * ulp * of_int (burst c) * of_nat (length (t # reqs))"
    by (rule passes_bucket) (use assms in auto)
  then show ?thesis by (simp add: ulp_def)
qed

definition quiet_world :: world where
  "quiet_world = \<lparr>wdb = \<lparr>portfolios = [], entries = [], orders = [], jobs = [], dead_letters = [],
     processed_keys = [], alerts = [], entries_serial = 0\<rparr>, wredis = Map.empty, clock = 0, rng = (\<lambda>n. n),
     drawn = 0, faults = []\<rparr>"

theorem token_bucket_bound_witness:
  "of_nat (length (passes (New_limiter 10 2) ''k'' [0, 0, 0, 100] quiet_world)) \<le>
     (2 + 1 * (1 + 1 / 2 ^ 53) ^ 3 + 2 * 4 / 2 ^ 52 :: rat)"
  using token_bucket_bound [of "defaultCfg (New_limiter 10 2)" quiet_world "New_limiter 10 2" "''k''" 0 "[0, 0, 100]"]
  by (simp add: New_limiter_def quiet_world_def sane_bucket_def configured_def)

section \<open>Requests against a sliding window\<close>

text \<open>
  The reference: admit a request if fewer than \<open>limit\<close> requests were admitted in the window that
  ends now.
\<close>

fun greedy :: "int \<Rightarrow> int \<Rightarrow> time list \<Rightarrow> time list \<Rightarrow> time list" where
  "greedy window limit past [] = []"
| "greedy window limit past (t # reqs) =
     (if int (length (filter (\<lambda>a. t - window < a) past)) < limit
      then t # greedy window limit (past @ [t]) reqs
      else greedy window limit past reqs)"

definition window_full :: "int \<Rightarrow> int \<Rightarrow> time list \<Rightarrow> bool" where
  "window_full window limit past \<longleftrightarrow>
     (\<forall>t. int (length (filter (\<lambda>a. t - window < a \<and> a \<le> t) past)) \<le> max 0 limit)"

lemma length_filter_imp: "(\<And>x. P x \<Longrightarrow> Q x) \<Longrightarrow> length (filter P xs) \<le> length (filter Q xs)"
  by (induction xs) auto

lemma window_full_snoc:
  assumes "window_full window limit past" and "\<forall>a \<in> set past. a \<le> now"
    and "int (length (filter (\<lambda>a. now - window < a) past)) < limit"
  shows "window_full window limit (past @ [now])"
  unfolding window_full_def
proof
  fix t
  show "int (length (filter (\<lambda>a. t - window < a \<and> a \<le> t) (past @ [now]))) \<le> max 0 limit"
  proof (cases "now \<le> t")
    case True
    then have "length (filter (\<lambda>a. t - window < a \<and> a \<le> t) past) \<le> length (filter (\<lambda>a. now - window < a) past)"
      by (intro length_filter_imp) simp
    with assms(3) show ?thesis by simp
  next
    case False
    then show ?thesis using assms(1) by (simp add: window_full_def)
  qed
qed

lemma greedy_full:
  "window_full window limit past \<Longrightarrow> sorted reqs \<Longrightarrow> \<forall>a \<in> set past. \<forall>t \<in> set reqs. a \<le> t \<Longrightarrow>
   window_full window limit (past @ greedy window limit past reqs)"
proof (induction reqs arbitrary: past)
  case (Cons t reqs)
  show ?case
  proof (cases "int (length (filter (\<lambda>a. t - window < a) past)) < limit")
    case True
    have "window_full window limit (past @ [t])" using Cons.prems True by (intro window_full_snoc) auto
    then have "window_full window limit ((past @ [t]) @ greedy window limit (past @ [t]) reqs)"
      by (rule Cons.IH) (use Cons.prems in auto)
    with True show ?thesis by simp
  next
    case False
    with Cons show ?thesis by simp
  qed
qed simp

lemma member_name_tail:
  "takeWhile (\<lambda>c. c \<noteq> CHR ''-'') (rev (member_name now m)) = rev (show_nat (unat m))"
proof -
  have "\<And>c. c \<in> set (rev (show_nat (unat m))) \<Longrightarrow> c \<noteq> CHR ''-''"
    using show_nat_no_dash [of "unat m"] by auto
  then have "takeWhile (\<lambda>c. c \<noteq> CHR ''-'') (rev (show_nat (unat m)) @ CHR ''-'' # rev (show_int now)) =
      rev (show_nat (unat m)) @ takeWhile (\<lambda>c. c \<noteq> CHR ''-'') (CHR ''-'' # rev (show_int now))"
    by (rule takeWhile_append2)
  then show ?thesis by (simp add: member_name_def)
qed

lemma member_name_inj: "member_name now m = member_name now' n \<Longrightarrow> m = n"
  using member_name_tail [of now m] member_name_tail [of now' n] by (simp add: show_nat_inj word_unat_eq_iff)

text \<open>The sorted set holds the admitted requests that can still count.\<close>

definition stored_window :: "limiter \<Rightarrow> string \<Rightarrow> int \<Rightarrow> time list \<Rightarrow> time \<Rightarrow> world \<Rightarrow> bool" where
  "stored_window l key window past ts w \<longleftrightarrow>
     (\<forall>a \<in> set past. a \<le> ts) \<and>
     (case wredis w (bucketKey key) of
        None \<Rightarrow> filter (\<lambda>a. ts - window < a) past = []
      | Some (v, e) \<Rightarrow> \<exists>zs. v = RZSet zs \<and> e = Some (ts + window) \<and>
          filter (\<lambda>a. ts - window < a) (map fst zs) = filter (\<lambda>a. ts - window < a) past \<and>
          (\<forall>z \<in> set zs. 0 \<le> fst z \<and> (\<exists>a k. snd z = member_name a k \<and> unat k \<le> unat (counter l))))"

text \<open>One check: the script's decision is the reference's, on the requests the set still holds.\<close>

lemma window_step_greedy:
  assumes "\<forall>z \<in> set zs. 0 \<le> fst z" and "member \<notin> snd ` set zs"
    and "filter (\<lambda>a. now - window < a) (map fst zs) = filter (\<lambda>a. now - window < a) past"
    and "ok = (int (length (filter (\<lambda>a. now - window < a) past)) < limit)"
  shows "\<exists>zs'. window_step now window limit member zs =
      (ok, int (length zs'), zs') \<and> set zs' \<subseteq> insert (now, member) (set zs) \<and>
      map fst zs' = filter (\<lambda>a. now - window < a) past @ (if ok then [now] else [])"
proof -
  let ?zs = "filter (\<lambda>z. now - window < fst z) zs"
  have old: "filter (\<lambda>z. \<not> (0 \<le> fst z \<and> fst z \<le> now - window)) zs = ?zs"
    by (rule filter_cong) (use assms(1) in auto)
  have m: "map fst ?zs = filter (\<lambda>a. now - window < a) past" using assms(3) by (simp add: filter_map comp_def)
  have len: "length ?zs = length (filter (\<lambda>a. now - window < a) past)" using m by (metis length_map)
  have new: "filter (\<lambda>z. snd z \<noteq> member) ?zs = ?zs" by (rule filter_True) (use assms(2) in force)
  have "window_step now window limit member zs = (ok, int (length (?zs @ (if ok then [(now, member)] else []))),
      ?zs @ (if ok then [(now, member)] else []))"
    unfolding window_step_def old zadd_def new Let_def len assms(4) by (simp add: len)
  moreover have "map fst (?zs @ (if ok then [(now, member)] else [])) =
      filter (\<lambda>a. now - window < a) past @ (if ok then [now] else [])"
    using m by simp
  ultimately show ?thesis by (intro exI [of _ "?zs @ (if ok then [(now, member)] else [])"]) auto
qed

lemma stored_window_live:
  assumes "stored_window l key window past ts w" and "ts \<le> clock w"
  shows "\<exists>zs. zset_of (rlive (clock w) (wredis w) (bucketKey key)) = Some zs \<and>
    (\<forall>z \<in> set zs. 0 \<le> fst z \<and> (\<exists>a k. snd z = member_name a k \<and> unat k \<le> unat (counter l))) \<and>
    filter (\<lambda>a. clock w - window < a) (map fst zs) = filter (\<lambda>a. clock w - window < a) past"
proof (cases "wredis w (bucketKey key)")
  case None
  with assms have "filter (\<lambda>a. clock w - window < a) past = []"
    by (fastforce simp: stored_window_def filter_empty_conv)
  then show ?thesis by (simp add: None zset_of_def rlive_def)
next
  case (Some ve)
  with assms(1) obtain zs where ve: "ve = (RZSet zs, Some (ts + window))"
    and same: "filter (\<lambda>a. ts - window < a) (map fst zs) = filter (\<lambda>a. ts - window < a) past"
    and nn: "\<forall>z \<in> set zs. 0 \<le> fst z \<and> (\<exists>a k. snd z = member_name a k \<and> unat k \<le> unat (counter l))"
    and past: "\<forall>a \<in> set past. a \<le> ts"
    by (auto simp: stored_window_def split: prod.splits)
  show ?thesis
  proof (cases "ts + window < clock w")
    case True
    with past have "filter (\<lambda>a. clock w - window < a) past = []" by (force simp: filter_empty_conv)
    with True show ?thesis by (auto simp: Some ve zset_of_def rlive_def)
  next
    case False
    have "filter (\<lambda>a. clock w - window < a) xs = filter (\<lambda>a. clock w - window < a) (filter (\<lambda>a. ts - window < a) xs)" for xs
      using assms(2) by (simp, intro filter_cong) auto
    then have "filter (\<lambda>a. clock w - window < a) (map fst zs) = filter (\<lambda>a. clock w - window < a) past"
      using same by metis
    with False nn show ?thesis by (auto simp: Some ve zset_of_def rlive_def)
  qed
qed

lemma filter_filter_same: "filter P (filter P xs) = filter P xs"
  by simp

lemma slidingWindow_run:
  assumes nf: "faults w = []" and st: "stored_window l key window past ts w"
    and t: "ts \<le> clock w" "0 \<le> clock w" and win: "0 < window"
    and cnt: "unat (counter l) + 1 < 2 ^ 64" and l': "l' = l\<lparr>counter := counter l + 1\<rparr>"
    and ok: "ok = (int (length (filter (\<lambda>a. clock w - window < a) past)) < limit)"
  shows "\<exists>rem rs w'. slidingWindow (bucketKey key) (clock w) window limit (member_name (clock w) (counter l')) w =
      (Inr (if ok then 1 else 0, rem, rs), w') \<and> faults w' = [] \<and>
      (\<forall>k. k \<noteq> bucketKey key \<longrightarrow> wredis w' k = wredis w k) \<and>
      stored_window l' key window (past @ (if ok then [clock w] else [])) (clock w) w'"
proof -
  let ?now = "clock w" and ?new = "past @ (if ok then [clock w] else [])"
  let ?m = "member_name (clock w) (counter l')"
  have c: "unat (counter l') = unat (counter l) + 1" using cnt by (simp add: l' unat_word_ariths(1))
  have past: "\<forall>a \<in> set past. a \<le> ts" using st by (simp add: stored_window_def)
  obtain zs where zs: "zset_of (rlive ?now (wredis w) (bucketKey key)) = Some zs"
    and nn: "\<forall>z \<in> set zs. 0 \<le> fst z \<and> (\<exists>a k. snd z = member_name a k \<and> unat k \<le> unat (counter l))"
    and same: "filter (\<lambda>a. ?now - window < a) (map fst zs) = filter (\<lambda>a. ?now - window < a) past"
    using stored_window_live [OF st t(1)] by blast
  have fresh: "?m \<notin> snd ` set zs" using nn c member_name_inj by fastforce
  obtain zs' where step: "window_step ?now window limit ?m zs = (ok, int (length zs'), zs')"
    and sub: "set zs' \<subseteq> insert (?now, ?m) (set zs)"
    and fsts: "map fst zs' = filter (\<lambda>a. ?now - window < a) past @ (if ok then [?now] else [])"
    using window_step_greedy [OF _ fresh same ok] nn by blast
  have nn': "\<forall>z \<in> set zs'. 0 \<le> fst z \<and> (\<exists>a k. snd z = member_name a k \<and> unat k \<le> unat (counter l'))"
    using sub nn t(2) c by fastforce
  have new: "filter (\<lambda>a. ?now - window < a) ?new = map fst zs'" using fsts win by simp
  then have new': "filter (\<lambda>a. ?now - window < a) (map fst zs') = map fst zs'" by (metis filter_filter_same)
  let ?w' = "w\<lparr>wredis := (if zs' = [] then (wredis w)(bucketKey key := None)
      else (wredis w)(bucketKey key \<mapsto> (RZSet zs', Some (?now + window))))\<rparr>"
  have "slidingWindow (bucketKey key) ?now window limit ?m w =
      (Inr (if ok then 1 else 0, max 0 (limit - int (length zs')), \<lceil>dbl (of_int window / 1000)\<rceil>), ?w')"
    using nf zs step win by (simp add: slidingWindow_def run_simps pexpire_def)
  moreover have "stored_window l' key window ?new ?now ?w'"
    using past t(1) new new' nn' by (auto simp: stored_window_def)
  ultimately show ?thesis using nf by auto
qed

lemma passes_window:
  assumes "mode c = ''sliding''" and "0 < window_ms c"
  shows "faults w = [] \<Longrightarrow> configured l key c w \<Longrightarrow> sorted (ts # reqs) \<Longrightarrow> 0 \<le> ts \<Longrightarrow>
    unat (counter l) + length reqs < 2 ^ 64 \<Longrightarrow> stored_window l key (window_ms c) past ts w \<Longrightarrow>
    passes l key reqs w = greedy (window_ms c) (go_trunc (rate c)) past reqs"
proof (induction reqs arbitrary: l w past ts)
  case (Cons t reqs)
  let ?W = "window_ms c" and ?L = "go_trunc (rate c)" and ?l = "l\<lparr>counter := counter l + 1\<rparr>"
  let ?w = "w\<lparr>clock := t\<rparr>"
  define ok where "ok = (int (length (filter (\<lambda>a. t - ?W < a) past)) < ?L)"
  have cnt: "unat (counter l) + 1 < 2 ^ 64" using Cons.prems(5) by simp
  have st: "stored_window l key ?W past ts ?w" using Cons.prems(6) by (simp add: stored_window_def)
  obtain rem rs w' where run: "slidingWindow (bucketKey key) t ?W ?L (member_name t (counter ?l)) ?w =
      (Inr (if ok then 1 else 0, rem, rs), w')" and nf: "faults w' = []"
    and rest: "\<forall>k. k \<noteq> bucketKey key \<longrightarrow> wredis w' k = wredis w k"
    and st': "stored_window ?l key ?W (past @ (if ok then [t] else [])) t w'"
    using slidingWindow_run [OF _ st _ _ assms(2) cnt refl, of ok ?L] Cons.prems(1,3,4) ok_def by auto
  have al: "Allow l key ?w = (Inr \<lparr>rl_Allowed = ok, rl_Limit = ?L, rl_Remaining = rem, rl_ResetSec = rs\<rparr>, ?l, w')"
    using GetConfig_run [of ?w l key c] run Cons.prems(1,2) assms(1)
    by (simp add: Allow_def configured_def)
  have "passes ?l key reqs w' = greedy ?W ?L (past @ (if ok then [t] else [])) reqs"
  proof (rule Cons.IH [OF nf _ _ _ _ st'])
    show "configured ?l key c w'" using Cons.prems(2) rest by (simp add: configured_def split: option.splits)
    show "unat (counter ?l) + length reqs < 2 ^ 64"
      using Cons.prems(5) cnt by (simp add: unat_word_ariths(1))
  qed (use Cons.prems in auto)
  then show ?case by (simp add: al ok_def)
qed simp

text \<open>
  C15. The sliding window is exact. For a key in sliding mode with a positive window, no earlier
  requests and no failing calls, one limiter lets through precisely the requests the reference
  admits (a request passes iff fewer than \<open>int(rate)\<close> were admitted in the window that ends with it), and
  so no window of that length, wherever it starts, holds more than \<open>int(rate)\<close> admitted requests. Expiry of
  the Redis key never forgets a request that still counts.
\<close>
theorem sliding_window_exact:
  assumes "mode c = ''sliding''" and "0 < window_ms c"
    and "faults w = []" and "configured l key c w" and "wredis w (bucketKey key) = None"
    and "sorted (t # reqs)" and "0 \<le> t" and "unat (counter l) + length (t # reqs) < 2 ^ 64"
  shows "passes l key (t # reqs) w = greedy (window_ms c) (go_trunc (rate c)) [] (t # reqs) \<and>
    window_full (window_ms c) (go_trunc (rate c)) (passes l key (t # reqs) w)"
proof -
  have run: "passes l key (t # reqs) w = greedy (window_ms c) (go_trunc (rate c)) [] (t # reqs)"
    by (rule passes_window [of c w l key t]) (use assms in \<open>auto simp: stored_window_def\<close>)
  have "window_full (window_ms c) (go_trunc (rate c))
      ([] @ greedy (window_ms c) (go_trunc (rate c)) [] (t # reqs))"
    by (rule greedy_full) (use assms(6) in \<open>auto simp: window_full_def\<close>)
  with run show ?thesis by simp
qed

definition sliding_cfg :: rl_config where
  "sliding_cfg = \<lparr>mode = ''sliding'', rate = 2, burst = 0, window_ms = 100\<rparr>"

theorem sliding_window_exact_witness:
  "passes \<lparr>defaultCfg = sliding_cfg, counter = 0\<rparr> ''k'' [0, 10, 20, 101, 102] quiet_world = [0, 10, 101]"
proof -
  have "passes \<lparr>defaultCfg = sliding_cfg, counter = 0\<rparr> ''k'' [0, 10, 20, 101, 102] quiet_world =
      greedy (window_ms sliding_cfg) (go_trunc (rate sliding_cfg)) [] [0, 10, 20, 101, 102]"
    by (rule sliding_window_exact [THEN conjunct1])
       (simp_all add: sliding_cfg_def quiet_world_def configured_def)
  also have "\<dots> = [0, 10, 101]" by code_simp
  finally show ?thesis .
qed

section \<open>At the edges\<close>

lemma Allow_wrong_type:
  assumes "faults w = []" and "configured l key c w"
    and "if mode c = ''sliding'' then zset_of (rlive (clock w) (wredis w) (bucketKey key)) = None
         else \<exists>zs. rlive (clock w) (wredis w) (bucketKey key) = Some (RZSet zs)"
  shows "\<exists>n. Allow l key w = (Inl WrongType, l\<lparr>counter := n\<rparr>, w)"
  using GetConfig_run [OF assms(1,2)] assms(1,3)
  by (auto simp: Allow_def Let_def slidingWindow_def tokenBucket_def run_simps split: if_splits
      intro: exI [of _ "counter l"])

text \<open>
  C36. Changing the mode of a key switches its limit off for a while. As long as the key still
  holds the state of the other mode (a hash under sliding mode, a sorted set under token mode), every
  check ends in a type error, the state stays as it is, and so every request up to the expiry of
  that state passes, whatever the limits say.
\<close>
theorem mode_switch_fails_open:
  assumes "faults w = []" and "configured l key c w"
    and "wredis w (bucketKey key) = Some (v, Some e)"
    and "if mode c = ''sliding'' then zset_of (Some v) = None else \<exists>zs. v = RZSet zs"
    and "\<forall>t \<in> set reqs. t \<le> e"
  shows "passes l key reqs w = reqs"
  using assms
proof (induction reqs arbitrary: l w)
  case (Cons t reqs)
  let ?w = "w\<lparr>clock := t\<rparr>"
  have "\<exists>n. Allow l key ?w = (Inl WrongType, l\<lparr>counter := n\<rparr>, ?w)"
    by (rule Allow_wrong_type [of _ _ _ c]) (use Cons.prems in \<open>auto simp: configured_def rlive_def\<close>)
  then obtain n where al: "Allow l key ?w = (Inl WrongType, l\<lparr>counter := n\<rparr>, ?w)" by blast
  have "passes (l\<lparr>counter := n\<rparr>) key reqs ?w = reqs"
    by (rule Cons.IH) (use Cons.prems in \<open>auto simp: configured_def split: option.splits\<close>)
  with al show ?case by simp
qed simp

theorem mode_switch_fails_open_witness:
  "passes \<lparr>defaultCfg = sliding_cfg, counter = 0\<rparr> ''k'' [5, 6, 7, 8]
     (quiet_world\<lparr>wredis := [bucketKey ''k'' \<mapsto> (RHash 0 0, Some 1200)]\<rparr>) = [5, 6, 7, 8]"
  by (rule mode_switch_fails_open [where c = sliding_cfg and e = 1200 and v = "RHash 0 0"])
     (simp_all add: sliding_cfg_def quiet_world_def configured_def zset_of_def)

text \<open>
  A bucket that never refills is full again after a second. With a rate of zero the key lives
  for 1000 ms only, so a request more than a second after the last one finds no bucket and starts
  with a whole burst, though no token was ever added.
\<close>
theorem zero_rate_forgets:
  assumes "faults w = []" and "configured l key c w" and "mode c \<noteq> ''sliding''" and "rate c = 0"
    and "1 \<le> burst c" and "burst c < 2 ^ 52"
    and "wredis w (bucketKey key) = Some (RHash tokens ts, Some (ts + 1000))"
    and "ts + 1000 < clock w"
  shows "\<exists>w'. Allow l key w =
    (Inr \<lparr>rl_Allowed = True, rl_Limit = burst c, rl_Remaining = burst c - 1, rl_ResetSec = 0\<rparr>, l, w')"
proof -
  have b: "dbl (of_int (burst c)) = of_int (burst c)" "dbl (of_int (burst c) - 1) = of_int (burst c - 1)"
    using dbl_of_int [of "burst c"] dbl_of_int [of "burst c - 1"] assms(5,6) by auto
  have "1 \<le> rat_of_int (burst c)" using assms(5) by simp
  then have "token_step 0 (of_int (burst c)) (clock w) None = (True, of_int (burst c - 1))"
    using b by (simp add: token_step_def refill_def)
  moreover have "rlive (clock w) (wredis w) (bucketKey key) = None" using assms(7,8) by (simp add: rlive_def)
  ultimately have "\<exists>w'. tokenBucket (bucketKey key) (rate c) (burst c) (clock w) w = (Inr (1, burst c - 1, 0), w')"
    using assms(1,4) b(1)
    by (simp add: tokenBucket_def run_simps token_ttl_def token_reset_def Let_def)
  then show ?thesis using Allow_token_run [OF assms(1-3)] by fastforce
qed

theorem zero_rate_forgets_witness:
  "\<exists>w'. Allow (New_limiter 0 5) ''k''
     (quiet_world\<lparr>wredis := [bucketKey ''k'' \<mapsto> (RHash 0 0, Some 1000)], clock := 1001\<rparr>) =
     (Inr \<lparr>rl_Allowed = True, rl_Limit = 5, rl_Remaining = 4, rl_ResetSec = 0\<rparr>, New_limiter 0 5, w')"
  using zero_rate_forgets [of "quiet_world\<lparr>wredis := [bucketKey ''k'' \<mapsto> (RHash 0 0, Some 1000)], clock := 1001\<rparr>"
      "New_limiter 0 5" "''k''" "defaultCfg (New_limiter 0 5)" 0 0]
  by (simp add: New_limiter_def quiet_world_def configured_def)

text \<open>
  Two limiters share a member. Requests of one key in one millisecond through two API processes
  that have served equally many sliding-window requests name the same member of the sorted set, so
  the second replaces the first and is not counted: three requests pass a limit of two.
\<close>
theorem replicas_share_members:
  "(let l = \<lparr>defaultCfg = sliding_cfg, counter = 0\<rparr>; w = quiet_world\<lparr>clock := 5\<rparr> in
    case Allow l ''k'' w of (r1, l1, w1) \<Rightarrow>
    case Allow l ''k'' w1 of (r2, l2, w2) \<Rightarrow>
    case Allow l1 ''k'' w2 of (r3, l3, w3) \<Rightarrow>
    case Allow l2 ''k'' w3 of (r4, l4, w4) \<Rightarrow>
      (counter l1, counter l2) = (1, 1) \<and>
      map (map_sum id rl_Allowed) [r1, r2, r3, r4] = [Inr True, Inr True, Inr True, Inr False])"
  by code_simp

end
