(* ===== verification/Go_Text.thy ===== *)
theory Go_Text
  imports Go_Float Model
begin

text \<open>
  The parts of Go's standard library that turn text into values for the HTTP layer and the
  configuration: \<open>strconv.Atoi\<close>, \<open>strconv.ParseFloat\<close>, \<open>path/filepath.Clean\<close> and the decoding of a
  JSON value into a struct by \<open>encoding/json\<close>.
\<close>

section \<open>Numbers\<close>

definition is_digit :: "char \<Rightarrow> bool" where
  "is_digit c \<longleftrightarrow> 48 \<le> (of_char c :: nat) \<and> (of_char c :: nat) \<le> 57"

definition split_sign :: "string \<Rightarrow> bool \<times> string" where
  "split_sign s =
     (case s of
        [] \<Rightarrow> (False, [])
      | c # cs \<Rightarrow> (if c = CHR ''-'' then (True, cs) else if c = CHR ''+'' then (False, cs) else (False, s)))"

definition Atoi :: "string \<Rightarrow> int option" where
  "Atoi s =
     (let (neg, ds) = split_sign s; n = int (read_nat ds); i = (if neg then - n else n)
      in if ds \<noteq> [] \<and> list_all is_digit ds \<and> in_int64 i then Some i else None)"

text \<open>
  \<open>ParseFloat\<close> for decimal notation: digits with an optional point and an optional exponent. The
  names of infinity and NaN and hexadecimal notation, which Go also reads, have no value here.
\<close>

definition pow10 :: "int \<Rightarrow> rat" where
  "pow10 k = (if 0 \<le> k then 10 ^ nat k else 1 / 10 ^ nat (- k))"

definition parse_mantissa :: "string \<Rightarrow> rat option" where
  "parse_mantissa s =
     (let ip = takeWhile is_digit s; rest = dropWhile is_digit s;
          fp = (case rest of [] \<Rightarrow> [] | _ # ds \<Rightarrow> ds)
      in if (rest = [] \<or> hd rest = CHR ''.'') \<and> list_all is_digit fp \<and> ip @ fp \<noteq> []
         then Some (of_nat (read_nat (ip @ fp)) / 10 ^ length fp) else None)"

definition ParseFloat :: "string \<Rightarrow> rat option" where
  "ParseFloat s =
     (let (neg, m) = split_sign s; isE = (\<lambda>c. c = CHR ''e'' \<or> c = CHR ''E'');
          man = takeWhile (\<lambda>c. \<not> isE c) m; ex = dropWhile (\<lambda>c. \<not> isE c) m;
          (eneg, eds) = split_sign (tl ex); e = int (read_nat eds)
      in case parse_mantissa man of
           None \<Rightarrow> None
         | Some x \<Rightarrow>
             (if ex \<noteq> [] \<and> (eds = [] \<or> \<not> list_all is_digit eds) then None
              else let v = dbl ((if neg then - x else x) * (if ex = [] then 1 else pow10 (if eneg then - e else e)))
                   in if \<bar>v\<bar> < 2 ^ 1024 then Some v else None))"

lemma show_nat_is_digit: "list_all is_digit (show_nat n)"
proof (induction n rule: show_nat.induct)
  case (1 n)
  show ?case
  proof (cases "n < 10")
    case True
    then show ?thesis by (simp add: show_nat.simps [of n] is_digit_def)
  next
    case False
    have "n mod 10 < 10" by simp
    then have "is_digit (char_of (48 + n mod 10))" by (simp add: is_digit_def del: mod_less_divisor)
    with False 1 show ?thesis by (simp add: show_nat.simps [of n])
  qed
qed

lemma show_nat_nonempty: "show_nat n \<noteq> []"
  by (simp add: show_nat.simps [of n])

text \<open>Reading back what \<open>strconv.Itoa\<close> prints.\<close>

lemma Atoi_show_int:
  assumes "in_int64 i"
  shows "Atoi (show_int i) = Some i"
proof (cases "i < 0")
  case True
  with assms show ?thesis
    by (simp add: Atoi_def split_sign_def show_int_def show_nat_nonempty show_nat_is_digit read_show_nat)
next
  case False
  obtain c cs where s: "show_nat (nat i) = c # cs" using show_nat_nonempty by (metis neq_Nil_conv)
  have "is_digit c" using show_nat_is_digit [of "nat i"] by (simp add: s)
  then have "split_sign (c # cs) = (False, c # cs)" by (auto simp: split_sign_def is_digit_def)
  with False assms read_show_nat [of "nat i"] show_nat_is_digit [of "nat i"] show ?thesis
    by (simp add: Atoi_def show_int_def s)
qed

section \<open>Paths\<close>

fun split_on :: "char \<Rightarrow> string \<Rightarrow> string list" where
  "split_on d [] = [[]]"
| "split_on d (c # cs) =
     (if c = d then [] # split_on d cs
      else case split_on d cs of [] \<Rightarrow> [[c]] | p # ps \<Rightarrow> (c # p) # ps)"

text \<open>The element stack of \<open>Clean\<close>, last element first.\<close>

fun clean_loop :: "bool \<Rightarrow> string list \<Rightarrow> string list \<Rightarrow> string list" where
  "clean_loop rooted out [] = rev out"
| "clean_loop rooted out (p # ps) =
     (if p = [] \<or> p = ''.'' then clean_loop rooted out ps
      else if p = ''..'' then
        (case out of
           [] \<Rightarrow> clean_loop rooted (if rooted then [] else [''..'']) ps
         | q # qs \<Rightarrow> clean_loop rooted (if q = ''..'' then p # out else qs) ps)
      else clean_loop rooted (p # out) ps)"

definition join_slash :: "string list \<Rightarrow> string" where
  "join_slash ps = concat (case ps of [] \<Rightarrow> [] | q # qs \<Rightarrow> q # map (\<lambda>p. CHR ''/'' # p) qs)"

definition rooted_path :: "string \<Rightarrow> bool" where
  "rooted_path s \<longleftrightarrow> s \<noteq> [] \<and> hd s = CHR ''/''"

definition path_elems :: "string \<Rightarrow> string list" where
  "path_elems s = clean_loop (rooted_path s) [] (split_on (CHR ''/'') s)"

definition render_path :: "bool \<Rightarrow> string list \<Rightarrow> string" where
  "render_path rooted ps =
     (if rooted then CHR ''/'' # join_slash ps else if ps = [] then ''.'' else join_slash ps)"

definition Clean :: "string \<Rightarrow> string" where
  "Clean s = render_path (rooted_path s) (path_elems s)"

definition filepath_Join :: "string \<Rightarrow> string \<Rightarrow> string" where
  "filepath_Join a b =
     (if a = [] \<and> b = [] then [] else if a = [] then Clean b
      else if b = [] then Clean a else Clean (a @ CHR ''/'' # b))"

text \<open>A plain element is one that cleaning leaves in place.\<close>

definition plain_elem :: "string \<Rightarrow> bool" where
  "plain_elem p \<longleftrightarrow> p \<noteq> [] \<and> p \<noteq> ''.'' \<and> p \<noteq> ''..'' \<and> CHR ''/'' \<notin> set p"

lemma split_on_nonempty [simp]: "split_on d s \<noteq> []"
  by (induction s) (auto split: list.splits)

lemma split_on_append: "split_on d (a @ d # b) = split_on d a @ split_on d b"
  by (induction a) (auto split: list.splits)

lemma split_on_no_sep: "p \<in> set (split_on d s) \<Longrightarrow> d \<notin> set p"
  by (induction s arbitrary: p) (auto split: list.splits if_splits)

lemma split_on_single: "d \<notin> set p \<Longrightarrow> split_on d p = [p]"
  by (induction p) auto

lemma split_on_join:
  "ps \<noteq> [] \<Longrightarrow> \<forall>p \<in> set ps. CHR ''/'' \<notin> set p \<Longrightarrow> split_on (CHR ''/'') (join_slash ps) = ps"
proof (induction ps)
  case (Cons p ps)
  show ?case
  proof (cases ps)
    case Nil
    with Cons.prems show ?thesis by (simp add: join_slash_def split_on_single)
  next
    case (Cons q qs)
    then have "join_slash (p # ps) = p @ CHR ''/'' # join_slash ps" by (simp add: join_slash_def)
    then show ?thesis using Cons.IH Cons.prems Cons by (simp add: split_on_append split_on_single)
  qed
qed simp

lemma clean_loop_rooted:
  "list_all plain_elem out \<Longrightarrow> list_all (\<lambda>p. CHR ''/'' \<notin> set p) ps \<Longrightarrow>
   list_all plain_elem (clean_loop True out ps)"
proof (induction ps arbitrary: out)
  case Nil
  then show ?case by (simp add: list_all_iff)
next
  case (Cons p ps)
  have ps: "list_all (\<lambda>p. CHR ''/'' \<notin> set p) ps" using Cons.prems(2) by simp
  have "list_all plain_elem (tl out)" using Cons.prems(1) by (cases out) simp_all
  moreover have "hd out \<noteq> ''..''" if "out \<noteq> []" using Cons.prems(1) that by (cases out) (simp_all add: plain_elem_def)
  moreover have "list_all plain_elem (p # out)" if "p \<noteq> []" "p \<noteq> ''.''" "p \<noteq> ''..''"
    using Cons.prems that by (simp add: plain_elem_def [of p])
  ultimately show ?case using Cons.prems(1) Cons.IH [OF _ ps] by (cases out) simp_all
qed

lemma clean_loop_plain:
  "\<forall>p \<in> set ps. plain_elem p \<Longrightarrow> clean_loop b out (qs @ ps) = clean_loop b out qs @ ps"
proof (induction b out qs rule: clean_loop.induct)
  case (1 b out)
  then show ?case by (induction ps arbitrary: out) (auto simp: plain_elem_def)
qed (auto split: list.splits)

text \<open>Joining a directory with a cleaned rooted path appends plain elements to those of the directory.\<close>

lemma Join_rooted:
  assumes "dir \<noteq> []" and "rooted_path path"
  shows "filepath_Join dir (Clean path) = render_path (rooted_path dir) (path_elems dir @ path_elems path)"
    and "\<forall>p \<in> set (path_elems path). plain_elem p"
proof -
  let ?ps = "path_elems path" and ?sl = "CHR ''/''"
  show plain: "\<forall>p \<in> set ?ps. plain_elem p"
    using clean_loop_rooted [of "[]" "split_on ?sl path"] split_on_no_sep [of _ ?sl path] assms(2)
    by (simp add: path_elems_def list_all_iff)
  have cl: "Clean path = ?sl # join_slash ?ps" using assms(2) by (simp add: Clean_def render_path_def)
  have rt: "rooted_path (dir @ ?sl # ?sl # join_slash ?ps) = rooted_path dir"
    using assms(1) by (simp add: rooted_path_def)
  have "clean_loop b [] (split_on ?sl (dir @ ?sl # ?sl # join_slash ?ps)) = clean_loop b [] (split_on ?sl dir) @ ?ps" for b
  proof (cases "?ps = []")
    case True
    have skip: "clean_loop b [] (split_on ?sl dir @ [[], []]) = clean_loop b [] (split_on ?sl dir)"
    proof -
      have "clean_loop b out (qs @ [[], []]) = clean_loop b out qs" for out qs
        by (induction b out qs rule: clean_loop.induct) (auto split: list.splits)
      then show ?thesis .
    qed
    with True show ?thesis by (simp add: split_on_append join_slash_def)
  next
    case False
    then have "split_on ?sl (join_slash ?ps) = ?ps" using plain by (simp add: split_on_join plain_elem_def)
    then have "split_on ?sl (dir @ ?sl # ?sl # join_slash ?ps) = (split_on ?sl dir @ [[]]) @ ?ps"
      by (simp add: split_on_append)
    moreover have "clean_loop b out (qs @ [[]]) = clean_loop b out qs" for out qs
      by (induction b out qs rule: clean_loop.induct) (auto split: list.splits)
    ultimately show ?thesis using clean_loop_plain [OF plain] by (simp del: append_assoc)
  qed
  then have "path_elems (dir @ ?sl # ?sl # join_slash ?ps) = path_elems dir @ ?ps"
    by (simp add: path_elems_def [of "dir @ _"] path_elems_def [of dir] rt)
  then show "filepath_Join dir (Clean path) = render_path (rooted_path dir) (path_elems dir @ ?ps)"
    using assms(1) by (simp add: filepath_Join_def cl) (simp add: Clean_def rt)
qed

section \<open>JSON\<close>

text \<open>
  A parsed JSON value. A number literal that consists of digits only (with an optional minus) is \<open>JInt\<close>,
  any other \<open>JFrac\<close>; only the former is accepted for an integer field.
\<close>

datatype json =
    JNull
  | JBool bool
  | JInt int
  | JFrac rat
  | JStr string
  | JArr "json list"
  | JObj "(string \<times> json) list"

definition ascii_lower :: "char \<Rightarrow> char" where
  "ascii_lower c = (let n = (of_char c :: nat) in if 65 \<le> n \<and> n \<le> 90 then char_of (n + 32) else c)"

text \<open>Storing a value in a field that holds an old value: \<open>null\<close> leaves it, except for pointers.\<close>

definition dec_string :: "json \<Rightarrow> string \<Rightarrow> string option" where
  "dec_string v old = (case v of JNull \<Rightarrow> Some old | JStr s \<Rightarrow> Some s | _ \<Rightarrow> None)"

definition dec_int :: "json \<Rightarrow> int \<Rightarrow> int option" where
  "dec_int v old =
     (case v of JNull \<Rightarrow> Some old | JInt i \<Rightarrow> (if in_int64 i then Some i else None) | _ \<Rightarrow> None)"

definition dec_int_ptr :: "json \<Rightarrow> int option option" where
  "dec_int_ptr v =
     (case v of JNull \<Rightarrow> Some None | JInt i \<Rightarrow> (if in_int64 i then Some (Some i) else None) | _ \<Rightarrow> None)"

definition dec_float :: "json \<Rightarrow> rat \<Rightarrow> rat option" where
  "dec_float v old =
     (case v of
        JNull \<Rightarrow> Some old
      | JInt i \<Rightarrow> (if \<bar>dbl (of_int i)\<bar> < 2 ^ 1024 then Some (dbl (of_int i)) else None)
      | JFrac r \<Rightarrow> (if \<bar>dbl r\<bar> < 2 ^ 1024 then Some (dbl r) else None)
      | _ \<Rightarrow> None)"

text \<open>
  The members of an object in order: each goes to the field whose name equals its key up to ASCII
  letter case (\<open>store\<close>), unknown members are skipped, and a later member replaces an earlier one. A member
  that does not fit its field makes the whole decoding an error.
\<close>

fun dec_members :: "(string \<Rightarrow> json \<Rightarrow> 'a \<Rightarrow> 'a option) \<Rightarrow> (string \<times> json) list \<Rightarrow> 'a \<Rightarrow> 'a option" where
  "dec_members store [] x = Some x"
| "dec_members store ((k, v) # kvs) x =
     (case store (map ascii_lower k) v x of None \<Rightarrow> None | Some y \<Rightarrow> dec_members store kvs y)"

definition dec_struct :: "(string \<Rightarrow> json \<Rightarrow> 'a \<Rightarrow> 'a option) \<Rightarrow> 'a \<Rightarrow> json \<Rightarrow> 'a option" where
  "dec_struct store zero v =
     (case v of JObj kvs \<Rightarrow> dec_members store kvs zero | JNull \<Rightarrow> Some zero | _ \<Rightarrow> None)"

end
