(* ===== verification/Http_Api.thy ===== *)
theory Http_Api
  imports Worker Rate_Limit Go_Text
begin

text \<open>
  The HTTP surface: \<open>internal/service/{alert,queue}_service.go\<close>, \<open>internal/controller\<close>,
  \<open>internal/middleware/ratelimit.go\<close> and \<open>internal/api/router.go\<close>.

  A request carries what the handlers read of it: \<open>r_header\<close> and \<open>r_query\<close> give the empty string
  for what is absent, as \<open>Get\<close> does, \<open>r_body\<close> is the first JSON value of the body (\<open>None\<close> when it does
  not parse) and \<open>r_param\<close> holds the URL parameters that chi extracted. A handler is a function from
  the world to a response and the new world; headers set later replace earlier ones.

  Parameters that stand for code outside the repository, in \<open>http_env\<close>: \<open>parse_uuid\<close>
  (\<open>google/uuid\<close>), \<open>route\<close> (chi's matching of a request against the routes, with the URL parameters),
  \<open>unmatched\<close> (its answer when nothing matches), the answers of the file server; \<open>parse_time\<close> is
  \<open>time.Parse\<close> for RFC 3339, \<open>exists_file\<close> is \<open>os.Stat\<close>, \<open>api_lib_text\<close> the text of driver errors.
\<close>

section \<open>Requests and responses\<close>

record request =
  r_method :: string
  r_path :: string
  r_header :: "string \<Rightarrow> string"
  r_query :: "string \<Rightarrow> string"
  r_param :: "string \<Rightarrow> string"
  r_remote :: string
  r_body :: "json option"

datatype content =
    BError string
  | BPortfolio uuid string int
  | BView portfolio_view
  | BHistory "entry list" "order list"
  | BOrder order
  | BStocks "stock_quote list"
  | BQuote quote
  | BId uuid
  | BStats queue_stats
  | BDead "job list"
  | BReplayed uuid
  | BConfig rl_config
  | BText string
  | BEmpty

record response =
  status_code :: int
  headers :: "string \<rightharpoonup> string"
  content :: content

type_synonym handler = "world \<Rightarrow> response \<times> world"

section \<open>Services behind the controllers\<close>

record alert_req =
  ar_symbol :: string
  ar_direction :: string
  ar_threshold :: int
  ar_webhook :: string

definition AlertService_Create :: "alert_req \<Rightarrow> uuid io" where
  "AlertService_Create req =
     (if ar_symbol req = [] then raise (ValidationError ''symbol is required'')
      else if ar_direction req \<noteq> ''above'' \<and> ar_direction req \<noteq> ''below''
      then raise (ValidationError (''direction must be '' @ quoted ''above'' @ '' or '' @ quoted ''below''))
      else if ar_threshold req \<le> 0 then raise (ValidationError ''threshold must be positive (paise)'')
      else if ar_webhook req = [] then raise (ValidationError ''webhook_url is required'')
      else Alert_Create (ar_symbol req) (ar_direction req) (ar_threshold req) (ar_webhook req))"

definition QueueService_Stats :: "queue_stats io" where
  "QueueService_Stats = Stats"

definition QueueService_ListDead :: "int \<Rightarrow> job list io" where
  "QueueService_ListDead limit = ListDead (nat (if limit \<le> 0 then 50 else limit))"

definition QueueService_Replay :: "uuid \<Rightarrow> unit io" where
  "QueueService_Replay i = Replay i"

section \<open>Helpers of the controllers\<close>

definition writeJSON :: "int \<Rightarrow> content \<Rightarrow> response" where
  "writeJSON st v = \<lparr>status_code = st, headers = [''Content-Type'' \<mapsto> ''application/json''], content = v\<rparr>"

text \<open>\<open>errors.As\<close> and \<open>errors.Is\<close> look through errors that wrap others.\<close>

fun as_validation :: "err \<Rightarrow> string option" where
  "as_validation (ValidationError m) = Some m"
| "as_validation (ErrWrap _ e) = as_validation e"
| "as_validation _ = None"

fun as_invariant :: "err \<Rightarrow> string option" where
  "as_invariant (InvariantError m) = Some m"
| "as_invariant (ErrWrap _ e) = as_invariant e"
| "as_invariant _ = None"

fun is_not_found :: "err \<Rightarrow> bool" where
  "is_not_found ErrNotFound = True"
| "is_not_found (ErrWrap _ e) = is_not_found e"
| "is_not_found _ = False"

definition writeErr :: "(err \<Rightarrow> string) \<Rightarrow> err \<Rightarrow> response" where
  "writeErr lib e =
     (case as_validation e of
        Some m \<Rightarrow> writeJSON 400 (BError m)
      | None \<Rightarrow>
          (case as_invariant e of
             Some m \<Rightarrow> writeJSON 422 (BError m)
           | None \<Rightarrow>
               (if is_not_found e then writeJSON 404 (BError ''not found'')
                else writeJSON 500 (BError (err_text lib e)))))"

text \<open>Run an operation of a service and answer with its result or its error.\<close>

definition answer :: "(err \<Rightarrow> string) \<Rightarrow> 'a io \<Rightarrow> ('a \<Rightarrow> response) \<Rightarrow> handler" where
  "answer lib m ok w = (case m w of (Inl e, w') \<Rightarrow> (writeErr lib e, w') | (Inr x, w') \<Rightarrow> (ok x, w'))"

definition refuse :: "(err \<Rightarrow> string) \<Rightarrow> string \<Rightarrow> handler" where
  "refuse lib msg w = (writeErr lib (ValidationError msg), w)"

section \<open>Decoding of bodies\<close>

definition zero_place :: place_req where
  "zero_place = \<lparr>req_portfolio = 0, req_side = [], req_instrument = [], req_quantity = 0, req_type = [],
                 req_limit_price = None, req_idempotency_key = []\<rparr>"

definition dec_uuid :: "(string \<Rightarrow> uuid option) \<Rightarrow> json \<Rightarrow> uuid \<Rightarrow> uuid option" where
  "dec_uuid parse v old = (case v of JNull \<Rightarrow> Some old | JStr s \<Rightarrow> parse s | _ \<Rightarrow> None)"

definition store_place :: "(string \<Rightarrow> uuid option) \<Rightarrow> string \<Rightarrow> json \<Rightarrow> place_req \<Rightarrow> place_req option" where
  "store_place parse k v r =
     (if k = ''portfolio_id'' then map_option (\<lambda>x. r\<lparr>req_portfolio := x\<rparr>) (dec_uuid parse v (req_portfolio r))
      else if k = ''side'' then map_option (\<lambda>x. r\<lparr>req_side := x\<rparr>) (dec_string v (req_side r))
      else if k = ''instrument'' then map_option (\<lambda>x. r\<lparr>req_instrument := x\<rparr>) (dec_string v (req_instrument r))
      else if k = ''quantity'' then map_option (\<lambda>x. r\<lparr>req_quantity := x\<rparr>) (dec_int v (req_quantity r))
      else if k = ''type'' then map_option (\<lambda>x. r\<lparr>req_type := x\<rparr>) (dec_string v (req_type r))
      else if k = ''limit_price'' then map_option (\<lambda>x. r\<lparr>req_limit_price := x\<rparr>) (dec_int_ptr v)
      else if k = ''idempotency_key''
      then map_option (\<lambda>x. r\<lparr>req_idempotency_key := x\<rparr>) (dec_string v (req_idempotency_key r))
      else Some r)"

definition decode_place :: "(string \<Rightarrow> uuid option) \<Rightarrow> json option \<Rightarrow> place_req option" where
  "decode_place parse b = Option.bind b (dec_struct (store_place parse) zero_place)"

record create_req =
  cr_name :: string
  cr_seed :: int

definition store_create :: "string \<Rightarrow> json \<Rightarrow> create_req \<Rightarrow> create_req option" where
  "store_create k v r =
     (if k = ''name'' then map_option (\<lambda>x. r\<lparr>cr_name := x\<rparr>) (dec_string v (cr_name r))
      else if k = ''seed_paise'' then map_option (\<lambda>x. r\<lparr>cr_seed := x\<rparr>) (dec_int v (cr_seed r))
      else Some r)"

definition decode_create :: "json option \<Rightarrow> create_req option" where
  "decode_create b = Option.bind b (dec_struct store_create \<lparr>cr_name = [], cr_seed = 0\<rparr>)"

definition store_alert :: "string \<Rightarrow> json \<Rightarrow> alert_req \<Rightarrow> alert_req option" where
  "store_alert k v r =
     (if k = ''symbol'' then map_option (\<lambda>x. r\<lparr>ar_symbol := x\<rparr>) (dec_string v (ar_symbol r))
      else if k = ''direction'' then map_option (\<lambda>x. r\<lparr>ar_direction := x\<rparr>) (dec_string v (ar_direction r))
      else if k = ''threshold'' then map_option (\<lambda>x. r\<lparr>ar_threshold := x\<rparr>) (dec_int v (ar_threshold r))
      else if k = ''webhook_url'' then map_option (\<lambda>x. r\<lparr>ar_webhook := x\<rparr>) (dec_string v (ar_webhook r))
      else Some r)"

definition decode_alert :: "json option \<Rightarrow> alert_req option" where
  "decode_alert b = Option.bind b (dec_struct store_alert
     \<lparr>ar_symbol = [], ar_direction = [], ar_threshold = 0, ar_webhook = []\<rparr>)"

definition store_config :: "string \<Rightarrow> json \<Rightarrow> rl_config \<Rightarrow> rl_config option" where
  "store_config k v c =
     (if k = ''mode'' then map_option (\<lambda>x. c\<lparr>mode := x\<rparr>) (dec_string v (mode c))
      else if k = ''rate'' then map_option (\<lambda>x. c\<lparr>rate := x\<rparr>) (dec_float v (rate c))
      else if k = ''burst'' then map_option (\<lambda>x. c\<lparr>burst := x\<rparr>) (dec_int v (burst c))
      else if k = ''window_ms'' then map_option (\<lambda>x. c\<lparr>window_ms := x\<rparr>) (dec_int v (window_ms c))
      else Some c)"

definition decode_config :: "json option \<Rightarrow> rl_config option" where
  "decode_config b = Option.bind b (dec_struct store_config \<lparr>mode = [], rate = 0, burst = 0, window_ms = 0\<rparr>)"

section \<open>Controllers\<close>

datatype endpoint =
    Portfolio_create
  | Portfolio_get
  | Portfolio_history
  | Order_place
  | Order_get
  | Order_cancel
  | Quote_stocks
  | Quote_trending
  | Quote_quote
  | Quote_createAlert
  | Admin_queueStats
  | Admin_deadLetters
  | Admin_replay
  | Admin_getLimit
  | Admin_setLimit

datatype target = Healthz | V1 "endpoint option" | Static | Unrouted

record http_env =
  api_md :: mdsvc
  api_lib_text :: "err \<Rightarrow> string"
  parse_uuid :: "string \<Rightarrow> uuid option"
  parse_time :: "string \<Rightarrow> time option"
  route :: "string \<Rightarrow> string \<Rightarrow> target \<times> (string \<Rightarrow> string)"
  unmatched :: response
  exists_file :: "string \<Rightarrow> bool"
  file_server :: "string \<Rightarrow> request \<Rightarrow> response"
  serve_file :: "string \<Rightarrow> response"
  ui_dir :: string

definition portfolio_create :: "http_env \<Rightarrow> request \<Rightarrow> handler" where
  "portfolio_create env r =
     (case decode_create (r_body r) of
        None \<Rightarrow> refuse (api_lib_text env) ''invalid JSON body''
      | Some req \<Rightarrow>
          (let name = (if cr_name req = [] then ''default'' else cr_name req)
           in answer (api_lib_text env) (CreatePortfolio name (cr_seed req))
                (\<lambda>i. writeJSON 201 (BPortfolio i name (cr_seed req)))))"

definition portfolio_get :: "http_env \<Rightarrow> request \<Rightarrow> handler" where
  "portfolio_get env r =
     (case parse_uuid env (r_param r ''id'') of
        None \<Rightarrow> refuse (api_lib_text env) ''invalid portfolio id''
      | Some i \<Rightarrow>
          (let raw = r_query r ''as_of''; view = (\<lambda>asOf. answer (api_lib_text env) (Portfolio (api_md env) i asOf)
                                                  (\<lambda>v. writeJSON 200 (BView v)))
           in if raw \<noteq> [] then
                (case parse_time env raw of
                   None \<Rightarrow> refuse (api_lib_text env) ''as_of must be RFC3339''
                 | Some t \<Rightarrow> view (Some t))
              else view None))"

definition portfolio_history :: "http_env \<Rightarrow> request \<Rightarrow> handler" where
  "portfolio_history env r =
     (case parse_uuid env (r_param r ''id'') of
        None \<Rightarrow> refuse (api_lib_text env) ''invalid portfolio id''
      | Some i \<Rightarrow> answer (api_lib_text env) (History i) (\<lambda>(es, os). writeJSON 200 (BHistory es os)))"

definition order_place :: "http_env \<Rightarrow> request \<Rightarrow> handler" where
  "order_place env r =
     (case decode_place (parse_uuid env) (r_body r) of
        None \<Rightarrow> refuse (api_lib_text env) ''invalid JSON body''
      | Some req \<Rightarrow>
          (let req' = (if req_idempotency_key req = []
                       then req\<lparr>req_idempotency_key := r_header r ''Idempotency-Key''\<rparr> else req)
           in answer (api_lib_text env) (PlaceOrder req') (\<lambda>ord. writeJSON 202 (BOrder ord))))"

definition order_get :: "http_env \<Rightarrow> request \<Rightarrow> handler" where
  "order_get env r =
     (case parse_uuid env (r_param r ''id'') of
        None \<Rightarrow> refuse (api_lib_text env) ''invalid order id''
      | Some i \<Rightarrow> answer (api_lib_text env) (GetOrder i) (\<lambda>ord. writeJSON 200 (BOrder ord)))"

definition order_cancel :: "http_env \<Rightarrow> request \<Rightarrow> handler" where
  "order_cancel env r =
     (case parse_uuid env (r_param r ''id'') of
        None \<Rightarrow> refuse (api_lib_text env) ''invalid order id''
      | Some i \<Rightarrow> answer (api_lib_text env) (CancelOrder i) (\<lambda>ord. writeJSON 200 (BOrder ord)))"

definition quote_stocks :: "http_env \<Rightarrow> request \<Rightarrow> handler" where
  "quote_stocks env r = answer (api_lib_text env) (Stocks (api_md env)) (\<lambda>l. writeJSON 200 (BStocks l))"

definition quote_trending :: "http_env \<Rightarrow> request \<Rightarrow> handler" where
  "quote_trending env r =
     (let v = r_query r ''limit'';
          limit = (if v \<noteq> [] then (case Atoi v of Some n \<Rightarrow> (if 0 < n then n else 6) | None \<Rightarrow> 6) else 6)
      in answer (api_lib_text env) (Trending (api_md env) limit) (\<lambda>l. writeJSON 200 (BStocks l)))"

definition quote_quote :: "http_env \<Rightarrow> request \<Rightarrow> handler" where
  "quote_quote env r =
     (let symb = r_param r ''symbol''
      in if symb = [] then refuse (api_lib_text env) ''symbol required''
         else answer (api_lib_text env) (MD_Quote (api_md env) symb) (\<lambda>q. writeJSON 200 (BQuote q)))"

definition quote_createAlert :: "http_env \<Rightarrow> request \<Rightarrow> handler" where
  "quote_createAlert env r =
     (case decode_alert (r_body r) of
        None \<Rightarrow> refuse (api_lib_text env) ''invalid JSON body''
      | Some req \<Rightarrow> answer (api_lib_text env) (AlertService_Create req) (\<lambda>i. writeJSON 201 (BId i)))"

definition admin_queueStats :: "http_env \<Rightarrow> request \<Rightarrow> handler" where
  "admin_queueStats env r = answer (api_lib_text env) QueueService_Stats (\<lambda>st. writeJSON 200 (BStats st))"

definition admin_deadLetters :: "http_env \<Rightarrow> request \<Rightarrow> handler" where
  "admin_deadLetters env r = answer (api_lib_text env) (QueueService_ListDead 50) (\<lambda>js. writeJSON 200 (BDead js))"

definition admin_replay :: "http_env \<Rightarrow> request \<Rightarrow> handler" where
  "admin_replay env r =
     (case parse_uuid env (r_param r ''id'') of
        None \<Rightarrow> refuse (api_lib_text env) ''invalid job id''
      | Some i \<Rightarrow> answer (api_lib_text env) (QueueService_Replay i) (\<lambda>_. writeJSON 200 (BReplayed i)))"

definition admin_getLimit :: "http_env \<Rightarrow> limiter \<Rightarrow> request \<Rightarrow> handler" where
  "admin_getLimit env l r =
     answer (api_lib_text env) (GetConfig l (r_param r ''key'')) (\<lambda>c. writeJSON 200 (BConfig c))"

definition admin_setLimit :: "http_env \<Rightarrow> request \<Rightarrow> handler" where
  "admin_setLimit env r =
     (case decode_config (r_body r) of
        None \<Rightarrow> refuse (api_lib_text env) ''invalid JSON body''
      | Some c \<Rightarrow> answer (api_lib_text env) (SetConfig (r_param r ''key'') c) (\<lambda>_. writeJSON 200 (BConfig c)))"

text \<open>The routes the four controllers register, and all of them together under \<open>/v1\<close>.\<close>

definition portfolio_Routes :: "(string \<times> string \<times> endpoint) list" where
  "portfolio_Routes =
    [(''POST'', ''/portfolios'', Portfolio_create),
     (''GET'', ''/portfolios/{id}'', Portfolio_get),
     (''GET'', ''/portfolios/{id}/history'', Portfolio_history)]"

definition order_Routes :: "(string \<times> string \<times> endpoint) list" where
  "order_Routes =
    [(''POST'', ''/orders'', Order_place),
     (''GET'', ''/orders/{id}'', Order_get),
     (''DELETE'', ''/orders/{id}'', Order_cancel)]"

definition quote_Routes :: "(string \<times> string \<times> endpoint) list" where
  "quote_Routes =
    [(''GET'', ''/stocks'', Quote_stocks),
     (''GET'', ''/stocks/trending'', Quote_trending),
     (''GET'', ''/quotes/{symbol}'', Quote_quote),
     (''POST'', ''/alerts'', Quote_createAlert)]"

definition admin_Routes :: "(string \<times> string \<times> endpoint) list" where
  "admin_Routes =
    [(''GET'', ''/admin/queue/stats'', Admin_queueStats),
     (''GET'', ''/admin/queue/dead'', Admin_deadLetters),
     (''POST'', ''/admin/queue/dead/{id}/replay'', Admin_replay),
     (''GET'', ''/admin/limits/{key}'', Admin_getLimit),
     (''PUT'', ''/admin/limits/{key}'', Admin_setLimit)]"

definition Routes :: "(string \<times> string \<times> endpoint) list" where
  "Routes = portfolio_Routes @ order_Routes @ quote_Routes @ admin_Routes"

lemmas routes_defs = Routes_def portfolio_Routes_def order_Routes_def quote_Routes_def admin_Routes_def

fun serve :: "http_env \<Rightarrow> limiter \<Rightarrow> endpoint \<Rightarrow> request \<Rightarrow> handler" where
  "serve env l Portfolio_create r = portfolio_create env r"
| "serve env l Portfolio_get r = portfolio_get env r"
| "serve env l Portfolio_history r = portfolio_history env r"
| "serve env l Order_place r = order_place env r"
| "serve env l Order_get r = order_get env r"
| "serve env l Order_cancel r = order_cancel env r"
| "serve env l Quote_stocks r = quote_stocks env r"
| "serve env l Quote_trending r = quote_trending env r"
| "serve env l Quote_quote r = quote_quote env r"
| "serve env l Quote_createAlert r = quote_createAlert env r"
| "serve env l Admin_queueStats r = admin_queueStats env r"
| "serve env l Admin_deadLetters r = admin_deadLetters env r"
| "serve env l Admin_replay r = admin_replay env r"
| "serve env l Admin_getLimit r = admin_getLimit env l r"
| "serve env l Admin_setLimit r = admin_setLimit env r"

section \<open>Middleware\<close>

definition clientIP :: "request \<Rightarrow> string" where
  "clientIP r = (let xff = r_header r ''X-Forwarded-For'' in if xff \<noteq> [] then xff else r_remote r)"

definition client_key :: "request \<Rightarrow> string" where
  "client_key r =
     (let key = r_header r ''X-API-Key'' in if key = [] then ''anon:'' @ clientIP r else key)"

definition limit_headers :: "rl_result \<Rightarrow> string \<rightharpoonup> string" where
  "limit_headers res =
     [''X-RateLimit-Limit'' \<mapsto> show_int (rl_Limit res),
      ''X-RateLimit-Remaining'' \<mapsto> show_int (rl_Remaining res),
      ''X-RateLimit-Reset'' \<mapsto> show_int (rl_ResetSec res)]"

definition with_headers :: "(string \<rightharpoonup> string) \<Rightarrow> response \<Rightarrow> response" where
  "with_headers hs resp = resp\<lparr>headers := hs ++ headers resp\<rparr>"

definition RateLimit :: "limiter \<Rightarrow> handler \<Rightarrow> request \<Rightarrow> world \<Rightarrow> response \<times> limiter \<times> world" where
  "RateLimit l nxt r w =
     (case Allow l (client_key r) w of
        (Inl _, l', w1) \<Rightarrow> (case nxt w1 of (resp, w2) \<Rightarrow> (resp, l', w2))
      | (Inr res, l', w1) \<Rightarrow>
          (if \<not> rl_Allowed res
           then (\<lparr>status_code = 429,
                  headers = limit_headers res ++
                    [''Retry-After'' \<mapsto> show_int (rl_ResetSec res), ''Content-Type'' \<mapsto> ''application/json''],
                  content = BError ''rate limit exceeded''\<rparr>, l', w1)
           else (case nxt w1 of (resp, w2) \<Rightarrow> (with_headers (limit_headers res) resp, l', w2))))"

definition cors_headers :: "string \<rightharpoonup> string" where
  "cors_headers =
     [''Access-Control-Allow-Origin'' \<mapsto> ''*'',
      ''Access-Control-Allow-Methods'' \<mapsto> ''GET,POST,PUT,DELETE,OPTIONS'',
      ''Access-Control-Allow-Headers'' \<mapsto> ''Content-Type,X-API-Key,Idempotency-Key'']"

definition corsAllowAll ::
    "(limiter \<Rightarrow> request \<Rightarrow> world \<Rightarrow> response \<times> limiter \<times> world) \<Rightarrow>
     limiter \<Rightarrow> request \<Rightarrow> world \<Rightarrow> response \<times> limiter \<times> world" where
  "corsAllowAll nxt l r w =
     (if r_method r = ''OPTIONS''
      then (\<lparr>status_code = 204, headers = cors_headers, content = BEmpty\<rparr>, l, w)
      else (case nxt l r w of (resp, l', w') \<Rightarrow> (with_headers cors_headers resp, l', w')))"

section \<open>Router\<close>

datatype spa_action = SpaNotFound | SpaFile string | SpaIndex

definition has_prefix :: "string \<Rightarrow> string \<Rightarrow> bool" where
  "has_prefix p s \<longleftrightarrow> take (length p) s = p"

definition spa_choose :: "(string \<Rightarrow> bool) \<Rightarrow> string \<Rightarrow> string \<Rightarrow> spa_action" where
  "spa_choose exists_f dir path =
     (let clean = Clean path
      in if has_prefix ''/v1'' clean \<or> clean = ''/healthz'' then SpaNotFound
         else if clean \<noteq> ''/'' \<and> exists_f (filepath_Join dir clean) then SpaFile (filepath_Join dir clean)
         else SpaIndex)"

definition http_NotFound :: response where
  "http_NotFound =
     \<lparr>status_code = 404,
      headers = [''Content-Type'' \<mapsto> ''text/plain; charset=utf-8'', ''X-Content-Type-Options'' \<mapsto> ''nosniff''],
      content = BText (''404 page not found'' @ [CHR 0x0A])\<rparr>"

definition spaHandler :: "http_env \<Rightarrow> string \<Rightarrow> request \<Rightarrow> response" where
  "spaHandler env dir r =
     (case spa_choose (exists_file env) dir (r_path r) of
        SpaNotFound \<Rightarrow> http_NotFound
      | SpaFile _ \<Rightarrow> file_server env dir r
      | SpaIndex \<Rightarrow> serve_file env (filepath_Join dir ''index.html''))"

definition NewRouter :: "http_env \<Rightarrow> limiter \<Rightarrow> request \<Rightarrow> world \<Rightarrow> response \<times> limiter \<times> world" where
  "NewRouter env = corsAllowAll (\<lambda>l r w.
     let (tgt, ps) = route env (r_method r) (r_path r);
         uiDir = (if ui_dir env = [] then ''frontend/dist'' else ui_dir env)
     in case tgt of
          Healthz \<Rightarrow> (\<lparr>status_code = 200, headers = Map.empty, content = BText ''ok''\<rparr>, l, w)
        | V1 ep \<Rightarrow> RateLimit l (\<lambda>w. case ep of None \<Rightarrow> (unmatched env, w)
                                            | Some e \<Rightarrow> serve env l e (r\<lparr>r_param := ps\<rparr>) w) r w
        | Static \<Rightarrow> (if exists_file env (filepath_Join uiDir ''index.html'')
                      then spaHandler env uiDir r else unmatched env, l, w)
        | Unrouted \<Rightarrow> (unmatched env, l, w))"

end
