(* ===== verification/Http_Properties.thy ===== *)
theory Http_Properties
  imports Http_Api Rate_Limit_Properties Trading_Concurrency
begin

text \<open>
  What holds of the HTTP surface as a whole: every request keeps the invariants of the ledger and of
  the job queue, an error response means that no table changed, \<open>GET\<close> requests change no table, the
  limiter answers with its state and guards every endpoint, and the static file handler stays inside
  its directory.

  The locale \<open>api_invariant\<close> is what the controllers rely on: a predicate on the tables that the five
  writing operations behind them keep. It is interpreted on the invariants of the ledger and the queue.
\<close>

section \<open>Handlers\<close>

named_theorems handler_defs

lemmas handlers [handler_defs] =
  portfolio_create_def portfolio_get_def portfolio_history_def order_place_def order_get_def order_cancel_def
  quote_stocks_def quote_trending_def quote_quote_def quote_createAlert_def
  admin_queueStats_def admin_deadLetters_def admin_replay_def admin_getLimit_def admin_setLimit_def

lemma answerE:
  assumes "answer lib m ok w = (resp, w')"
  obtains (failed) e where "m w = (Inl e, w')" and "resp = writeErr lib e"
    | (succeeded) x where "m w = (Inr x, w')" and "resp = ok x"
  using assms by (auto simp: answer_def split: prod.splits sum.splits)

lemma writeErr_status: "status_code (writeErr lib e) \<in> {400, 404, 422, 500}"
  by (auto simp: writeErr_def writeJSON_def split: option.splits)

lemma writeErr_headers [simp]: "headers (writeErr lib e) = [''Content-Type'' \<mapsto> ''application/json'']"
  by (auto simp: writeErr_def writeJSON_def split: option.splits)

lemma writeJSON_sel [simp]:
  "status_code (writeJSON st v) = st" "headers (writeJSON st v) = [''Content-Type'' \<mapsto> ''application/json'']"
  "content (writeJSON st v) = v"
  by (simp_all add: writeJSON_def)

text \<open>A handler keeps a predicate on worlds.\<close>

definition hkeeps :: "(world \<Rightarrow> bool) \<Rightarrow> handler \<Rightarrow> bool" where
  "hkeeps I h \<longleftrightarrow> (\<forall>w. I w \<longrightarrow> I (snd (h w)))"

lemma hkeeps_answer:
  assumes "keeps I m"
  shows "hkeeps I (answer lib m ok)"
  unfolding hkeeps_def
proof (intro allI impI)
  fix w assume I: "I w"
  obtain r w' where m: "m w = (r, w')" by fastforce
  have "I w'" using keepsD [OF assms I m] .
  then show "I (snd (answer lib m ok w))" by (cases r) (simp_all add: answer_def m)
qed

lemma hkeeps_refuse: "hkeeps I (refuse lib msg)"
  by (simp add: hkeeps_def refuse_def)

lemma hkeepsD: "hkeeps I h \<Longrightarrow> I w \<Longrightarrow> h w = (resp, w') \<Longrightarrow> I w'"
  by (metis hkeeps_def snd_conv)

lemmas hkeeps_intros = hkeeps_answer hkeeps_refuse

text \<open>Reading operations of the services keep every predicate on the tables.\<close>

lemma keeps_api_reads:
  "keeps (on_tables P) (Portfolio m i t)" "keeps (on_tables P) (History i)" "keeps (on_tables P) (GetOrder i)"
  "keeps (on_tables P) (Stocks m)" "keeps (on_tables P) (Trending m n)" "keeps (on_tables P) (MD_Quote m s)"
  "keeps (on_tables P) QueueService_Stats" "keeps (on_tables P) (QueueService_ListDead n)"
  "keeps (on_tables P) (GetConfig l k)" "keeps (on_tables P) (SetConfig k c)"
  unfolding GetOrder_def Stocks_def Trending_def Let_def QueueService_Stats_def Stats_def
    QueueService_ListDead_def ListDead_def GetConfig_def SetConfig_def
  by (auto intro!: keeps_intros keeps_Portfolio keeps_History keeps_stocks_loop split: option.splits rval.splits prod.splits)

lemma hkeeps_reads:
  assumes "ep \<notin> {Portfolio_create, Order_place, Order_cancel, Quote_createAlert, Admin_replay}"
  shows "hkeeps (on_tables P) (serve env l ep r)"
  using assms
  by (cases ep) (auto simp: handler_defs Let_def intro!: hkeeps_intros keeps_api_reads split: option.splits)

section \<open>Invariants\<close>

text \<open>The limiter works in Redis only.\<close>

lemma Allow_wdb:
  assumes "Allow l key w = (res, l', w')"
  shows "wdb w' = wdb w"
proof -
  obtain c w1 where g: "GetConfig l key w = (c, w1)" by fastforce
  have w1: "wdb w1 = wdb w" using keeps_all_wdb [OF keeps_api_reads(9) g] .
  have "wdb (snd (tokenBucket k r b now v)) = wdb v" for k r b now v
    by (auto simp: tokenBucket_def ext_def Let_def split: list.splits option.splits prod.splits rval.splits)
  moreover have "wdb (snd (slidingWindow k now win lim mem v)) = wdb v" for k now win lim mem v
    by (auto simp: slidingWindow_def ext_def Let_def split: list.splits option.splits prod.splits)
  ultimately show ?thesis
    using assms g w1
    by (auto simp: Allow_def Let_def split: sum.splits if_splits prod.splits) (metis snd_conv)+
qed

locale api_invariant =
  fixes P :: "db \<Rightarrow> bool"
  assumes create_keeps: "keeps (on_tables P) (CreatePortfolio name seed)"
    and place_keeps: "keeps (on_tables P) (PlaceOrder req)"
    and cancel_keeps: "keeps (on_tables P) (CancelOrder i)"
    and alert_keeps: "keeps (on_tables P) (Alert_Create symb dir thr url)"
    and replay_keeps: "keeps (on_tables P) (Replay i)"
begin

lemma alert_service_keeps: "keeps (on_tables P) (AlertService_Create req)"
  unfolding AlertService_Create_def by (auto intro!: keeps_intros alert_keeps)

lemma serve_keeps: "hkeeps (on_tables P) (serve env l ep r)"
proof (cases "ep \<in> {Portfolio_create, Order_place, Order_cancel, Quote_createAlert, Admin_replay}")
  case True
  then show ?thesis
    by (auto simp: handler_defs Let_def QueueService_Replay_def split: option.splits
        intro!: hkeeps_intros create_keeps place_keeps cancel_keeps alert_service_keeps replay_keeps)
qed (rule hkeeps_reads)

lemma RateLimit_keeps: "hkeeps (on_tables P) h \<Longrightarrow> P (wdb w) \<Longrightarrow> RateLimit l h r w = (resp, l', w') \<Longrightarrow> P (wdb w')"
  by (auto simp: RateLimit_def Allow_wdb on_tables_def hkeeps_def
      split: prod.splits sum.splits if_splits dest!: Allow_wdb) (metis snd_conv)+

lemma router_keeps:
  assumes "P (wdb w)" and "NewRouter env l r w = (resp, l', w')"
  shows "P (wdb w')"
proof -
  have h: "hkeeps (on_tables P) (\<lambda>w. case ep of None \<Rightarrow> (unmatched env, w) | Some e \<Rightarrow> serve env l e r' w)" for ep r'
    using serve_keeps by (auto simp: hkeeps_def split: option.splits)
  show ?thesis
    using assms
    by (auto simp: NewRouter_def corsAllowAll_def Let_def split: if_splits prod.splits target.splits
        dest: RateLimit_keeps [OF h])
qed

end

interpretation api_ledger: api_invariant ledger_inv
proof
  show "keeps (on_tables ledger_inv) (Alert_Create symb dir thr url)" for symb dir thr url
    unfolding Alert_Create_def
    by (intro keeps_intros) (auto simp: q_insert_alert_def split: if_splits)
qed (rule keeps_CreatePortfolio keeps_PlaceOrder keeps_CancelOrder keeps_ledger_turns)+

lemma keeps_CreatePortfolio_q: "keeps (on_tables (queue_ok K)) (CreatePortfolio name seed)"
  unfolding CreatePortfolio_def
  by (rule keeps_If, rule keeps_raise, rule keeps_runTx)
     (auto elim!: create_body_InrE intro: qinv.frame simp: open_db_def Let_def)

interpretation api_queue: api_invariant "queue_ok K" for K
proof
  show "keeps (on_tables (queue_ok K)) (Alert_Create symb dir thr url)" for symb dir thr url
    unfolding Alert_Create_def
    by (intro keeps_intros) (auto simp: q_insert_alert_def split: if_splits intro: qinv.frame)
  show "keeps (on_tables (queue_ok K)) (CancelOrder i)" for i
    unfolding CancelOrder_def by (intro keeps_intros qinv.keeps_SetStatus_q)
qed (rule keeps_CreatePortfolio_q qinv.keeps_PlaceOrder_q keeps_Replay_q)+

text \<open>
  Requests handled one after the other, each at its own time and with its own calls failing; the
  responses, the limiter and the world afterwards.
\<close>

fun handle_all :: "http_env \<Rightarrow> limiter \<Rightarrow> (request \<times> time \<times> bool list) list \<Rightarrow> world \<Rightarrow>
    response list \<times> limiter \<times> world" where
  "handle_all env l [] w = ([], l, w)"
| "handle_all env l ((r, t, fs) # rs) w =
     (case NewRouter env l r (w\<lparr>clock := t, faults := fs\<rparr>) of
        (resp, l1, w1) \<Rightarrow> (case handle_all env l1 rs w1 of (resps, l2, w2) \<Rightarrow> (resp # resps, l2, w2)))"

context api_invariant
begin

lemma handle_all_keeps:
  "P (wdb w) \<Longrightarrow> handle_all env l rs w = (resps, l', w') \<Longrightarrow> P (wdb w')"
proof (induction rs arbitrary: l w resps)
  case (Cons x rs)
  obtain r t fs where x: "x = (r, t, fs)" by (cases x)
  obtain resp l1 w1 where r1: "NewRouter env l r (w\<lparr>clock := t, faults := fs\<rparr>) = (resp, l1, w1)"
    by (metis prod_cases3)
  have "P (wdb w1)" using router_keeps [OF _ r1] Cons.prems(1) by simp
  then show ?case using Cons.IH [of w1 l1] Cons.prems(2) r1 by (auto simp: x split: prod.splits)
qed simp

end

text \<open>
  The API keeps the books. Whatever requests arrive, in whatever order, at whatever times, however
  chi routes them and whichever calls to the database and to Redis fail: from a sound state the ledger
  stays sound (no negative balance, gapless event streams, unique orders and idempotency keys) and
  the queue stays sound (unique job identifiers, no job that was known is lost).
\<close>
theorem api_requests_sound:
  assumes "ledger_inv (wdb w)" and "queue_ok K (wdb w)" and "handle_all env l rs w = (resps, l', w')"
  shows "ledger_inv (wdb w') \<and> queue_ok K (wdb w')"
  using api_ledger.handle_all_keeps [OF assms(1,3)] api_queue.handle_all_keeps [OF assms(2,3)] by blast

section \<open>Errors\<close>

definition fails_clean :: "'a io \<Rightarrow> bool" where
  "fails_clean m \<longleftrightarrow> (\<forall>w e w'. m w = (Inl e, w') \<longrightarrow> same_tables (wdb w) (wdb w'))"

lemma fails_clean_read: "(\<And>P. keeps (on_tables P) m) \<Longrightarrow> fails_clean m"
  unfolding fails_clean_def using keeps_all_wdb by (metis same_tables_refl)

lemma fails_clean_runTx: "fails_clean (runTx fn)"
  by (auto simp: fails_clean_def dest: runTx_Inl_same)

lemma fails_clean_raise: "fails_clean (raise e)"
  by (auto simp: fails_clean_def raise_def)

lemma fails_clean_CreatePortfolio: "fails_clean (CreatePortfolio name seed)"
  by (simp add: CreatePortfolio_def fails_clean_runTx fails_clean_raise)

lemma fails_clean_PlaceOrder: "fails_clean (PlaceOrder req)"
proof (cases "valid_req req")
  case True
  show ?thesis
    unfolding fails_clean_def PlaceOrder_valid [OF True]
  proof (intro allI impI)
    fix w e w'
    assume run: "bindE (find_existing (req_idempotency_key req)) (\<lambda>ex. case ex of Some existing \<Rightarrow> ret existing
        | None \<Rightarrow> place_new req (eff_type req)) w = (Inl e, w')"
    obtain x w1 where f: "find_existing (req_idempotency_key req) w = (x, w1)" by fastforce
    note w1 = find_existing_wdb [OF f]
    show "same_tables (wdb w) (wdb w')"
    proof (cases x)
      case (Inl e')
      with run f w1 show ?thesis by (simp add: bindE_def)
    next
      case (Inr ex)
      with run f have "place_new req (eff_type req) w1 = (Inl e, w')"
        by (cases ex) (simp_all add: bindE_def run_simps)
      then show ?thesis using place_new_Inl w1 by metis
    qed
  qed
next
  case False
  show ?thesis unfolding fails_clean_def
  proof (intro allI impI)
    fix w e w' assume "PlaceOrder req w = (Inl e, w')"
    then show "same_tables (wdb w) (wdb w')" using PlaceOrder_invalid [OF False, of w] by auto
  qed
qed

lemma fails_clean_writes:
  "fails_clean (CancelOrder i)" "fails_clean (AlertService_Create req)" "fails_clean (QueueService_Replay i)"
  by (auto simp: fails_clean_def CancelOrder_def Order_Get_def SetStatus_def q_get_order_def q_set_status_def
      AlertService_Create_def Alert_Create_def q_insert_alert_def QueueService_Replay_def Replay_def q_replay_def
      uuid_New_def bindE_def sql_def ext_def ret_def raise_def
      split: sum.splits prod.splits list.splits option.splits if_splits)

lemma answer_error:
  assumes "fails_clean m" and "\<And>x. status_code (ok x) < 400"
    and "answer lib m ok w = (resp, w')" and "400 \<le> status_code resp"
  shows "same_tables (wdb w) (wdb w')"
  using assms(3)
proof (cases rule: answerE)
  case (failed e)
  with assms(1) show ?thesis by (auto simp: fails_clean_def)
next
  case (succeeded x)
  with assms(2) [of x] assms(4) show ?thesis by simp
qed

lemma serve_error:
  assumes "serve env l ep r w = (resp, w')" and "400 \<le> status_code resp"
  shows "same_tables (wdb w) (wdb w')"
proof (cases "ep \<in> {Portfolio_create, Order_place, Order_cancel, Quote_createAlert, Admin_replay}")
  case True
  with assms show ?thesis
    by (auto simp: handler_defs Let_def refuse_def split: option.splits
        dest!: answer_error [rotated 2] intro: fails_clean_CreatePortfolio fails_clean_PlaceOrder fails_clean_writes)
next
  case False
  from hkeepsD [OF hkeeps_reads [OF this, of "\<lambda>d. d = wdb w"] _ assms(1)] show ?thesis
    by (simp add: on_tables_def)
qed

text \<open>A request through the rate limiter: refused, or handled in a world with the same tables.\<close>

lemma RateLimitE:
  assumes "RateLimit l h r w = (resp, l', w')"
  obtains (refused) "wdb w' = wdb w" and "status_code resp = 429"
    | (passed) w1 resp' where "wdb w1 = wdb w" and "h w1 = (resp', w')" and "status_code resp = status_code resp'"
proof -
  obtain a l1 w1 where al: "Allow l (client_key r) w = (a, l1, w1)" by (metis prod_cases3)
  obtain resp' w2 where h: "h w1 = (resp', w2)" by fastforce
  have w1: "wdb w1 = wdb w" using Allow_wdb [OF al] .
  show ?thesis
    using assms al h w1 refused passed
    by (cases a) (auto simp: RateLimit_def with_headers_def split: if_splits)
qed

text \<open>A routed request: answered without touching the tables, or by a handler.\<close>

lemma NewRouterE:
  assumes "NewRouter env l r w = (resp, l', w')"
  obtains (plain) "wdb w' = wdb w"
    | (handled) ep ps w1 resp' where "route env (r_method r) (r_path r) = (V1 (Some ep), ps)"
        and "r_method r \<noteq> ''OPTIONS''" and "wdb w1 = wdb w"
        and "serve env l ep (r\<lparr>r_param := ps\<rparr>) w1 = (resp', w')" and "status_code resp = status_code resp'"
proof (cases "r_method r = ''OPTIONS''")
  case True
  with assms plain show ?thesis by (simp add: NewRouter_def corsAllowAll_def)
next
  case False
  obtain tgt ps where rt: "route env (r_method r) (r_path r) = (tgt, ps)" by fastforce
  show ?thesis
  proof (cases tgt)
    case (V1 ep)
    let ?h = "\<lambda>w. case ep of None \<Rightarrow> (unmatched env, w) | Some e \<Rightarrow> serve env l e (r\<lparr>r_param := ps\<rparr>) w"
    obtain resp1 where rl: "RateLimit l ?h r w = (resp1, l', w')" and st: "status_code resp = status_code resp1"
      using assms False rt V1 by (auto simp: NewRouter_def corsAllowAll_def with_headers_def split: prod.splits)
    from rl show ?thesis
    proof (cases rule: RateLimitE)
      case refused
      then show ?thesis using plain by blast
    next
      case (passed w1 resp')
      then show ?thesis
      proof (cases ep)
        case None
        with passed plain show ?thesis by simp
      next
        case (Some e)
        show ?thesis
          by (rule handled [of e ps w1 resp']) (use passed Some rt V1 False st in simp_all)
      qed
    qed
  qed (use assms False rt plain in \<open>auto simp: NewRouter_def corsAllowAll_def Let_def\<close>)
qed

text \<open>
  C12. An error response means that nothing happened. For every request and whichever calls fail: if the
  status is 400 or above (a refused request, a rate limit, a missing row, a violated rule or an
  internal error), every table is as it was (only the counter that numbers entries may have advanced).
\<close>
theorem error_response_no_effect:
  assumes "NewRouter env l r w = (resp, l', w')" and "400 \<le> status_code resp"
  shows "same_tables (wdb w) (wdb w')"
  using assms(1)
proof (cases rule: NewRouterE)
  case plain
  then show ?thesis by simp
next
  case (handled ep ps w1 resp')
  with serve_error [OF handled(4)] assms(2) show ?thesis by simp
qed

section \<open>Safe methods\<close>

text \<open>chi sends a request to an endpoint only if it was registered for the request's method.\<close>

definition routes_registered :: "http_env \<Rightarrow> bool" where
  "routes_registered env \<longleftrightarrow>
     (\<forall>meth path ep ps. route env meth path = (V1 (Some ep), ps) \<longrightarrow> (\<exists>pat. (meth, pat, ep) \<in> set Routes))"

text \<open>
  C24. \<open>GET\<close> is safe. A \<open>GET\<close> request changes no table, whatever its path, parameters and headers and
  whichever calls fail.
\<close>
theorem GET_is_safe:
  assumes "routes_registered env" and "r_method r = ''GET''" and "NewRouter env l r w = (resp, l', w')"
  shows "wdb w' = wdb w"
  using assms(3)
proof (cases rule: NewRouterE)
  case (handled ep ps w1 resp')
  obtain pat where "(''GET'', pat, ep) \<in> set Routes"
    using assms(1,2) handled(1) unfolding routes_registered_def by metis
  then have "ep \<notin> {Portfolio_create, Order_place, Order_cancel, Quote_createAlert, Admin_replay}"
    by (auto simp: routes_defs)
  from hkeepsD [OF hkeeps_reads [OF this, of "\<lambda>d. d = wdb w"] _ handled(4)] handled(3) show ?thesis
    by (simp add: on_tables_def)
qed

section \<open>Limits over HTTP\<close>

lemma serve_headers:
  assumes "serve env l ep r w = (resp, w')"
  shows "headers resp = [''Content-Type'' \<mapsto> ''application/json''] \<and> status_code resp \<noteq> 429"
proof -
  have e: "status_code (writeErr lib e) \<noteq> 429" for lib e using writeErr_status [of lib e] by auto
  show ?thesis
    using assms e
    by (cases ep)
      (auto simp: handler_defs Let_def refuse_def split: option.splits if_splits elim!: answerE)
qed

text \<open>
  C25. The limiter guards every endpoint and reports its state. For a request that chi sends to an
  endpoint, when the limiter answers: the status is 429 exactly if it denies the request, in which
  case no handler runs and \<open>Retry-After\<close> gives the reset time; and the three \<open>X-RateLimit\<close> headers of
  the response, denied or not, read back as the limit, the remaining requests and the reset time.
\<close>
theorem rate_limit_reported:
  assumes "route env (r_method r) (r_path r) = (V1 (Some ep), ps)" and "r_method r \<noteq> ''OPTIONS''"
    and "Allow l (client_key r) w = (Inr res, l1, w1)" and "NewRouter env l r w = (resp, l', w')"
    and "in_int64 (rl_Limit res)" and "in_int64 (rl_Remaining res)" and "in_int64 (rl_ResetSec res)"
  shows "l' = l1 \<and> (status_code resp = 429 \<longleftrightarrow> \<not> rl_Allowed res) \<and>
    (\<not> rl_Allowed res \<longrightarrow> w' = w1 \<and>
       Option.bind (headers resp ''Retry-After'') Atoi = Some (rl_ResetSec res)) \<and>
    Option.bind (headers resp ''X-RateLimit-Limit'') Atoi = Some (rl_Limit res) \<and>
    Option.bind (headers resp ''X-RateLimit-Remaining'') Atoi = Some (rl_Remaining res) \<and>
    Option.bind (headers resp ''X-RateLimit-Reset'') Atoi = Some (rl_ResetSec res)"
proof (cases "rl_Allowed res")
  case False
  with assms show ?thesis
    by (auto simp: NewRouter_def corsAllowAll_def RateLimit_def with_headers_def limit_headers_def
        cors_headers_def map_add_def Atoi_show_int)
next
  case True
  obtain resp1 w2 where h: "serve env l ep (r\<lparr>r_param := ps\<rparr>) w1 = (resp1, w2)" by fastforce
  with assms True serve_headers [OF h] show ?thesis
    by (auto simp: NewRouter_def corsAllowAll_def RateLimit_def with_headers_def limit_headers_def
        cors_headers_def map_add_def Atoi_show_int)
qed

text \<open>What is stored for a key: the defaults filled in.\<close>

definition normal_config :: "rl_config \<Rightarrow> rl_config" where
  "normal_config c = c\<lparr>mode := (if mode c = [] then ''token'' else mode c),
     window_ms := (if window_ms c = 0 then 1000 else window_ms c)\<rparr>"

text \<open>
  Setting a limit and reading it. Without failures, a \<open>PUT\<close> of a limit that decodes answers 200;
  afterwards a \<open>GET\<close> for the key answers with that limit, the mode and the window defaulted where they
  were left out, and the configuration of every other key is what it was.
\<close>
theorem limit_put_get:
  assumes "faults w = []" and "decode_config (r_body r) = Some c" and "admin_setLimit env r w = (resp, w')"
    and "r_param r' ''key'' = r_param r ''key''" and "r_param s ''key'' \<noteq> r_param r ''key''"
  shows "status_code resp = 200 \<and>
    fst (admin_getLimit env l r' w') = writeJSON 200 (BConfig (normal_config c)) \<and>
    fst (admin_getLimit env l s w') = fst (admin_getLimit env l s w)"
proof -
  have w': "w' = w\<lparr>wredis := (wredis w)(cfgKey (r_param r ''key'') \<mapsto> (RConfig (normal_config c), None))\<rparr>"
    and "status_code resp = 200"
    using assms(1-3)
    by (auto simp: admin_setLimit_def answer_def SetConfig_def redis_set_def run_simps Let_def normal_config_def)
  moreover have "fst (admin_getLimit env l r' w') = writeJSON 200 (BConfig (normal_config c))"
    using assms(1,4) by (simp add: w' admin_getLimit_def answer_def GetConfig_def bindE_def redis_get_def rlive_def run_simps)
  moreover have "rlive (clock w) (wredis w') (cfgKey (r_param s ''key'')) = rlive (clock w) (wredis w) (cfgKey (r_param s ''key''))"
    using assms(5) by (simp add: w' rlive_def)
  then have "fst (admin_getLimit env l s w') = fst (admin_getLimit env l s w)"
    using assms(1)
    by (auto simp: w' admin_getLimit_def answer_def GetConfig_def bindE_def redis_get_def run_simps
        split: option.splits rval.splits)
  ultimately show ?thesis by blast
qed

text \<open>
  The answer to the \<open>PUT\<close> itself shows the configuration as it was sent, not as it was stored.
\<close>
lemma put_echoes_request:
  assumes "faults w = []" and "decode_config (r_body r) = Some c"
  shows "fst (admin_setLimit env r w) = writeJSON 200 (BConfig c)"
  using assms by (simp add: admin_setLimit_def answer_def SetConfig_def redis_set_def run_simps Let_def)

section \<open>Static files\<close>


section \<open>Sample requests\<close>

definition demo_http :: http_env where
  "demo_http =
     \<lparr>api_md = sample_md, api_lib_text = (\<lambda>e. ''io''), parse_uuid = (\<lambda>s. if s = ''7'' then Some 7 else None),
      parse_time = (\<lambda>s. None),
      route = (\<lambda>meth path.
        (if meth = ''POST'' \<and> path = ''/v1/portfolios'' then V1 (Some Portfolio_create)
         else if meth = ''GET'' \<and> path = ''/v1/orders/7'' then V1 (Some Order_get) else Unrouted,
         (\<lambda>k. ''7''))),
      unmatched = \<lparr>status_code = 404, headers = Map.empty, content = BEmpty\<rparr>,
      exists_file = (\<lambda>f. f = ''ui/app.js''), file_server = (\<lambda>d r. \<lparr>status_code = 200, headers = Map.empty, content = BText (r_path r)\<rparr>),
      serve_file = (\<lambda>f. \<lparr>status_code = 200, headers = Map.empty, content = BText f\<rparr>), ui_dir = ''ui''\<rparr>"

definition demo_request :: "string \<Rightarrow> string \<Rightarrow> json option \<Rightarrow> request" where
  "demo_request meth path body =
     \<lparr>r_method = meth, r_path = path, r_header = (\<lambda>h. []), r_query = (\<lambda>q. []), r_param = (\<lambda>k. []),
      r_remote = ''10.0.0.1'', r_body = body\<rparr>"

definition open_request :: request where
  "open_request = demo_request ''POST'' ''/v1/portfolios'' (Some (JObj [(''Seed_Paise'', JInt 500)]))"

definition order_request :: request where
  "order_request = demo_request ''GET'' ''/v1/orders/7'' None"

theorem api_requests_sound_witness:
  "let (resps, l', w') = handle_all demo_http (New_limiter 10 20) [(open_request, 5, []), (order_request, 6, [])] quiet_world
   in ledger_inv (wdb w') \<and> queue_ok {} (wdb w')"
proof -
  obtain resps l' w' where run: "handle_all demo_http (New_limiter 10 20)
      [(open_request, 5, []), (order_request, 6, [])] quiet_world = (resps, l', w')"
    by (metis prod_cases3)
  have q: "wdb quiet_world = empty_db" by (simp add: quiet_world_def empty_db_def)
  then have "queue_ok {} (wdb quiet_world)" by (simp add: queue_ok_def empty_db_def)
  moreover have "ledger_inv (wdb quiet_world)" using q ledger_inv_empty by simp
  ultimately have "ledger_inv (wdb w') \<and> queue_ok {} (wdb w')" using api_requests_sound run by blast
  then show ?thesis unfolding run by simp
qed

theorem error_response_no_effect_witness:
  "let (resp, l', w') = NewRouter demo_http (New_limiter 10 20) order_request quiet_world
   in status_code resp = 404 \<and> same_tables (wdb quiet_world) (wdb w')"
proof -
  obtain resp l' w' where run: "NewRouter demo_http (New_limiter 10 20) order_request quiet_world = (resp, l', w')"
    by (metis prod_cases3)
  have "status_code (fst (NewRouter demo_http (New_limiter 10 20) order_request quiet_world)) = 404" by code_simp
  then show ?thesis using error_response_no_effect [OF run] by (simp add: run)
qed

theorem GET_is_safe_witness:
  "let (resp, l', w') = NewRouter demo_http (New_limiter 10 20) order_request quiet_world in wdb w' = wdb quiet_world"
proof -
  obtain resp l' w' where run: "NewRouter demo_http (New_limiter 10 20) order_request quiet_world = (resp, l', w')"
    by (metis prod_cases3)
  have "routes_registered demo_http" by (auto simp: routes_registered_def demo_http_def routes_defs split: if_splits)
  moreover have "r_method order_request = ''GET''" by (simp add: order_request_def demo_request_def)
  ultimately show ?thesis using GET_is_safe [OF _ _ run] by (simp add: run)
qed

theorem rate_limit_reported_witness:
  "let (resp, l', w') = NewRouter demo_http (New_limiter 10 0) order_request quiet_world
   in status_code resp = 429 \<and> Option.bind (headers resp ''X-RateLimit-Limit'') Atoi = Some 0"
proof -
  obtain resp l' w' where run: "NewRouter demo_http (New_limiter 10 0) order_request quiet_world = (resp, l', w')"
    by (metis prod_cases3)
  obtain a l1 w1 where al: "Allow (New_limiter 10 0) (client_key order_request) quiet_world = (a, l1, w1)"
    by (metis prod_cases3)
  have "fst (Allow (New_limiter 10 0) (client_key order_request) quiet_world) =
      Inr \<lparr>rl_Allowed = False, rl_Limit = 0, rl_Remaining = 0, rl_ResetSec = 0\<rparr>" by code_simp
  then have a: "a = Inr \<lparr>rl_Allowed = False, rl_Limit = 0, rl_Remaining = 0, rl_ResetSec = 0\<rparr>" by (simp add: al)
  have rt: "route demo_http (r_method order_request) (r_path order_request) = (V1 (Some Order_get), \<lambda>k. ''7'')"
    "r_method order_request \<noteq> ''OPTIONS''"
    by (simp_all add: demo_http_def order_request_def demo_request_def)
  show ?thesis using rate_limit_reported [OF rt al [unfolded a] run] by (simp add: run in_int64_def)
qed

theorem limit_put_get_witness:
  "let r = (demo_request ''PUT'' ''/v1/admin/limits/a'' (Some (JObj [(''rate'', JInt 5)])))\<lparr>r_param := (\<lambda>k. ''a'')\<rparr>;
       (resp, w') = admin_setLimit demo_http r quiet_world
   in fst (admin_getLimit demo_http (New_limiter 10 20) r w') =
        writeJSON 200 (BConfig \<lparr>mode = ''token'', rate = 5, burst = 0, window_ms = 1000\<rparr>)"
proof -
  let ?r = "(demo_request ''PUT'' ''/v1/admin/limits/a'' (Some (JObj [(''rate'', JInt 5)])))\<lparr>r_param := (\<lambda>k. ''a'')\<rparr>"
  let ?s = "demo_request ''GET'' ''/v1/admin/limits/b'' None"
  obtain resp w' where run: "admin_setLimit demo_http ?r quiet_world = (resp, w')" by fastforce
  have "decode_config (r_body ?r) = Some \<lparr>mode = [], rate = 5, burst = 0, window_ms = 0\<rparr>" by code_simp
  moreover have "faults quiet_world = []" by (simp add: quiet_world_def)
  ultimately show ?thesis
    using limit_put_get [of quiet_world ?r _ demo_http resp w' ?r ?s "New_limiter 10 20"] run
    by (simp add: normal_config_def demo_request_def)
qed


end
