(* ===== verification/Load_Test.thy ===== *)
theory Load_Test
  imports Http_Properties
begin

text \<open>
  \<open>loadtest/main.go\<close>: the client program that checks a running instance.

  The requests are those of the helpers \<open>get\<close>, \<open>put\<close> and \<open>post\<close>; \<open>addr\<close> is the client's address as the
  server sees it. The 500 concurrent requests of the first check reach the server one after the other
  in some order, at the times in \<open>arrivals\<close>, or not at all (\<open>None\<close>, a transport error, which the
  program counts as denied); \<open>elapsed\<close> is the time the client measures. The polling loops of the second
  check see the status of an order as the answer to each poll.
\<close>

section \<open>The client\<close>

definition client_request :: "string \<Rightarrow> string \<Rightarrow> string \<Rightarrow> (string \<Rightarrow> string) \<Rightarrow> json option \<Rightarrow> request" where
  "client_request addr meth path hdr body =
     \<lparr>r_method = meth, r_path = path, r_header = hdr, r_query = (\<lambda>q. []), r_param = (\<lambda>k. []),
      r_remote = addr, r_body = body\<rparr>"

definition lt_put :: "string \<Rightarrow> string \<Rightarrow> json \<Rightarrow> request" where
  "lt_put addr path body = client_request addr ''PUT'' path
     ((\<lambda>h. [])(''Content-Type'' := ''application/json'')) (Some body)"

definition lt_key :: string where
  "lt_key = ''loadtest-key''"

definition limit_put :: "string \<Rightarrow> request" where
  "limit_put addr = lt_put addr (''/v1/admin/limits/'' @ lt_key)
     (JObj [(''burst'', JInt 20), (''mode'', JStr ''token''), (''rate'', JInt 10), (''window_ms'', JInt 1000)])"

definition quote_get :: "string \<Rightarrow> request" where
  "quote_get addr = client_request addr ''GET'' ''/v1/quotes/RELIANCE'' ((\<lambda>h. [])(''X-API-Key'' := lt_key)) None"

definition maxExpected :: "rat \<Rightarrow> rat" where
  "maxExpected elapsed = dbl (dbl (20 + dbl (10 * elapsed)) + 5)"

definition rate_verdict :: "nat \<Rightarrow> nat \<Rightarrow> rat \<Rightarrow> bool" where
  "rate_verdict allowed denied elapsed =
     (if denied = 0 then False else if maxExpected elapsed < of_nat allowed then False else True)"

definition rateLimitTest ::
    "http_env \<Rightarrow> limiter \<Rightarrow> string \<Rightarrow> time \<Rightarrow> time option list \<Rightarrow> rat \<Rightarrow> world \<Rightarrow> bool" where
  "rateLimitTest env l addr t0 arrivals elapsed w =
     (case handle_all env l [(limit_put addr, t0, [])] w of (_, l1, w1) \<Rightarrow>
      let resps = fst (handle_all env l1 (map (\<lambda>t. (quote_get addr, t, [])) (List.map_filter id arrivals)) w1);
          allowed = length (filter (\<lambda>x. status_code x \<noteq> 429) resps);
          denied = length arrivals - allowed
      in rate_verdict allowed denied elapsed)"

text \<open>The polling loops: at most 50 polls, 100 ms apart.\<close>

fun wait_filled :: "nat \<Rightarrow> (nat \<Rightarrow> string) \<Rightarrow> nat \<Rightarrow> bool" where
  "wait_filled 0 orderStatus i = False"
| "wait_filled (Suc n) orderStatus i =
     (if orderStatus i = ''filled'' then True else wait_filled n orderStatus (Suc i))"

definition waitFilled :: "(nat \<Rightarrow> string) \<Rightarrow> bool" where
  "waitFilled orderStatus = wait_filled 50 orderStatus 0"

fun wait_resolved :: "nat \<Rightarrow> (nat \<Rightarrow> string) \<Rightarrow> nat \<Rightarrow> string" where
  "wait_resolved 0 orderStatus i = ''pending''"
| "wait_resolved (Suc n) orderStatus i =
     (if orderStatus i \<noteq> ''pending'' then orderStatus i else wait_resolved n orderStatus (Suc i))"

definition waitResolved :: "(nat \<Rightarrow> string) \<Rightarrow> string" where
  "waitResolved orderStatus = wait_resolved 50 orderStatus 0"

text \<open>
  The verdict of the second check, from the answers to the polls for the buy order and for the sell
  orders and from the positions of the final view.
\<close>

definition last_position :: "position list \<Rightarrow> int" where
  "last_position ps = foldl (\<lambda>q p. if pos_instrument p = ''RELIANCE'' then pos_quantity p else q) 0 ps"

definition concurrency_verdict :: "(nat \<Rightarrow> string) \<Rightarrow> (nat \<Rightarrow> string) list \<Rightarrow> position list \<Rightarrow> bool" where
  "concurrency_verdict buy sells ps =
     (if \<not> waitFilled buy then False
      else let sts = map waitResolved sells;
               filled = length (filter (\<lambda>s. s = ''filled'' \<or> s = ''settled'') sts)
           in if filled \<noteq> 1 then False else if last_position ps < 0 then False else True)"

end
