(* ===== verification/Deployment.thy ===== *)
theory Deployment
  imports Config Market_Data_Properties Rate_Limit_Properties Worker
begin

text \<open>
  The wiring of the two processes, \<open>cmd/api/main.go\<close> and \<open>cmd/worker/main.go\<close>: what the configuration makes
  of the market data service, the limiter and the worker, and what follows for a deployment that
  leaves the variables unset. \<open>gosin\<close>, \<open>http\<close>, \<open>post\<close> and \<open>lib\<close> are the parameters of the components.
\<close>

definition main_md :: "(rat \<Rightarrow> rat) \<Rightarrow> (string \<Rightarrow> time \<Rightarrow> err + http_resp) \<Rightarrow> config \<Rightarrow> mdsvc" where
  "main_md gosin http cfg =
     \<lparr>md_provider = New_provider gosin http (MarketDataProvider cfg) (MarketDataAPIKey cfg),
      md_quoteTTL = QuoteTTLSeconds cfg\<rparr>"

definition api_limiter :: "config \<Rightarrow> limiter" where
  "api_limiter cfg = New_limiter (DefaultRate cfg) (DefaultBurst cfg)"

definition worker_env :: "(rat \<Rightarrow> rat) \<Rightarrow> (string \<Rightarrow> time \<Rightarrow> err + http_resp) \<Rightarrow>
    (string \<Rightarrow> payload \<Rightarrow> time \<Rightarrow> err + int) \<Rightarrow> (err \<Rightarrow> string) \<Rightarrow> config \<Rightarrow> wenv" where
  "worker_env gosin http post lib cfg =
     \<lparr>w_md = main_md gosin http cfg, leaseSecs = LeaseSeconds cfg, http_post = post, lib_text = lib\<rparr>"

text \<open>
  Reading the configuration. An integer variable that holds the decimal print of a 64-bit integer
  gives that integer; one that is unset or holds anything that is not an integer gives the default. With
  every variable unset or not readable in this way, the configuration satisfies what the limiter's
  bound, the genuine cache and the leases need.
\<close>
lemma config_values:
  "(in_int64 n \<and> getenv key = show_int n \<longrightarrow> envInt getenv key d = n) \<and>
   (Atoi (getenv key) = None \<longrightarrow> envInt getenv key d = d) \<and>
   ((\<forall>k. Atoi (getenv k) = None \<and> ParseFloat (getenv k) = None) \<longrightarrow>
      sane_bucket (DefaultRate (Load getenv)) (DefaultBurst (Load getenv)) \<and>
      0 < md_quoteTTL (main_md gosin http (Load getenv)) \<and>
      0 < leaseSecs (worker_env gosin http post lib (Load getenv)))"
proof -
  have "show_int n \<noteq> []" by (simp add: show_int_def show_nat_nonempty)
  then have "in_int64 n \<and> getenv key = show_int n \<longrightarrow> envInt getenv key d = n"
    by (auto simp: envInt_def Atoi_show_int)
  then show ?thesis
    by (auto simp: envInt_def envFloat_def Load_def sane_bucket_def main_md_def worker_env_def Let_def split: option.splits)
qed

lemma config_values_sample:
  "envInt (\<lambda>k. if k = ''DEFAULT_BURST'' then ''50'' else []) ''DEFAULT_BURST'' 20 = 50 \<and>
   sane_bucket (DefaultRate (Load (\<lambda>k. []))) (DefaultBurst (Load (\<lambda>k. [])))"
proof -
  have "Atoi [] = None" "ParseFloat [] = None" by code_simp+
  then have "sane_bucket (DefaultRate (Load (\<lambda>k. []))) (DefaultBurst (Load (\<lambda>k. [])))"
    using config_values [of 0 "\<lambda>k. []"] by simp
  moreover have "show_int 50 = ''50''" by code_simp
  ultimately show ?thesis
    using config_values [of 50 "\<lambda>k. if k = ''DEFAULT_BURST'' then ''50'' else []" "''DEFAULT_BURST''" 20]
    by (simp add: in_int64_def)
qed

text \<open>
  A time to live that is not positive turns expiry off: the first price of a symbol is served for ever.
\<close>
lemma no_ttl_freezes_quotes:
  assumes "md_quoteTTL m \<le> 0" and "faults w = []" and "rlive (clock w) (wredis w) (quoteKey s) = None"
    and "MD_Quote m s w = (Inr q, w')"
  shows "fst (MD_Quote m s (w'\<lparr>clock := t\<rparr>)) = Inr q"
proof -
  obtain price where "prov_Quote (md_provider m) s (clock w) = Inr price"
    using MD_Quote_source [OF assms(4)] assms(3) by auto
  note miss = MD_Quote_miss [OF assms(3,2) this]
  then have "wredis w' (quoteKey s) = Some (RQuote q, None)" "faults w' = []"
    using assms(1,2,4) by auto
  then show ?thesis using MD_Quote_hit [of "w'\<lparr>clock := t\<rparr>" s q m] by (simp add: rlive_def)
qed

end
