(* ===== verification/Well_Typed.thy ===== *)
theory Well_Typed
  imports Http_Properties
begin

text \<open>
  The shape of the stored data. The tables and the Redis keyspace are written by two programs and read
  back by both, with the database's columns and the JSON documents as the only common type: \<open>typed\<close> says
  that every stored number fits the Go type it is read into, that the text columns hold the values the
  code branches on, that every job carries the payload its handler decodes and names an order that
  exists, and that every Redis key holds the kind of value its family is read as.

  \<open>yields I m R\<close> extends \<open>keeps\<close> by what the operation returns: it keeps \<open>I\<close>, a result satisfies \<open>R\<close>, and
  it does not panic. The rules follow the structure of the code, so each method is one application of them.
\<close>

section \<open>Results of operations\<close>

named_theorems yields_intros \<open>rules for the results of an effectful operation\<close>

definition yields :: "(world \<Rightarrow> bool) \<Rightarrow> 'a io \<Rightarrow> ('a \<Rightarrow> bool) \<Rightarrow> bool" where
  "yields I m R \<longleftrightarrow> (\<forall>w. I w \<longrightarrow>
     (case m w of (r, w') \<Rightarrow> I w' \<and> (case r of Inl e \<Rightarrow> e \<noteq> GoPanic | Inr x \<Rightarrow> R x)))"

definition calm :: "('a \<Rightarrow> bool) \<Rightarrow> err + 'a \<Rightarrow> bool" where
  "calm R r \<longleftrightarrow> (case r of Inl e \<Rightarrow> e \<noteq> GoPanic | Inr x \<Rightarrow> R x)"

lemma calm_simps [simp]: "calm R (Inl e) \<longleftrightarrow> e \<noteq> GoPanic" "calm R (Inr x) \<longleftrightarrow> R x"
  by (simp_all add: calm_def)

lemma yieldsD: "yields I m R \<Longrightarrow> I w \<Longrightarrow> m w = (r, w') \<Longrightarrow> I w' \<and> calm R r"
  by (fastforce simp: yields_def calm_def)

lemma yieldsI: "(\<And>w r w'. I w \<Longrightarrow> m w = (r, w') \<Longrightarrow> I w' \<and> calm R r) \<Longrightarrow> yields I m R"
  unfolding yields_def calm_def by (auto split: prod.split)

lemma yields_keeps: "yields I m R \<Longrightarrow> keeps I m"
  unfolding keeps_def by (metis prod.collapse yieldsD)

lemma yields_weaken: "yields I m R \<Longrightarrow> (\<And>x. R x \<Longrightarrow> S x) \<Longrightarrow> yields I m S"
  by (rule yieldsI) (auto simp: calm_def dest!: yieldsD split: sum.splits)

lemma yields_ret [yields_intros]: "R x \<Longrightarrow> yields I (ret x) R"
  by (simp add: yields_def ret_def)

lemma yields_raise [yields_intros]: "e \<noteq> GoPanic \<Longrightarrow> yields I (raise e) R"
  by (simp add: yields_def raise_def)

lemma yields_timeNow [yields_intros]: "(\<And>t. R t) \<Longrightarrow> yields I timeNow R"
  by (simp add: yields_def timeNow_def)

lemma yields_bindE:
  assumes "yields I m R" and "\<And>x. R x \<Longrightarrow> yields I (f x) S"
  shows "yields I (bindE m f) S"
proof (rule yieldsI)
  fix w r w' assume I: "I w" and run: "bindE m f w = (r, w')"
  obtain s w1 where m: "m w = (s, w1)" by fastforce
  note yieldsD [OF assms(1) I m]
  then show "I w' \<and> calm S r"
    using run m yieldsD [OF assms(2)] by (cases s) (auto simp: bindE_def)
qed

lemma yields_attempt: "yields I m R \<Longrightarrow> yields I (attempt m) (calm R)"
  by (rule yieldsI) (auto simp: attempt_def dest: yieldsD split: prod.splits)

lemma yields_If [yields_intros]:
  "(b \<Longrightarrow> yields I m R) \<Longrightarrow> (\<not> b \<Longrightarrow> yields I n R) \<Longrightarrow> yields I (if b then m else n) R"
  by simp

section \<open>Types of the stored data\<close>

definition opt_int64 :: "int option \<Rightarrow> bool" where
  "opt_int64 x = (case x of None \<Rightarrow> True | Some v \<Rightarrow> in_int64 v)"

definition portfolio_typed :: "portfolio \<Rightarrow> bool" where
  "portfolio_typed p \<longleftrightarrow> in_int64 (seq_counter p)"

definition entry_typed :: "entry \<Rightarrow> bool" where
  "entry_typed e \<longleftrightarrow> (direction e = 1 \<or> direction e = -1) \<and> 0 < entry_quantity e \<and>
     in_int64 (entry_quantity e) \<and> opt_int64 (entry_price e) \<and> in_int64 (entry_seq e)"

definition order_typed :: "order \<Rightarrow> bool" where
  "order_typed ord \<longleftrightarrow> (side ord = ''buy'' \<or> side ord = ''sell'') \<and>
     (order_type ord = ''market'' \<or> order_type ord = ''limit'' \<and> limit_price ord \<noteq> None) \<and>
     order_status ord \<in> set statuses \<and> 0 < order_quantity ord \<and> in_int64 (order_quantity ord) \<and>
     opt_int64 (limit_price ord) \<and> opt_int64 (fill_price ord)"

definition alert_typed :: "alert \<Rightarrow> bool" where
  "alert_typed a \<longleftrightarrow> alert_symbol a \<noteq> [] \<and> (alert_direction a = ''above'' \<or> alert_direction a = ''below'') \<and>
     0 < threshold a \<and> in_int64 (threshold a) \<and> webhook_url a \<noteq> []"

text \<open>The payload of a job, by its type; \<open>S\<close> is the set of the identifiers of orders.\<close>

definition payload_typed :: "uuid set \<Rightarrow> string \<Rightarrow> payload \<Rightarrow> bool" where
  "payload_typed S typ pl \<longleftrightarrow>
     (typ = JobExecuteOrder \<or> typ = JobSettle) \<and> (\<exists>i \<in> S. pl = OrderPayload i) \<or>
     typ = JobPollQuotes \<and> pl = EmptyPayload \<or>
     typ = JobAlertWebhook \<and>
       (\<exists>i s price thr dir url. pl = AlertPayload i s price thr dir url \<and> in_int64 price \<and> in_int64 thr \<and> url \<noteq> [])"

definition job_typed :: "uuid set \<Rightarrow> job \<Rightarrow> bool" where
  "job_typed S j \<longleftrightarrow> payload_typed S (job_type j) (job_payload j) \<and> 0 < max_attempts j \<and> max_attempts j < 2 ^ 31"

definition order_ids :: "db \<Rightarrow> uuid set" where
  "order_ids d = order_id ` set (orders d)"

definition db_typed :: "db \<Rightarrow> bool" where
  "db_typed d \<longleftrightarrow> list_all portfolio_typed (portfolios d) \<and> distinct (map pf_id (portfolios d)) \<and> list_all entry_typed (entries d) \<and>
     list_all order_typed (orders d) \<and> list_all alert_typed (alerts d) \<and> distinct (map alert_id (alerts d)) \<and>
     list_all (job_typed (order_ids d)) (jobs d) \<and>
     list_all (\<lambda>l. payload_typed (order_ids d) (dl_type l) (dl_payload l)) (dead_letters d)"

definition position_typed :: "position \<Rightarrow> bool" where
  "position_typed p \<longleftrightarrow> in_int64 (pos_quantity p) \<and> in_int64 (pos_price p) \<and> in_int64 (pos_market_value p)"

definition view_typed :: "portfolio_view \<Rightarrow> bool" where
  "view_typed v \<longleftrightarrow> in_int64 (view_cash v) \<and> in_int64 (view_market_value v) \<and> in_int64 (view_total_value v) \<and>
     (\<forall>p \<in> set (view_positions v). position_typed p)"

fun value_typed :: "rkey \<Rightarrow> rval \<Rightarrow> bool" where
  "value_typed (quoteKey s) (RQuote q) = (quote_symbol q = s \<and> in_int64 (quote_price q))"
| "value_typed (snapKey i) (RSnapshot v) = (view_portfolio v = i \<and> view_typed v)"
| "value_typed (cfgKey k) (RConfig c) = (in_int64 (burst c) \<and> in_int64 (window_ms c))"
| "value_typed (bucketKey k) (RHash tokens ts) = True"
| "value_typed (bucketKey k) (RZSet zs) = True"
| "value_typed _ _ = False"

definition redis_typed :: "redis \<Rightarrow> bool" where
  "redis_typed rd \<longleftrightarrow> (\<forall>k v t. rd k = Some (v, t) \<longrightarrow> value_typed k v)"

text \<open>Orders are never deleted; \<open>X\<close> is a set of orders that are known to exist.\<close>

definition typed :: "uuid set \<Rightarrow> world \<Rightarrow> bool" where
  "typed X w \<longleftrightarrow> X \<subseteq> order_ids (wdb w) \<and> db_typed (wdb w) \<and> redis_typed (wredis w)"

lemma typed_mono: "typed X w \<Longrightarrow> Y \<subseteq> X \<Longrightarrow> typed Y w"
  by (auto simp: typed_def)

lemma payload_typed_mono: "payload_typed S typ pl \<Longrightarrow> S \<subseteq> S' \<Longrightarrow> payload_typed S' typ pl"
  by (auto simp: payload_typed_def)

lemma opt_int64_simps [simp]: "opt_int64 None" "opt_int64 (Some v) \<longleftrightarrow> in_int64 v"
  by (simp_all add: opt_int64_def)


lemmas typed_defs = portfolio_typed_def entry_typed_def order_typed_def alert_typed_def job_typed_def

section \<open>Rules for typed operations\<close>

definition tables_typed :: "uuid set \<Rightarrow> db \<Rightarrow> bool" where
  "tables_typed X d \<longleftrightarrow> X \<subseteq> order_ids d \<and> db_typed d"

lemma typed_tables: "typed X w \<longleftrightarrow> tables_typed X (wdb w) \<and> redis_typed (wredis w)"
  by (simp add: typed_def tables_typed_def)

lemma typed_frame [simp]:
  "typed X (w\<lparr>faults := bs\<rparr>) = typed X w" "typed X (w\<lparr>drawn := n\<rparr>) = typed X w" "typed X (w\<lparr>clock := t\<rparr>) = typed X w"
  by (simp_all add: typed_def)

lemma yields_ext:
  assumes "\<And>w. typed X w \<Longrightarrow> case m w of (r, w') \<Rightarrow> typed X w' \<and> calm R r"
  shows "yields (typed X) (ext m) R"
proof (rule yieldsI)
  fix w r w' assume T: "typed X w" and run: "ext m w = (r, w')"
  show "typed X w' \<and> calm R r"
  proof (cases "faults w")
    case Nil
    with run assms [OF T] show ?thesis by (simp add: ext_def)
  next
    case (Cons b bs)
    with run T assms [of "w\<lparr>faults := bs\<rparr>"] show ?thesis by (cases b) (auto simp: ext_def)
  qed
qed

lemma yields_uuid [yields_intros]: "(\<And>i. R i) \<Longrightarrow> yields (typed X) uuid_New R"
  by (simp add: yields_def uuid_New_def)

lemma yields_sql:
  assumes "\<And>now d. tables_typed X d \<Longrightarrow>
    (case q now d of Inl e \<Rightarrow> e \<noteq> GoPanic | Inr (x, d') \<Rightarrow> tables_typed X d' \<and> R x)"
  shows "yields (typed X) (sql q) R"
  unfolding sql_def
proof (rule yields_ext)
  fix w assume "typed X w"
  with assms [of "wdb w" "clock w"] show "case (case q (clock w) (wdb w) of Inl e \<Rightarrow> (Inl e, w)
      | Inr (x, d) \<Rightarrow> (Inr x, w\<lparr>wdb := d\<rparr>)) of (r, w') \<Rightarrow> typed X w' \<and> calm R r"
    by (auto simp: typed_tables split: sum.splits)
qed

lemma yields_runTx:
  assumes "yields (typed X) fn R"
  shows "yields (typed X) (runTx fn) R"
proof (rule yieldsI)
  fix w r w' assume T: "typed X w" and run: "runTx fn w = (r, w')"
  show "typed X w' \<and> calm R r"
  proof (cases "ext (ret ()) w")
    case (Pair b w1)
    then obtain bs where w1: "w1 = w\<lparr>faults := bs\<rparr>" by (cases b) (auto dest!: ext_ret_Inr ext_ret_Inl)
    obtain s w2 where fn: "fn w1 = (s, w2)" by fastforce
    have 2: "typed X w2 \<and> calm R s" using yieldsD [OF assms _ fn] T w1 by simp
    have rb: "typed X (rollback w1 v)" if "typed X v" for v
      using T that w1 by (simp add: rollback_def typed_def db_typed_def order_ids_def)
    show ?thesis
    proof (cases b)
      case (Inl e)
      with Pair run T w1 show ?thesis by (auto simp: runTx_def dest: ext_ret_Inl)
    next
      case (Inr u)
      then show ?thesis
        using Pair run fn 2 rb
        by (auto simp: runTx_def split: sum.splits prod.splits dest!: ext_ret_Inr ext_ret_Inl)
    qed
  qed
qed

text \<open>Redis commands.\<close>

lemma yields_redis_get:
  assumes "\<And>v. (case v of None \<Rightarrow> True | Some x \<Rightarrow> value_typed k x) \<Longrightarrow> R v"
  shows "yields (typed X) (redis_get k) R"
  unfolding redis_get_def
  by (rule yields_ext) (auto simp: typed_def redis_typed_def rlive_def intro!: assms split: option.splits prod.splits)

lemma yields_redis_set [yields_intros]:
  assumes "value_typed k v" and "\<And>u. R u"
  shows "yields (typed X) (redis_set k v ttl) R"
  unfolding redis_set_def
  by (rule yields_ext) (use assms in \<open>auto simp: typed_def redis_typed_def\<close>)

lemma yields_redis_del [yields_intros]: "(\<And>u. R u) \<Longrightarrow> yields (typed X) (redis_del k) R"
  unfolding redis_del_def by (rule yields_ext) (auto simp: typed_def redis_typed_def)

section \<open>Repositories\<close>

lemma list_all_row_upd: "list_all P rs \<Longrightarrow> (\<And>r. P r \<Longrightarrow> P (f r)) \<Longrightarrow> list_all P (row_upd key k f rs)"
  by (auto simp: list_all_iff row_upd_def)

lemma list_all_row_upd_one:
  "list_all P rs \<Longrightarrow> distinct (map key rs) \<Longrightarrow> row_get key k rs = Some r \<Longrightarrow> P (f r) \<Longrightarrow> list_all P (row_upd key k f rs)"
  by (auto simp: list_all_iff row_upd_def) (metis option.inject row_get_unique)

lemma list_all_row_del: "list_all P rs \<Longrightarrow> list_all P (row_del key k rs)"
  by (auto simp: list_all_iff row_del_def)

lemma list_all_filter: "list_all P rs \<Longrightarrow> list_all P (filter Q rs)"
  by (auto simp: list_all_iff)

lemma list_all_row_get: "list_all P rs \<Longrightarrow> row_get key k rs = Some r \<Longrightarrow> P r"
  by (auto simp: list_all_iff dest: row_get_SomeD)

lemma order_ids_row_upd [simp]:
  "(\<And>r. order_id (f r) = order_id r) \<Longrightarrow> order_ids (d\<lparr>orders := row_upd order_id i f (orders d)\<rparr>) = order_ids d"
  by (metis list.set_map order_ids_def row_upd_keys db.select_convs(3) db.surjective db.update_convs(3))

lemma order_ids_frame [simp]:
  "order_ids (d\<lparr>portfolios := ps\<rparr>) = order_ids d" "order_ids (d\<lparr>entries := es\<rparr>) = order_ids d"
  "order_ids (d\<lparr>jobs := js\<rparr>) = order_ids d" "order_ids (d\<lparr>dead_letters := ls\<rparr>) = order_ids d"
  "order_ids (d\<lparr>alerts := as\<rparr>) = order_ids d" "order_ids (d\<lparr>entries_serial := n\<rparr>) = order_ids d"
  by (simp_all add: order_ids_def)

lemmas tables = tables_typed_def db_typed_def

text \<open>A statement that changes nothing.\<close>

lemma yields_query: "(\<And>now d. tables_typed X d \<Longrightarrow> R (f now d)) \<Longrightarrow> yields (typed X) (sql (\<lambda>now d. Inr (f now d, d))) R"
  by (rule yields_sql) simp

lemma yields_LockForUpdate [yields_intros]:
  "(\<And>sq. in_int64 sq \<Longrightarrow> R sq) \<Longrightarrow> yields (typed X) (LockForUpdate i) R"
  unfolding LockForUpdate_def
  by (rule yields_sql)
    (auto simp: q_lock_portfolio_def tables portfolio_typed_def dest: list_all_row_get split: option.splits)

lemma yields_Holdings [yields_intros]:
  assumes "\<And>h. list_all (\<lambda>(i, q). in_int64 q) h \<Longrightarrow> R h"
  shows "yields (typed X) (Holdings i asOf) R"
  unfolding Holdings_def
  by (rule yields_sql) (use assms in \<open>auto simp: q_holdings_def Let_def\<close>)

lemma yields_Portfolio_Create [yields_intros]: "(\<And>i. R i) \<Longrightarrow> yields (typed X) (Portfolio_Create name) R"
  unfolding Portfolio_Create_def
  by (rule yields_bindE [OF yields_uuid], simp, rule yields_bindE [where R = "\<lambda>_. True", OF yields_sql])
    (auto simp: q_insert_portfolio_def tables portfolio_typed_def in_int64_def intro: yields_intros)

lemma yields_BumpSeq [yields_intros]: "R () \<Longrightarrow> yields (typed X) (BumpSeq i n) R"
  unfolding BumpSeq_def
  by (rule yields_sql)
    (auto simp: q_bump_seq_def tables portfolio_typed_def row_upd_keys intro!: list_all_row_upd_one split: option.splits)

lemma yields_Entry_Insert [yields_intros]: "R () \<Longrightarrow> (0 < entry_quantity e \<Longrightarrow> entry_typed e) \<Longrightarrow> yields (typed X) (Entry_Insert e) R"
  unfolding Entry_Insert_def
  by (rule yields_sql) (auto simp: q_insert_entry_def tables entry_typed_def)

lemma yields_SetStatus [yields_intros]: "R () \<Longrightarrow> st \<in> set statuses \<Longrightarrow> yields (typed X) (SetStatus i st why) R"
  unfolding SetStatus_def
  by (rule yields_sql) (auto simp: q_set_status_def tables order_typed_def intro!: list_all_row_upd)

lemma yields_SetFilled [yields_intros]: "R () \<Longrightarrow> in_int64 price \<Longrightarrow> yields (typed X) (SetFilled i price) R"
  unfolding SetFilled_def
  by (rule yields_sql) (auto simp: q_set_filled_def tables order_typed_def statuses_def intro!: list_all_row_upd)

lemma yields_GetByIdempotencyKey [yields_intros]:
  "(\<And>ord. order_typed ord \<Longrightarrow> R ord) \<Longrightarrow> yields (typed X) (GetByIdempotencyKey k) R"
  unfolding GetByIdempotencyKey_def
  by (rule yields_sql)
    (auto simp: q_get_by_key_def tables list_all_iff find_Some_iff split: option.splits)

lemma yields_Portfolio_Exists [yields_intros]: "(\<And>b. R b) \<Longrightarrow> yields (typed X) (Portfolio_Exists i) R"
  and yields_DistinctSymbols [yields_intros]: "(\<And>ss. S ss) \<Longrightarrow> yields (typed X) DistinctSymbols S"
  and yields_Alert_Symbols [yields_intros]: "(\<And>ss. S ss) \<Longrightarrow> yields (typed X) Alert_Symbols S"
  and yields_HasActive [yields_intros]: "(\<And>b. R b) \<Longrightarrow> yields (typed X) (HasActive typ) R"
  unfolding Portfolio_Exists_def DistinctSymbols_def Alert_Symbols_def HasActive_def by (simp_all add: yields_query)

lemma yields_ListActive [yields_intros]: "(\<And>as. list_all alert_typed as \<Longrightarrow> R as) \<Longrightarrow> yields (typed X) ListActive R"
  unfolding ListActive_def by (rule yields_query) (simp add: tables list_all_filter)

lemma yields_MarkTriggered [yields_intros]: "R () \<Longrightarrow> yields (typed X) (MarkTriggered i) R"
  unfolding MarkTriggered_def
  by (rule yields_sql) (auto simp: q_mark_triggered_def tables alert_typed_def row_upd_keys intro!: list_all_row_upd)

text \<open>Reading and creating an order makes its identifier known.\<close>

lemma yields_Order_Get_bind:
  assumes "\<And>ord. order_typed ord \<Longrightarrow> order_id ord = i \<Longrightarrow> yields (typed (insert i X)) (f ord) R"
  shows "yields (typed X) (bindE (Order_Get i) f) R"
proof (rule yieldsI)
  fix w r w' assume T: "typed X w" and run: "bindE (Order_Get i) f w = (r, w')"
  obtain s w1 where g: "Order_Get i w = (s, w1)" by fastforce
  show "typed X w' \<and> calm R r"
  proof (cases s)
    case (Inl e)
    have "typed X w1 \<and> e \<noteq> GoPanic"
      using g T Inl by (auto simp: Order_Get_def sql_def ext_def q_get_order_def split: list.splits sum.splits option.splits if_splits)
    with run g Inl show ?thesis by (auto simp: bindE_def)
  next
    case (Inr ord)
    then have w1: "wdb w1 = wdb w" "wredis w1 = wredis w" and ord: "row_get order_id i (orders (wdb w)) = Some ord"
      using g by (auto simp: Order_Get_def q_get_order_def elim!: sql_InrE split: option.splits)
    then have "order_typed ord" and "order_id ord = i" and "i \<in> order_ids (wdb w)"
      using T by (auto simp: typed_def db_typed_def order_ids_def dest: list_all_row_get row_get_SomeD)
    with T w1 have "typed (insert i X) w1" by (simp add: typed_def)
    from yieldsD [OF assms this] show ?thesis
      using run g Inr \<open>order_typed ord\<close> \<open>order_id ord = i\<close> by (auto simp: bindE_def intro: typed_mono)
  qed
qed

lemma yields_Order_Create_bind:
  assumes "order_typed ord" and "yields (typed (insert (order_id ord) X)) (f ()) R"
  shows "yields (typed X) (bindE (Order_Create ord) f) R"
proof (rule yieldsI)
  fix w r w' assume T: "typed X w" and run: "bindE (Order_Create ord) f w = (r, w')"
  obtain s w1 where c: "Order_Create ord w = (s, w1)" by fastforce
  show "typed X w' \<and> calm R r"
  proof (cases s)
    case (Inl e)
    have "typed X w1 \<and> e \<noteq> GoPanic"
      using c T Inl by (auto simp: Order_Create_def sql_def ext_def q_insert_order_def split: list.splits sum.splits if_splits)
    with run c Inl show ?thesis by (auto simp: bindE_def)
  next
    case (Inr u)
    then have "wredis w1 = wredis w" and "wdb w1 = (wdb w)\<lparr>orders := orders (wdb w) @
        [ord\<lparr>fill_price := None, reason := None, order_created := clock w\<rparr>]\<rparr>"
      using c by (auto simp: Order_Create_def q_insert_order_def elim!: sql_InrE split: if_splits)
    then have "typed (insert (order_id ord) X) w1"
      using T assms(1)
      by (auto simp: typed_def db_typed_def order_ids_def order_typed_def job_typed_def list_all_iff intro: payload_typed_mono)
    from yieldsD [OF assms(2) this] show ?thesis
      using run c Inr by (auto simp: bindE_def intro: typed_mono)
  qed
qed

subsection \<open>Jobs\<close>

lemma yields_Enqueue [yields_intros]:
  assumes "\<And>i. R i" and "payload_typed X typ pl" and "0 < maxAtt" and "maxAtt < 2 ^ 31"
  shows "yields (typed X) (Enqueue typ pl prio runAt maxAtt) R"
  unfolding Enqueue_def
proof (rule yields_bindE [OF yields_uuid], simp, rule yields_bindE [where R = "\<lambda>_. True", OF yields_sql])
  fix i now d assume "tables_typed X d"
  with assms payload_typed_mono [OF assms(2), of "order_ids d"]
  show "case q_insert_job i typ pl prio runAt maxAtt now d of Inl e \<Rightarrow> e \<noteq> GoPanic
      | Inr (x, d') \<Rightarrow> tables_typed X d' \<and> True"
    by (auto simp: q_insert_job_def tables job_typed_def)
qed (use assms in \<open>auto intro: yields_intros\<close>)

lemma job_typed_simps [simp]:
  "job_typed S (j\<lparr>job_status := a\<rparr>) = job_typed S j" "job_typed S (j\<lparr>leased_until := b\<rparr>) = job_typed S j"
  "job_typed S (j\<lparr>run_at := t\<rparr>) = job_typed S j" "job_typed S (j\<lparr>last_error := e\<rparr>) = job_typed S j"
  "job_typed S (j\<lparr>attempts := n\<rparr>) = job_typed S j"
  by (simp_all add: job_typed_def)

lemma yields_Complete [yields_intros]: "R () \<Longrightarrow> yields (typed X) (Complete i) R"
  and yields_Retry [yields_intros]: "R () \<Longrightarrow> yields (typed X) (Retry i t msg) R"
  unfolding Complete_def Retry_def
  by (rule yields_sql, auto simp: q_complete_def q_retry_def tables intro!: list_all_row_upd)+

lemma yields_MoveToDead [yields_intros]:
  assumes "R ()" and "payload_typed X (job_type j) (job_payload j)"
  shows "yields (typed X) (MoveToDead j msg) R"
  unfolding MoveToDead_def
proof (rule yields_bindE [where R = "\<lambda>_. True", OF yields_sql])
  fix now d assume "tables_typed X d"
  with payload_typed_mono [OF assms(2), of "order_ids d"]
  show "case q_insert_dead j msg now d of Inl e \<Rightarrow> e \<noteq> GoPanic | Inr (x, d') \<Rightarrow> tables_typed X d' \<and> True"
    by (auto simp: q_insert_dead_def tables bury_def)
qed (rule yields_sql, use assms in \<open>auto simp: q_delete_job_def tables intro!: list_all_row_del\<close>)

lemma yields_ReapExpired: "(\<And>x. R x) \<Longrightarrow> yields (typed X) ReapExpired R"
  unfolding ReapExpired_def
proof (rule yields_bindE [where R = "\<lambda>_. True", OF yields_sql])
  fix now d assume "tables_typed X d"
  then show "case q_reap_dead now d of Inl e \<Rightarrow> e \<noteq> GoPanic | Inr (x, d') \<Rightarrow> tables_typed X d' \<and> True"
    by (auto simp: q_reap_dead_def tables bury_def job_typed_def list_all_iff Let_def)
next
  fix dl assume R: "\<And>x. R x"
  show "yields (typed X) (bindE (sql q_reap_requeue) (\<lambda>rq. ret (rq, dl))) R"
    by (rule yields_bindE [where R = "\<lambda>_. True", OF yields_sql])
      (use R in \<open>auto simp: q_reap_requeue_def tables list_all_iff requeue_def intro: yields_intros\<close>)
qed

lemma yields_Replay: "R () \<Longrightarrow> yields (typed X) (Replay i) R"
  unfolding Replay_def
proof (rule yields_bindE [where R = "\<lambda>_. True", OF yields_sql])
  fix now d assume "tables_typed X d"
  then show "case q_replay i now d of Inl e \<Rightarrow> e \<noteq> GoPanic | Inr (x, d') \<Rightarrow> tables_typed X d' \<and> True"
    by (auto simp: q_replay_def tables revive_def job_typed_def list_all_row_del dest: list_all_row_get split: option.splits)
qed (auto intro!: yields_intros)

lemma yields_Alert_Create:
  assumes "\<And>i. R i" and "symb \<noteq> []" and "dir = ''above'' \<or> dir = ''below''" and "0 < thr" and "in_int64 thr" and "url \<noteq> []"
  shows "yields (typed X) (Alert_Create symb dir thr url) R"
  unfolding Alert_Create_def
  by (rule yields_bindE [OF yields_uuid], simp, rule yields_bindE [where R = "\<lambda>_. True", OF yields_sql])
    (use assms in \<open>auto simp: q_insert_alert_def tables alert_typed_def intro: yields_intros\<close>)

text \<open>The orders a payload refers to.\<close>

definition payload_ids :: "payload \<Rightarrow> uuid set" where
  "payload_ids pl = (case pl of OrderPayload i \<Rightarrow> {i} | _ \<Rightarrow> {})"

lemma payload_typed_ids: "payload_typed S typ pl \<Longrightarrow> payload_ids pl \<subseteq> S \<and> payload_typed (payload_ids pl) typ pl"
  by (auto simp: payload_typed_def payload_ids_def)

lemma Claim_typed:
  assumes "typed X w" and "Claim n w = (r, w')"
  shows "typed X w' \<and> (case r of Inl e \<Rightarrow> e \<noteq> GoPanic | Inr None \<Rightarrow> True
    | Inr (Some j) \<Rightarrow> typed (payload_ids (job_payload j)) w' \<and>
        payload_typed (payload_ids (job_payload j)) (job_type j) (job_payload j))"
proof (cases r)
  case (Inl e)
  with assms show ?thesis
    by (auto simp: Claim_def sql_def ext_def q_claim_def split: list.splits sum.splits option.splits if_splits)
next
  case (Inr jo)
  from assms(2) [unfolded Inr Claim_def] obtain d where q: "q_claim n (clock w) (wdb w) = Inr (jo, d)"
    and w': "wdb w' = d" "wredis w' = wredis w" by (rule sql_InrE)
  show ?thesis
  proof (cases jo)
    case None
    with q have "d = wdb w" by (auto simp: q_claim_def split: option.splits if_splits)
    with None Inr assms(1) w' show ?thesis by (simp add: typed_def)
  next
    case (Some j)
    with q obtain k where k: "next_job (clock w) (jobs (wdb w)) = Some k" and j: "j = lease (clock w) n k"
      and d: "d = (wdb w)\<lparr>jobs := row_upd job_id (job_id k) (lease (clock w) n) (jobs (wdb w))\<rparr>"
      by (auto simp: q_claim_def split: option.splits if_splits)
    have "job_typed (order_ids (wdb w)) k"
      using assms(1) next_job_Some(1) [OF k] by (auto simp: typed_def db_typed_def list_all_iff)
    then have p: "payload_ids (job_payload j) \<subseteq> order_ids (wdb w)"
      "payload_typed (payload_ids (job_payload j)) (job_type j) (job_payload j)"
      using payload_typed_ids by (auto simp: j job_typed_def)
    have "db_typed d"
      using assms(1) by (auto simp: d typed_def db_typed_def lease_def intro!: list_all_row_upd)
    with p assms(1) Some Inr w' d show ?thesis by (auto simp: typed_def)
  qed
qed

end
