(* ===== verification/Typed_Services.thy ===== *)
theory Typed_Services
  imports Well_Typed
begin

text \<open>
  Every method of the services, every handler of the worker and every endpoint keeps the stored data well
  typed (\<open>Well_Typed\<close>) and does not panic. The assumptions on what is outside the repository are
  \<open>md_typed\<close> (prices are of type \<open>int64\<close>) and \<open>worker_typed\<close> (posting to a webhook does not panic).
\<close>

section \<open>Services\<close>

text \<open>
  Sequencing after an operation whose result is known: what each repository method promises of its
  result, as a rule for the rest of the code.
\<close>

abbreviation anything :: "'a \<Rightarrow> bool" where
  "anything x \<equiv> True"

lemmas yields_first =
  yields_bindE [OF yields_timeNow [where R = anything, simplified]]
  yields_bindE [OF yields_uuid [where R = anything, simplified]]
  yields_bindE [OF yields_LockForUpdate [where R = in_int64, simplified]]
  yields_bindE [OF yields_Holdings [where R = "list_all (\<lambda>(i, q). in_int64 q)", simplified]]
  yields_bindE [OF yields_Portfolio_Exists [where R = anything, simplified]]
  yields_bindE [OF yields_Portfolio_Create [where R = anything, simplified]]
  yields_bindE [OF yields_BumpSeq [where R = anything, simplified]]
  yields_bindE [OF yields_Entry_Insert [where R = anything, simplified]]
  yields_bindE [OF yields_SetStatus [where R = anything, simplified]]
  yields_bindE [OF yields_SetFilled [where R = anything, simplified]]
  yields_bindE [OF yields_Enqueue [where R = anything, simplified]]
  yields_bindE [OF yields_DistinctSymbols [where S = anything, simplified]]
  yields_bindE [OF yields_Alert_Symbols [where S = anything, simplified]]
  yields_bindE [OF yields_ListActive [where R = "list_all alert_typed", simplified]]
  yields_bindE [OF yields_attempt [OF yields_GetByIdempotencyKey [where R = order_typed, simplified]]]
  yields_bindE [OF yields_attempt [OF yields_Enqueue [where R = anything, simplified]]]
  yields_bindE [OF yields_attempt [OF yields_MarkTriggered [where R = anything, simplified]]]
  yields_bindE [OF yields_redis_set [where R = anything, simplified]]
  yields_bindE [OF yields_attempt [OF yields_redis_set [where R = anything, simplified]]]
  yields_bindE [OF yields_attempt [OF yields_redis_del [where R = anything, simplified]]]
  yields_bindE [OF yields_attempt [OF yields_Complete [where R = anything, simplified]]]
  yields_bindE [OF yields_attempt [OF yields_Retry [where R = anything, simplified]]]
  yields_bindE [OF yields_attempt [OF yields_MoveToDead [where R = anything, simplified]]]
  yields_bindE [OF yields_attempt [OF yields_HasActive [where R = anything, simplified]]]
  yields_bindE [OF yields_attempt [OF yields_ReapExpired [where R = anything, simplified]]]
  yields_Order_Get_bind

subsection \<open>Market data\<close>

text \<open>The provider's prices are values of type \<open>int64\<close>, and asking for one does not panic.\<close>

definition md_typed :: "mdsvc \<Rightarrow> bool" where
  "md_typed m \<longleftrightarrow> (\<forall>s t. calm in_int64 (prov_Quote (md_provider m) s t))"

definition quote_typed :: "string \<Rightarrow> quote \<Rightarrow> bool" where
  "quote_typed s q \<longleftrightarrow> quote_symbol q = s \<and> in_int64 (quote_price q)"

lemma yields_GetQuote: "yields (typed X) (GetQuote s) (quote_typed s)"
  unfolding GetQuote_def
  by (rule yields_bindE [OF yields_redis_get [where R = "\<lambda>v. case v of None \<Rightarrow> True | Some x \<Rightarrow> value_typed (quoteKey s) x"]])
    (auto simp: quote_typed_def intro!: yields_intros split: option.splits rval.splits)

lemma md_typedD:
  assumes "md_typed m"
  shows "prov_Quote (md_provider m) s t \<noteq> Inl GoPanic" and "prov_Quote (md_provider m) s t = Inr p \<Longrightarrow> in_int64 p"
  using assms by (metis calm_simps md_typed_def)+

lemma yields_MD_Quote: "md_typed m \<Longrightarrow> yields (typed X) (MD_Quote m s) (quote_typed s)"
  unfolding MD_Quote_def SetQuote_def
  by (intro yields_bindE [OF yields_attempt [OF yields_GetQuote]])
    (auto simp: quote_typed_def Let_def md_typedD intro!: yields_first yields_intros split: sum.splits)

lemma yields_Refresh: "md_typed m \<Longrightarrow> yields (typed X) (Refresh m s) (quote_typed s)"
  unfolding Refresh_def SetQuote_def
  by (auto simp: quote_typed_def Let_def md_typedD intro!: yields_first yields_intros split: sum.splits)

lemma yields_stocks_loop: "md_typed m \<Longrightarrow> yields (typed X) (stocks_loop m sts) anything"
proof (induction sts)
  case (Cons st sts)
  then show ?case
    by (auto intro!: yields_bindE [OF yields_attempt [OF yields_MD_Quote]] yields_bindE [OF Cons.IH] yields_intros
        split: sum.splits)
qed (simp add: yields_ret)

subsection \<open>Trading\<close>

lemma seed_entry_typed: "0 < amount \<Longrightarrow> in_int64 amount \<Longrightarrow> entry_typed (seed_entry tid p amount)"
  by (simp add: entry_typed_def seed_entry_def in_int64_def)

lemma yields_CreatePortfolio:
  assumes "in_int64 seed"
  shows "yields (typed X) (CreatePortfolio name seed) anything"
  unfolding CreatePortfolio_def
  by (auto intro!: yields_runTx yields_first yields_intros seed_entry_typed assms)

definition req_typed :: "place_req \<Rightarrow> bool" where
  "req_typed req \<longleftrightarrow> in_int64 (req_quantity req) \<and> opt_int64 (req_limit_price req)"

lemma req_order_typed: "valid_req req \<Longrightarrow> req_typed req \<Longrightarrow> order_typed (req_order req (eff_type req) i)"
  by (auto simp: valid_req_def req_typed_def order_typed_def req_order_def statuses_def split: option.splits)

lemma order_payload_typed: "i \<in> S \<Longrightarrow> typ = JobExecuteOrder \<or> typ = JobSettle \<Longrightarrow> payload_typed S typ (OrderPayload i)"
  by (auto simp: payload_typed_def)

lemma yields_outbox_tx:
  assumes "order_typed ord"
  shows "yields (typed X) (outbox_tx ord) anything"
  unfolding outbox_tx_def
  by (intro yields_Order_Create_bind assms yields_first yields_intros order_payload_typed) simp_all

lemma yields_find_existing: "yields (typed X) (find_existing k) (\<lambda>ex. case ex of None \<Rightarrow> True | Some ord \<Rightarrow> order_typed ord)"
  unfolding find_existing_def by (auto intro!: yields_first yields_intros split: sum.splits)

lemma yields_PlaceOrder:
  assumes "req_typed req"
  shows "yields (typed X) (PlaceOrder req) order_typed"
proof (cases "valid_req req")
  case True
  note ord = req_order_typed [OF True assms]
  have "yields (typed X) (place_new req (eff_type req)) order_typed"
    unfolding place_new_def
    by (auto intro!: yields_first yields_intros yields_bindE [OF yields_runTx [OF yields_outbox_tx [OF ord]]] ord)
  then show ?thesis
    unfolding PlaceOrder_valid [OF True]
    by (intro yields_bindE [OF yields_find_existing]) (auto intro: yields_ret split: option.splits)
next
  case False
  show ?thesis
  proof (rule yieldsI)
    fix w r w' assume "typed X w" and "PlaceOrder req w = (r, w')"
    with PlaceOrder_invalid [OF False, of w] show "typed X w' \<and> calm order_typed r" by auto
  qed
qed

lemma trade_legs_typed:
  assumes "order_typed ord"
  shows "in_int64 price \<Longrightarrow> entry_typed (stock_leg ord tid sq price)"
    and "in_int64 cost \<Longrightarrow> 0 < entry_quantity (cash_leg ord tid sq cost) \<Longrightarrow> entry_typed (cash_leg ord tid sq cost)"
  using assms by (simp_all add: entry_typed_def stock_leg_def cash_leg_def order_typed_def)

lemma yields_fill_tx:
  assumes "order_typed ord" and "in_int64 price" and "order_id ord \<in> X"
  shows "yields (typed X) (fill_tx ord price) anything"
proof -
  have "yields (typed X) (book_trade ord price cost sq) anything" if "in_int64 cost" for cost sq
    unfolding book_trade_def Let_def InvalidateSnapshot_def
    by (intro yields_first yields_intros trade_legs_typed order_payload_typed assms that) (simp_all add: assms)
  then show ?thesis
    unfolding fill_tx_def Let_def by (intro yields_first yields_intros) (simp_all add: statuses_def)
qed

lemma yields_execute_priced:
  assumes "order_typed ord" and "in_int64 price" and "order_id ord \<in> X"
  shows "yields (typed X) (execute_priced ord price) anything"
  unfolding execute_priced_def reject_def
  by (use assms in \<open>auto simp: order_typed_def statuses_def intro!: yields_intros yields_runTx yields_fill_tx
      split: option.splits\<close>)

lemma yields_ExecuteOrder:
  assumes "md_typed m"
  shows "yields (typed X) (ExecuteOrder m i) anything"
  unfolding ExecuteOrder_def
  by (intro yields_Order_Get_bind yields_If yields_ret yields_bindE [OF yields_attempt [OF yields_MD_Quote [OF assms]]])
    (auto simp: quote_typed_def intro!: yields_raise yields_execute_priced split: sum.splits)

lemma yields_CancelOrder: "yields (typed X) (CancelOrder i) anything"
  unfolding CancelOrder_def by (intro yields_first yields_intros) (simp_all add: statuses_def)

lemma yields_positions_loop:
  assumes "md_typed m"
  shows "list_all (\<lambda>(i, q). in_int64 q) h \<Longrightarrow> list_all position_typed ps \<Longrightarrow> in_int64 tot \<Longrightarrow>
    yields (typed X) (positions_loop m h ps tot) (\<lambda>(ps', tot'). list_all position_typed ps' \<and> in_int64 tot')"
proof (induction h arbitrary: ps tot)
  case (Cons x h)
  obtain i q where x: "x = (i, q)" by (cases x)
  have "in_int64 (case r of Inl _ \<Rightarrow> 0 | Inr q \<Rightarrow> quote_price q)" if "calm (quote_typed i) r" for r
    using that by (cases r) (auto simp: quote_typed_def in_int64_def)
  with Cons x show ?case
    by (auto simp: Let_def position_typed_def intro!: yields_bindE [OF yields_attempt [OF yields_MD_Quote [OF assms]]])
qed (simp add: yields_ret)

lemma yields_compute_view:
  assumes "md_typed m"
  shows "yields (typed X) (compute_view m i asOf) (\<lambda>v. view_portfolio v = i \<and> view_typed v)"
proof -
  have 0: "in_int64 0" by (simp add: in_int64_def)
  have "in_int64 (map_at h k)" if "list_all (\<lambda>(i, q). in_int64 q) h" for h k
    using that 0 by (auto simp: map_at_def list_all_iff dest: map_of_SomeD split: option.splits)
  then show ?thesis
    unfolding compute_view_def
    by (auto intro!: yields_first yields_intros yields_bindE [OF yields_positions_loop [OF assms]]
        simp: view_typed_def list_all_iff 0)
qed

lemma yields_GetSnapshot: "yields (typed X) (GetSnapshot i) (\<lambda>v. view_portfolio v = i \<and> view_typed v)"
  unfolding GetSnapshot_def
  by (rule yields_bindE [OF yields_redis_get [where R = "\<lambda>v. case v of None \<Rightarrow> True | Some x \<Rightarrow> value_typed (snapKey i) x"]])
    (auto intro!: yields_intros split: option.splits rval.splits)

lemma yields_Portfolio:
  assumes "md_typed m"
  shows "yields (typed X) (Portfolio m i asOf) (\<lambda>v. view_portfolio v = i \<and> view_typed v)"
  unfolding Portfolio_def SetSnapshot_def
  by (auto intro!: yields_bindE [OF yields_attempt [OF yields_GetSnapshot]] yields_compute_view [OF assms]
      yields_bindE [OF yields_compute_view [OF assms]] yields_first yields_intros split: sum.splits)

section \<open>Worker\<close>

definition worker_typed :: "wenv \<Rightarrow> bool" where
  "worker_typed env \<longleftrightarrow> md_typed (w_md env) \<and> (\<forall>url pl t. http_post env url pl t \<noteq> Inl GoPanic)"

definition prices_typed :: "(string \<times> int) list \<Rightarrow> bool" where
  "prices_typed ps \<longleftrightarrow> list_all (\<lambda>(s, p). in_int64 p) ps"

lemma yields_refresh_loop:
  assumes "md_typed m"
  shows "prices_typed ps \<Longrightarrow> yields (typed X) (refresh_loop m ss ps) prices_typed"
proof (induction ss arbitrary: ps)
  case (Cons s ss)
  then show ?case
    by (auto simp: prices_typed_def quote_typed_def intro!: yields_bindE [OF yields_attempt [OF yields_Refresh [OF assms]]]
        split: sum.splits)
qed (simp add: yields_ret)

lemma alert_payload_typed: "alert_typed a \<Longrightarrow> in_int64 price \<Longrightarrow> payload_typed X JobAlertWebhook (alert_payload a price)"
  by (simp add: payload_typed_def alert_payload_def alert_typed_def)

lemma yields_fire_loop:
  assumes "prices_typed ps"
  shows "list_all alert_typed as \<Longrightarrow> yields (typed X) (fire_loop ps as) anything"
proof (induction as)
  case (Cons a as)
  have "in_int64 p" if "map_of ps (alert_symbol a) = Some p" for p
    using assms map_of_SomeD [OF that] by (auto simp: prices_typed_def list_all_iff)
  with Cons show ?case
    by (auto intro!: yields_first alert_payload_typed split: option.splits sum.splits)
qed (simp add: yields_ret)

lemma yields_handlePollQuotes:
  assumes "md_typed (w_md env)"
  shows "yields (typed X) (handlePollQuotes env) anything"
  unfolding handlePollQuotes_def
  by (intro yields_first yields_bindE [OF yields_refresh_loop [OF assms]] yields_bindE [OF yields_fire_loop] yields_intros)
    (auto simp: prices_typed_def payload_typed_def)

lemma yields_dispatch:
  assumes "worker_typed env"
  shows "yields (typed X) (dispatch env j) anything"
proof -
  have "md_typed (w_md env)" and p: "http_post env url pl t \<noteq> Inl GoPanic" for url pl t
    using assms by (simp_all add: worker_typed_def)
  then have "yields (typed X) (handleExecuteOrder env j) anything" "yields (typed X) (handlePollQuotes env) anything"
    by (auto simp: handleExecuteOrder_def intro!: yields_raise yields_ExecuteOrder yields_handlePollQuotes split: payload.splits)
  moreover have "yields (typed X) (handleSettle j) anything"
    unfolding handleSettle_def by (auto simp: statuses_def intro!: yields_first yields_intros split: payload.splits)
  moreover have "yields (typed X) (handleAlertWebhook env j) anything"
    unfolding handleAlertWebhook_def using p by (auto intro!: yields_first yields_intros split: payload.splits sum.splits)
  ultimately show ?thesis by (simp add: dispatch_def yields_raise)
qed

lemma yields_process:
  assumes "worker_typed env" and "payload_typed X (job_type j) (job_payload j)"
  shows "yields (typed X) (process env j) anything"
  unfolding process_def finish_def
  by (intro yields_bindE [OF yields_attempt [OF yields_dispatch [OF assms(1)]]])
    (use assms(2) in \<open>auto intro!: yields_first yields_intros split: sum.splits\<close>)

lemma yields_worker_turn:
  assumes "worker_typed env"
  shows "yields (typed X) (worker_turn env) anything"
proof (rule yieldsI)
  fix w r w' assume T: "typed X w" and run: "worker_turn env w = (r, w')"
  obtain s w1 where c: "Claim (leaseSecs env) w = (s, w1)" by fastforce
  note ct = Claim_typed [OF T c]
  show "typed X w' \<and> calm anything r"
  proof (cases "\<exists>j. s = Inr (Some j)")
    case True
    then obtain j where s: "s = Inr (Some j)" by blast
    let ?X = "X \<union> payload_ids (job_payload j)"
    have T1: "typed ?X w1" using ct by (auto simp: s typed_def)
    have p: "payload_typed ?X (job_type j) (job_payload j)"
      using ct by (auto simp: s intro: payload_typed_mono)
    have "process env j w1 = (r, w')" using run c by (simp add: s worker_turn_def bindE_def attempt_def)
    from yieldsD [OF yields_process [OF assms p] T1 this] show ?thesis by (auto intro: typed_mono)
  next
    case False
    with run c ct show ?thesis
      by (auto simp: worker_turn_def bindE_def attempt_def ret_def split: sum.splits option.splits)
  qed
qed

lemma yields_seedPoller: "yields (typed X) seedPoller anything"
  unfolding seedPoller_def
  by (auto simp: payload_typed_def intro!: yields_first yields_intros split: sum.splits)

lemma yields_reaper_turn: "yields (typed X) reaper_turn anything"
  unfolding reaper_turn_def by (intro yields_first yields_intros) simp

section \<open>Endpoints\<close>

lemma dec_members_inv:
  "(\<And>k v x y. store k v x = Some y \<Longrightarrow> P x \<Longrightarrow> P y) \<Longrightarrow> dec_members store kvs x = Some y \<Longrightarrow> P x \<Longrightarrow> P y"
  by (induction store kvs x rule: dec_members.induct) (auto split: option.splits)

lemma dec_struct_inv:
  assumes "Option.bind b (dec_struct store zero) = Some y" and "P zero" and "\<And>k v x y. store k v x = Some y \<Longrightarrow> P x \<Longrightarrow> P y"
  shows "P y"
proof -
  obtain v where "dec_struct store zero v = Some y" using assms(1) by (auto simp: bind_eq_Some_conv)
  then show ?thesis using assms(2) dec_members_inv [of store P, OF assms(3)] by (cases v) (auto simp: dec_struct_def)
qed

lemma dec_int_range: "dec_int v old = Some x \<Longrightarrow> in_int64 old \<Longrightarrow> in_int64 x"
  and dec_int_ptr_range: "dec_int_ptr v = Some p \<Longrightarrow> opt_int64 p"
  by (auto simp: dec_int_def dec_int_ptr_def split: json.splits if_splits)

lemma int64_0 [simp]: "in_int64 0" "in_int64 1000"
  by (simp_all add: in_int64_def)

lemma decode_place_typed: "decode_place parse b = Some req \<Longrightarrow> req_typed req"
  unfolding decode_place_def
  by (erule dec_struct_inv)
    (auto simp: req_typed_def zero_place_def store_place_def dest: dec_int_range dec_int_ptr_range split: if_splits)

lemma decode_create_typed: "decode_create b = Some req \<Longrightarrow> in_int64 (cr_seed req)"
  unfolding decode_create_def
  by (erule dec_struct_inv) (auto simp: store_create_def dest: dec_int_range split: if_splits)

lemma decode_alert_typed: "decode_alert b = Some req \<Longrightarrow> in_int64 (ar_threshold req)"
  unfolding decode_alert_def
  by (erule dec_struct_inv) (auto simp: store_alert_def dest: dec_int_range split: if_splits)

lemma decode_config_typed: "decode_config b = Some c \<Longrightarrow> in_int64 (burst c) \<and> in_int64 (window_ms c)"
  unfolding decode_config_def
  by (erule dec_struct_inv) (auto simp: store_config_def dest: dec_int_range split: if_splits)

lemma yields_GetOrder: "yields (typed X) (GetOrder i) order_typed"
proof -
  have "Order_Get i = bindE (Order_Get i) ret"
    by (rule ext) (auto simp: bindE_def ret_def split: prod.splits sum.splits)
  then show ?thesis unfolding GetOrder_def by (metis yields_Order_Get_bind yields_ret)
qed

lemma yields_reads:
  "yields (typed X) (History i) anything" "yields (typed X) QueueService_Stats anything"
  "yields (typed X) (QueueService_ListDead n) anything"
  unfolding History_def Entry_List_def ListByPortfolio_def QueueService_Stats_def Stats_def QueueService_ListDead_def ListDead_def
  by (auto intro!: yields_bindE [OF yields_query, where R = anything] yields_query yields_ret)

lemma yields_GetConfig: "yields (typed X) (GetConfig l k) anything"
  unfolding GetConfig_def
  by (rule yields_bindE [OF yields_redis_get [where R = anything]])
    (auto intro!: yields_intros split: option.splits rval.splits)

lemma yields_SetConfig:
  assumes "in_int64 (burst c)" and "in_int64 (window_ms c)"
  shows "yields (typed X) (SetConfig k c) anything"
  unfolding SetConfig_def Let_def by (intro yields_redis_set) (use assms in auto)

lemma yields_Trending: "md_typed m \<Longrightarrow> yields (typed X) (Trending m n) anything"
  unfolding Trending_def Stocks_def Let_def
  by (intro yields_bindE [OF yields_stocks_loop] yields_ret) simp_all

lemma yields_AlertService_Create: "in_int64 (ar_threshold req) \<Longrightarrow> yields (typed X) (AlertService_Create req) anything"
  unfolding AlertService_Create_def by (auto intro!: yields_intros yields_Alert_Create)

lemma serve_typed:
  assumes "md_typed (api_md env)"
  shows "hkeeps (typed X) (serve env l ep r)"
proof -
  note m = yields_MD_Quote [OF assms] yields_Trending [OF assms] yields_Portfolio [OF assms] yields_stocks_loop [OF assms]
  note d = decode_place_typed decode_create_typed decode_alert_typed decode_config_typed
  have "req_typed (req\<lparr>req_idempotency_key := k\<rparr>)" if "req_typed req" for req k
    using that by (simp add: req_typed_def)
  then show ?thesis
    by (cases ep)
      (auto simp: handler_defs Let_def Stocks_def QueueService_Replay_def dest: d split: option.splits
        intro!: hkeeps_intros yields_keeps m yields_CreatePortfolio yields_PlaceOrder yields_CancelOrder
          yields_AlertService_Create yields_Replay yields_reads yields_GetOrder yields_GetConfig yields_SetConfig)
qed

section \<open>Limiter and router\<close>

lemma Allow_typed:
  assumes "typed X w" and "Allow l key w = (res, l', w')"
  shows "typed X w'"
proof -
  obtain c w1 where g: "GetConfig l key w = (c, w1)" by fastforce
  have 1: "typed X w1" using yieldsD [OF yields_GetConfig assms(1) g] by simp
  have "yields (typed X) (tokenBucket (bucketKey key) r b now) anything" for r b now
    unfolding tokenBucket_def
    by (rule yields_ext) (auto simp: typed_def redis_typed_def pexpire_def Let_def split: option.splits rval.splits prod.splits)
  then have t: "tokenBucket (bucketKey key) r b now w1 = (x, v) \<Longrightarrow> typed X v" for r b now x v
    using 1 yieldsD by blast
  have "yields (typed X) (slidingWindow (bucketKey key) now win lim mem) anything" for now win lim mem
    unfolding slidingWindow_def
    by (rule yields_ext) (auto simp: typed_def redis_typed_def pexpire_def Let_def split: option.splits prod.splits)
  then have s: "slidingWindow (bucketKey key) now win lim mem w1 = (x, v) \<Longrightarrow> typed X v" for now win lim mem x v
    using 1 yieldsD by blast
  show ?thesis
    using assms(2) g 1 by (auto simp: Allow_def Let_def split: sum.splits if_splits prod.splits dest: t s)
qed

lemma RateLimit_typed:
  assumes "hkeeps (typed X) h" and "typed X w" and "RateLimit l h r w = (resp, l', w')"
  shows "typed X w'"
proof -
  obtain a l1 w1 where al: "Allow l (client_key r) w = (a, l1, w1)" by (metis prod_cases3)
  have T1: "typed X w1" by (rule Allow_typed [OF assms(2) al])
  obtain p w2 where h: "h w1 = (p, w2)" by fastforce
  have "typed X w2" by (rule hkeepsD [OF assms(1) T1 h])
  with T1 show ?thesis using assms(3) al h by (auto simp: RateLimit_def split: sum.splits if_splits)
qed

lemma router_typed:
  assumes "md_typed (api_md env)" and "typed X w" and "NewRouter env l r w = (resp, l', w')"
  shows "typed X w'"
proof -
  have h: "hkeeps (typed X) (\<lambda>w. case ep of None \<Rightarrow> (unmatched env, w) | Some e \<Rightarrow> serve env l e r' w)" for ep r'
    using serve_typed [OF assms(1)] by (auto simp: hkeeps_def split: option.splits)
  show ?thesis
    using assms(2,3)
    by (auto simp: NewRouter_def corsAllowAll_def Let_def split: if_splits prod.splits target.splits
        dest: RateLimit_typed [OF h])
qed

end
