(* ===== verification/Order_Tracking.thy ===== *)
theory Order_Tracking
  imports Http_Properties
begin

text \<open>
  No accepted order is forgotten: as long as an order is pending, the job that executes it is in the
  queue and not done, or it is among the dead letters, from where it can be replayed. The outbox
  transaction of \<open>PlaceOrder\<close> establishes this, and it is what the retries, the leases, the reaper and the
  dead letters are there to keep.
\<close>

section \<open>Pending orders and their jobs\<close>

definition exec_for :: "uuid \<Rightarrow> job \<Rightarrow> bool" where
  "exec_for i j \<longleftrightarrow> job_type j = JobExecuteOrder \<and> job_payload j = OrderPayload i"

definition tracked :: "uuid \<Rightarrow> db \<Rightarrow> bool" where
  "tracked i d \<longleftrightarrow> (\<exists>j \<in> set (jobs d). exec_for i j \<and> job_status j \<noteq> ''done'') \<or>
     (\<exists>l \<in> set (dead_letters d). dl_type l = JobExecuteOrder \<and> dl_payload l = OrderPayload i)"

definition pending_ids :: "db \<Rightarrow> uuid set" where
  "pending_ids d = order_id ` {ord \<in> set (orders d). order_status ord = ''pending''}"

definition waiting :: "db \<Rightarrow> bool" where
  "waiting d \<longleftrightarrow> (\<forall>i \<in> pending_ids d. tracked i d)"

lemma exec_for_lease [simp]: "exec_for i (lease now n j) = exec_for i j"
  by (simp add: exec_for_def)

lemma tracked_mono:
  "tracked i d \<Longrightarrow> set (jobs d) \<subseteq> set (jobs d') \<Longrightarrow> set (dead_letters d) \<subseteq> set (dead_letters d') \<Longrightarrow> tracked i d'"
  by (auto simp: tracked_def)

lemma waiting_mono:
  assumes "waiting d" and "pending_ids d' \<subseteq> pending_ids d" and "set (jobs d) \<subseteq> set (jobs d')"
    and "set (dead_letters d) \<subseteq> set (dead_letters d')"
  shows "waiting d'"
  using assms by (auto simp: waiting_def intro: tracked_mono)

lemma pending_ids_frame [simp]:
  "pending_ids (d\<lparr>jobs := js\<rparr>) = pending_ids d" "pending_ids (d\<lparr>dead_letters := ls\<rparr>) = pending_ids d"
  "pending_ids (d\<lparr>alerts := as\<rparr>) = pending_ids d" "pending_ids (d\<lparr>entries_serial := n\<rparr>) = pending_ids d"
  by (simp_all add: pending_ids_def)

text \<open>Updating rows of the queue without finishing them.\<close>

lemma waiting_map_jobs:
  assumes "waiting d" and "\<And>j. j \<in> set (jobs d) \<Longrightarrow> job_status j \<noteq> ''done'' \<Longrightarrow>
      job_type (f j) = job_type j \<and> job_payload (f j) = job_payload j \<and> job_status (f j) \<noteq> ''done''"
  shows "waiting (d\<lparr>jobs := map f (jobs d)\<rparr>)"
  unfolding waiting_def
proof
  fix i assume "i \<in> pending_ids (d\<lparr>jobs := map f (jobs d)\<rparr>)"
  then have "tracked i d" using assms(1) by (simp add: waiting_def)
  then show "tracked i (d\<lparr>jobs := map f (jobs d)\<rparr>)"
    using assms(2) by (fastforce simp: tracked_def exec_for_def)
qed

lemma pending_ids_row_upd:
  assumes "\<And>r. order_status (f r) \<noteq> ''pending''"
  shows "pending_ids (d\<lparr>orders := row_upd order_id i f (orders d)\<rparr>) = pending_ids d - {i}"
  using assms by (force simp: pending_ids_def row_upd_def)

section \<open>Handlers\<close>

text \<open>A handler takes orders out of the pending ones and adds jobs, and nothing else.\<close>

definition jobs_from :: "db \<Rightarrow> db \<Rightarrow> bool" where
  "jobs_from d0 d \<longleftrightarrow> set (jobs d0) \<subseteq> set (jobs d) \<and> set (dead_letters d0) \<subseteq> set (dead_letters d)"

interpretation growing: queue_pred "jobs_from d0" for d0
  by unfold_locales (auto simp: jobs_from_def)

definition pending_in :: "uuid set \<Rightarrow> db \<Rightarrow> bool" where
  "pending_in S d \<longleftrightarrow> pending_ids d \<subseteq> S"

lemma pending_in_frame: "pending_in S d \<Longrightarrow> orders d' = orders d \<Longrightarrow> pending_in S d'"
  by (simp add: pending_in_def pending_ids_def)

lemma keeps_pending_SetStatus [keeps_intros]:
  "st \<noteq> ''pending'' \<Longrightarrow> keeps (on_tables (pending_in S)) (SetStatus i st why)"
  by (rule keeps_SetStatus) (auto simp: pending_in_def pending_ids_row_upd)

lemma keeps_pending_Enqueue [keeps_intros]: "keeps (on_tables (pending_in S)) (Enqueue typ pl prio runAt maxAtt)"
  unfolding Enqueue_def
  by (intro keeps_intros) (auto simp: q_insert_job_def elim!: pending_in_frame split: if_splits)

lemma keeps_pending_alerts [keeps_intros]:
  "keeps (on_tables (pending_in S)) DistinctSymbols" "keeps (on_tables (pending_in S)) Alert_Symbols"
  "keeps (on_tables (pending_in S)) ListActive" "keeps (on_tables (pending_in S)) (MarkTriggered a)"
  unfolding DistinctSymbols_def Alert_Symbols_def ListActive_def MarkTriggered_def
  by (auto intro!: keeps_sql simp: q_mark_triggered_def elim!: pending_in_frame)

lemma trade_db_pending: "pending_in S d \<Longrightarrow> pending_in S (trade_db now tid jid ord price cost sq d)"
  by (force simp: pending_in_def pending_ids_def trade_db_def Let_def row_upd_def)

lemma set_status_pending: "pending_in S d \<Longrightarrow> st \<noteq> ''pending'' \<Longrightarrow> pending_in S (set_status_db i st why d)"
  by (force simp: pending_in_def pending_ids_def set_status_db_def row_upd_def)

lemma keeps_pending_fill [keeps_intros]: "keeps (on_tables (pending_in S)) (runTx (fill_tx ord price))"
proof (rule keeps_runTx)
  fix w x w' assume P: "pending_in S (wdb w)" and "fill_tx ord price w = (Inr x, w')"
  from this(2) show "pending_in S (wdb w')"
    by (cases rule: fill_tx_cases) (simp_all add: trade_db_pending set_status_pending P)
qed (auto elim: pending_in_frame)

lemma keeps_pending_fire: "keeps (on_tables (pending_in S)) (fire_loop prices as)"
  by (induction as) (auto intro!: keeps_intros split: option.splits sum.splits)

lemma keeps_pending_dispatch: "keeps (on_tables (pending_in S)) (dispatch env j)"
  unfolding dispatch_def handleExecuteOrder_def handleSettle_def handlePollQuotes_def handleAlertWebhook_def
    ExecuteOrder_def execute_priced_def reject_def
  by (auto intro!: keeps_intros keeps_pending_fire split: payload.splits sum.splits option.splits)

lemma dispatch_waiting:
  assumes "waiting (wdb w)" and "dispatch env j w = (r, w')"
  shows "waiting (wdb w')"
proof (rule waiting_mono [OF assms(1)])
  show "pending_ids (wdb w') \<subseteq> pending_ids (wdb w)"
    using keepsD [OF keeps_pending_dispatch _ assms(2), of "pending_ids (wdb w)"]
    by (simp add: on_tables_def pending_in_def)
  show "set (jobs (wdb w)) \<subseteq> set (jobs (wdb w'))" "set (dead_letters (wdb w)) \<subseteq> set (dead_letters (wdb w'))"
    using keepsD [OF growing.keeps_dispatch_q _ assms(2), of "wdb w"]
    by (simp_all add: on_tables_def jobs_from_def)
qed

text \<open>An execution that returned normally has resolved its order.\<close>

lemma ExecuteOrder_resolves:
  assumes "ledger_inv (wdb w)" and "ExecuteOrder m i w = (Inr x, w')"
  shows "i \<notin> pending_ids (wdb w')"
proof -
  obtain ord where row: "row_get order_id i (orders (wdb w)) = Some ord"
    and res: "order_status ord \<noteq> ''pending'' \<and> wdb w' = wdb w \<or>
         order_status ord = ''pending'' \<and> exec_result ord (clock w) (wdb w) (wdb w')"
    using ExecuteOrder_Inr_cases [OF assms(2,1)] by metis
  have "\<exists>ord'. row_get order_id i (orders (wdb w')) = Some ord' \<and> order_status ord' \<noteq> ''pending''"
    using res row exec_result_not_pending [of ord "clock w" "wdb w" "wdb w'"] row_get_SomeD [OF row] by auto
  moreover have "ledger_inv (wdb w')"
    using keepsD [OF keeps_ExecuteOrder _ assms(2)] assms(1) by (simp add: on_tables_def)
  ultimately show ?thesis
    by (auto simp: pending_ids_def ledger_inv_def orders_ok_def dest: row_get_unique)
qed

section \<open>Bookkeeping\<close>

lemma Complete_waiting:
  assumes "waiting (wdb w)" and "tracks j (wdb w)" and "\<And>i. exec_for i j \<Longrightarrow> i \<notin> pending_ids (wdb w)"
    and "Complete (job_id j) w = (r, w')"
  shows "waiting (wdb w')"
proof -
  let ?f = "\<lambda>k. k\<lparr>job_status := ''done'', leased_until := None\<rparr>"
  let ?d = "(wdb w)\<lparr>jobs := row_upd job_id (job_id j) ?f (jobs (wdb w))\<rparr>"
  have "waiting ?d"
    unfolding waiting_def
  proof
    fix i assume "i \<in> pending_ids ?d"
    then have i: "i \<in> pending_ids (wdb w)" by simp
    then have "tracked i (wdb w)" using assms(1) by (simp add: waiting_def)
    then show "tracked i ?d" unfolding tracked_def
    proof (elim disjE bexE conjE)
      fix k assume k: "k \<in> set (jobs (wdb w))" "exec_for i k" "job_status k \<noteq> ''done''"
      have "job_id k \<noteq> job_id j"
      proof
        assume "job_id k = job_id j"
        then have "exec_for i j" using assms(2) k by (auto simp: tracks_def job_key_def exec_for_def)
        with assms(3) i show False by blast
      qed
      then have "k \<in> set (jobs ?d)" using k(1) by (force simp: row_upd_def)
      with k show "(\<exists>j \<in> set (jobs ?d). exec_for i j \<and> job_status j \<noteq> ''done'') \<or>
        (\<exists>l \<in> set (dead_letters ?d). dl_type l = JobExecuteOrder \<and> dl_payload l = OrderPayload i)" by blast
    qed auto
  qed
  with assms(1,4) show ?thesis
    by (auto simp: Complete_def q_complete_def sql_def ext_def split: list.splits if_splits)
qed

lemma Retry_waiting:
  assumes "waiting (wdb w)" and "Retry i t msg w = (r, w')"
  shows "waiting (wdb w')"
proof -
  let ?f = "\<lambda>j. j\<lparr>job_status := ''queued'', run_at := t, leased_until := None, last_error := Some msg\<rparr>"
  have "waiting ((wdb w)\<lparr>jobs := row_upd job_id i ?f (jobs (wdb w))\<rparr>)"
    unfolding row_upd_def by (rule waiting_map_jobs [OF assms(1)]) simp
  with assms show ?thesis
    by (auto simp: Retry_def q_retry_def sql_def ext_def split: list.splits if_splits)
qed

lemma MoveToDead_waiting:
  assumes "waiting (wdb w)" and "tracks j (wdb w)" and "MoveToDead j msg w = (r, w')"
  shows "waiting (wdb w')"
proof -
  let ?d1 = "(wdb w)\<lparr>dead_letters := dead_letters (wdb w) @ [bury (clock w) msg j]\<rparr>"
  let ?d2 = "?d1\<lparr>jobs := row_del job_id (job_id j) (jobs ?d1)\<rparr>"
  have d1: "waiting ?d1" by (rule waiting_mono [OF assms(1)]) auto
  have "waiting ?d2"
    unfolding waiting_def
  proof
    fix i assume "i \<in> pending_ids ?d2"
    then have "tracked i (wdb w)" using assms(1) by (simp add: waiting_def)
    moreover have "exec_for i j" if "k \<in> set (jobs (wdb w))" "exec_for i k" "job_id k = job_id j" for k
      using assms(2) that by (auto simp: tracks_def job_key_def exec_for_def)
    ultimately show "tracked i ?d2"
      by (auto simp: tracked_def row_del_def bury_def exec_for_def)
  qed
  with d1 assms show ?thesis
    by (auto simp: MoveToDead_def bindE_def sql_def ext_def q_insert_dead_def q_delete_job_def
        split: list.splits if_splits sum.splits prod.splits)
qed

lemma finish_waiting:
  assumes "waiting (wdb w)" and "tracks j (wdb w)"
    and "\<And>x i. r = Inr x \<Longrightarrow> exec_for i j \<Longrightarrow> i \<notin> pending_ids (wdb w)" and "finish env j r w = (q, w')"
  shows "waiting (wdb w')"
proof (cases r)
  case (Inr x)
  obtain u w1 where c: "Complete (job_id j) w = (u, w1)" by fastforce
  have "waiting (wdb w1)" by (rule Complete_waiting [OF assms(1,2) _ c]) (rule assms(3) [OF Inr])
  with c Inr assms(4) show ?thesis by (auto simp: finish_def bindE_def attempt_def run_simps)
next
  case (Inl e)
  with assms show ?thesis
    by (auto simp: finish_def bindE_def attempt_def run_simps split: if_splits prod.splits
        dest: MoveToDead_waiting [OF assms(1,2)] Retry_waiting [OF assms(1)])
qed

lemma Claim_waiting:
  assumes "waiting (wdb w)" and "Claim n w = (r, w')"
  shows "waiting (wdb w')"
proof (cases r)
  case (Inl e)
  with assms show ?thesis by (auto simp: Claim_def dest!: sql_Inl_wdb)
next
  case (Inr jo)
  have "waiting ((wdb w)\<lparr>jobs := row_upd job_id i (lease now n) (jobs (wdb w))\<rparr>)" for i now
    unfolding row_upd_def by (rule waiting_map_jobs [OF assms(1)]) simp
  moreover from assms(2) [unfolded Inr Claim_def] obtain d
    where "q_claim n (clock w) (wdb w) = Inr (jo, d)" and d: "wdb w' = d" by (rule sql_InrE)
  ultimately show ?thesis unfolding d using assms(1) by (auto simp: q_claim_def split: option.splits if_splits)
qed

lemma worker_turn_waiting:
  assumes "ledger_inv (wdb w)" and "queue_ok K (wdb w)" and "waiting (wdb w)"
  shows "waiting (wdb (snd (worker_turn env w)))"
proof -
  obtain s w1 where c: "Claim (leaseSecs env) w = (s, w1)" by fastforce
  have W1: "waiting (wdb w1)" by (rule Claim_waiting [OF assms(3) c])
  show ?thesis
  proof (cases "\<exists>j. s = Inr (Some j)")
    case True
    then obtain j where s: "s = Inr (Some j)" by blast
    have "claimed_ok K j (wdb w1)" using claim_claimed_ok [OF assms(2)] c s by blast
    moreover obtain r w2 where d: "dispatch env j w1 = (r, w2)" by fastforce
    ultimately have t: "tracks j (wdb w2)"
      using keepsD [OF claimed.keeps_dispatch_q, of K j w1 env j r w2] by (simp add: on_tables_def claimed_ok_def)
    have L1: "ledger_inv (wdb w1)"
      using keepsD [OF keeps_ledger_queue(1) _ c] assms(1) by (simp add: on_tables_def)
    have "i \<notin> pending_ids (wdb w2)" if "r = Inr x" "exec_for i j" for x i
      using d that ExecuteOrder_resolves [OF L1, of "w_md env" i x w2]
      by (simp add: dispatch_def exec_for_def handleExecuteOrder_def)
    moreover obtain q w3 where f: "finish env j r w2 = (q, w3)" by fastforce
    ultimately have "waiting (wdb w3)"
      using finish_waiting [OF dispatch_waiting [OF W1 d] t _ f] by blast
    with c s d f show ?thesis by (simp add: worker_turn_def process_def bindE_def attempt_def)
  next
    case False
    with c W1 show ?thesis
      by (cases s) (auto simp: worker_turn_def bindE_def attempt_def run_simps split: option.splits)
  qed
qed

section \<open>Reaper, poller and API\<close>

lemma keeps_waiting_ReapExpired: "keeps (on_tables waiting) ReapExpired"
  unfolding ReapExpired_def
proof (intro keeps_intros)
  fix now d x d' assume W: "waiting d" and "q_reap_dead now d = Inr (x, d')"
  let ?gone = "\<lambda>j. expired now j \<and> exhausted j"
  let ?bury = "bury now ''lease expired (max attempts reached)''"
  have d': "d' = d\<lparr>jobs := filter (\<lambda>j. \<not> ?gone j) (jobs d), dead_letters := dead_letters d @ map ?bury (filter ?gone (jobs d))\<rparr>"
    using \<open>q_reap_dead now d = Inr (x, d')\<close> by (auto simp: q_reap_dead_def Let_def split: if_splits)
  have "tracked i d'" if "j \<in> set (jobs d)" "exec_for i j" "job_status j \<noteq> ''done''" for i j
  proof (cases "?gone j")
    case True
    with that(1) have "?bury j \<in> set (dead_letters d')" by (auto simp: d')
    with that(2) show ?thesis unfolding tracked_def by (auto simp: exec_for_def bury_def intro!: bexI [of _ "?bury j"])
  qed (use that in \<open>auto simp: d' tracked_def\<close>)
  then have "tracked i d \<Longrightarrow> tracked i d'" for i by (auto simp: tracked_def [of i d]) (auto simp: tracked_def d')
  with W show "waiting d'" by (simp add: waiting_def) (simp add: d')
next
  fix now d x d' assume "waiting d" and "q_reap_requeue now d = Inr (x, d')"
  then show "waiting d'"
    using waiting_map_jobs [of d "\<lambda>j. if expired now j then requeue j else j"]
    by (auto simp: q_reap_requeue_def requeue_def)
qed

lemma keeps_waiting_reaper_turn: "keeps (on_tables waiting) reaper_turn"
  unfolding reaper_turn_def by (intro keeps_intros keeps_waiting_ReapExpired)

lemma keeps_waiting_Enqueue: "keeps (on_tables waiting) (Enqueue typ pl prio runAt maxAtt)"
  unfolding Enqueue_def
  by (intro keeps_intros) (auto simp: q_insert_job_def elim!: waiting_mono split: if_splits)

lemma keeps_waiting_seedPoller: "keeps (on_tables waiting) seedPoller"
  unfolding seedPoller_def
  by (auto intro!: keeps_intros keeps_waiting_Enqueue simp: HasActive_def split: sum.splits)

text \<open>The queue invariant together with the tracking of orders.\<close>

definition tracking :: "(uuid \<times> string \<times> payload) set \<Rightarrow> db \<Rightarrow> bool" where
  "tracking K d \<longleftrightarrow> queue_ok K d \<and> waiting d"

lemma keeps_tracking:
  "keeps (on_tables (queue_ok K)) m \<Longrightarrow> keeps (on_tables waiting) m \<Longrightarrow> keeps (on_tables (tracking K)) m"
  by (simp add: keeps_def on_tables_def tracking_def)

lemma replay_waiting:
  assumes "queue_ok K d" and "waiting d" and "q_replay i now d = Inr (x, d')"
  shows "waiting d'"
proof -
  consider "d' = d" | l where "row_get dl_id i (dead_letters d) = Some l"
      "d' = d\<lparr>dead_letters := row_del dl_id i (dead_letters d), jobs := jobs d @ [revive now l]\<rparr>"
    using assms(3) by (auto simp: q_replay_def split: option.splits if_splits)
  then show ?thesis
  proof cases
    case 2
    have l: "l' = l" if "l' \<in> set (dead_letters d)" "dl_id l' = i" for l'
      using that 2(1) assms(1) row_get_unique [of dl_id "dead_letters d" l'] by (auto simp: queue_ok_def)
    have "tracked k d \<Longrightarrow> tracked k d'" for k
      by (auto simp: tracked_def 2(2) row_del_def exec_for_def revive_def dest: l)
    with assms(2) show ?thesis by (simp add: waiting_def 2(2) pending_ids_def)
  qed (use assms in simp)
qed

lemma keeps_tracking_Replay: "keeps (on_tables (tracking K)) (Replay i)"
  unfolding Replay_def
  by (intro keeps_intros) (auto simp: tracking_def intro: queue_ok_replay replay_waiting)

lemma keeps_waiting_PlaceOrder: "keeps (on_tables waiting) (PlaceOrder req)"
proof -
  have "keeps (on_tables waiting) (runTx (outbox_tx ord))" if "order_status ord = ''pending''" for ord
  proof (rule keeps_runTx)
    fix w x w' assume W: "waiting (wdb w)" and "outbox_tx ord w = (Inr x, w')"
    then obtain jid where d: "wdb w' = outbox_db (clock w) jid ord (wdb w)" by (auto elim: outbox_tx_InrE)
    show "waiting (wdb w')"
      unfolding waiting_def
    proof
      fix i assume "i \<in> pending_ids (wdb w')"
      then consider "i \<in> pending_ids (wdb w)" | "i = order_id ord"
        by (auto simp: d pending_ids_def outbox_db_def)
      then show "tracked i (wdb w')"
      proof cases
        case 1
        with W have "tracked i (wdb w)" by (simp add: waiting_def)
        then show ?thesis by (rule tracked_mono) (auto simp: d outbox_db_def)
      qed (auto simp: d outbox_db_def tracked_def exec_for_def execute_job_def)
    qed
  qed (auto simp: waiting_def tracked_def)
  then show ?thesis
    unfolding PlaceOrder_def place_new_def Let_def
    by (auto intro!: keeps_intros split: option.splits)
qed

lemma keeps_waiting_CancelOrder: "keeps (on_tables waiting) (CancelOrder i)"
  unfolding CancelOrder_def
  by (intro keeps_intros keeps_SetStatus) (auto simp: pending_ids_row_upd elim!: waiting_mono)

lemma keeps_waiting_CreatePortfolio: "keeps (on_tables waiting) (CreatePortfolio name seed)"
  unfolding CreatePortfolio_def
  by (rule keeps_If, rule keeps_raise, rule keeps_runTx)
    (auto elim!: create_body_InrE waiting_mono simp: open_db_def Let_def pending_ids_def split: if_splits)

interpretation api_tracking: api_invariant "tracking K" for K
proof
  show "keeps (on_tables (tracking K)) (Alert_Create symb dir thr url)" for symb dir thr url
    by (rule keeps_tracking [OF api_queue.alert_keeps], unfold Alert_Create_def, intro keeps_intros)
      (auto simp: q_insert_alert_def elim!: waiting_mono split: if_splits)
qed (rule keeps_tracking [OF api_queue.create_keeps keeps_waiting_CreatePortfolio]
    keeps_tracking [OF api_queue.place_keeps keeps_waiting_PlaceOrder]
    keeps_tracking [OF api_queue.cancel_keeps keeps_waiting_CancelOrder] keeps_tracking_Replay)+

end
