(* ===== verification/Worker_Loop.thy ===== *)
theory Worker_Loop
  imports Typed_Services Order_Tracking
begin

text \<open>
  \<open>Worker.loop\<close>: a worker goroutine claims and processes jobs until it finds nothing to do.
  \<open>worker_loop\<close> runs it up to that point, its first idle sleep; it has no value if the loop goes on for ever or
  a panic ends the process. Handlers enqueue further jobs and failing jobs are queued again, so it
  is not obvious that the loop ever rests. It does: a measure made of the calls that are still going to fail, of the jobs
  that are due and of the alerts that can still fire goes down with every turn.
\<close>

partial_function (option) worker_loop :: "wenv \<Rightarrow> world \<Rightarrow> world option" where
  "worker_loop env w =
     (case Claim (leaseSecs env) w of
        (Inl _, w1) \<Rightarrow> worker_loop env w1
      | (Inr None, w1) \<Rightarrow> Some w1
      | (Inr (Some j), w1) \<Rightarrow>
          (case process env j w1 of (Inl _, w2) \<Rightarrow> None | (Inr _, w2) \<Rightarrow> worker_loop env w2))"

section \<open>Time and failures\<close>

text \<open>Within a turn the time stands still, and the calls that are going to fail only get fewer.\<close>

definition steady :: "time \<Rightarrow> nat \<Rightarrow> world \<Rightarrow> bool" where
  "steady c n w \<longleftrightarrow> clock w = c \<and> length (faults w) \<le> n"

lemma keeps_steady [keeps_intros]:
  "keeps (steady c n) (sql q)" "keeps (steady c n) uuid_New" "keeps (steady c n) (redis_get k)"
  "keeps (steady c n) (redis_set k v ttl)" "keeps (steady c n) (redis_del k)"
  by (auto simp: keeps_def steady_def sql_def ext_def uuid_New_def redis_get_def redis_set_def redis_del_def
      split: list.splits sum.splits)

lemma keeps_steady_runTx [keeps_intros]:
  assumes "keeps (steady c n) fn"
  shows "keeps (steady c n) (runTx fn)"
  unfolding keeps_def
proof (intro allI impI)
  fix w assume S: "steady c n w"
  have ext: "steady c n v' \<and> (\<exists>bs. v' = v\<lparr>faults := bs\<rparr>)" if "ext (ret x) v = (r, v')" "steady c n v" for x r v v'
    using that by (auto simp: ext_def ret_def steady_def split: list.splits if_splits)
  obtain b w1 where w1: "ext (ret ()) w = (b, w1)" by fastforce
  obtain s w2 where w2: "fn w1 = (s, w2)" by fastforce
  have S1: "steady c n w1" using ext [OF w1 S] by simp
  have S2: "steady c n w2" using keepsD [OF assms S1 w2] .
  show "steady c n (snd (runTx fn w))"
  proof (cases s)
    case (Inl e)
    with w1 w2 S1 S2 show ?thesis by (cases b) (auto simp: runTx_def rollback_def steady_def)
  next
    case (Inr x)
    obtain t w3 where w3: "ext (ret x) w2 = (t, w3)" by fastforce
    have "steady c n w3" using ext [OF w3 S2] by simp
    with w1 w2 w3 S1 Inr show ?thesis by (cases b; cases t) (auto simp: runTx_def rollback_def steady_def)
  qed
qed

lemma keeps_steady_fill [keeps_intros]: "keeps (steady c n) (fill_tx ord price)"
  unfolding fill_tx_def book_trade_def Let_def LockForUpdate_def Holdings_def SetStatus_def Entry_Insert_def
    BumpSeq_def SetFilled_def Enqueue_def InvalidateSnapshot_def
  by (intro keeps_intros)

lemma keeps_steady_MD_Quote [keeps_intros]: "keeps (steady c n) (MD_Quote m s)"
  unfolding MD_Quote_def GetQuote_def SetQuote_def Let_def
  by (auto intro!: keeps_intros split: sum.splits option.splits rval.splits)

lemma keeps_steady_refresh [keeps_intros]: "keeps (steady c n) (refresh_loop m ss ps)"
  by (induction ss arbitrary: ps)
    (auto intro!: keeps_intros simp: Refresh_def SetQuote_def Let_def split: sum.splits)

lemma keeps_steady_fire [keeps_intros]: "keeps (steady c n) (fire_loop ps as)"
  by (induction as)
    (auto intro!: keeps_intros simp: Enqueue_def MarkTriggered_def split: option.splits sum.splits)

lemma keeps_steady_dispatch: "keeps (steady c n) (dispatch env j)"
  unfolding dispatch_def handleExecuteOrder_def ExecuteOrder_def execute_priced_def reject_def handleSettle_def
    handlePollQuotes_def handleAlertWebhook_def Order_Get_def SetStatus_def DistinctSymbols_def Alert_Symbols_def
    ListActive_def Enqueue_def
  by (auto intro!: keeps_intros split: payload.splits sum.splits option.splits)

lemma keeps_steady_finish: "keeps (steady c n) (finish env j r)"
  unfolding finish_def Complete_def MoveToDead_def Retry_def
  by (auto intro!: keeps_intros split: sum.splits)

lemma keeps_steady_process: "keeps (steady c n) (process env j)"
  unfolding process_def by (intro keeps_intros keeps_steady_dispatch keeps_steady_finish)

section \<open>The work that is due\<close>

definition load :: "time \<Rightarrow> db \<Rightarrow> nat" where
  "load now d = length (filter (runnable now) (jobs d)) + length (filter (\<lambda>a. \<not> triggered a) (alerts d))"

definition light :: "time \<Rightarrow> nat \<Rightarrow> db \<Rightarrow> bool" where
  "light c n d \<longleftrightarrow> load c d \<le> n"

lemma light_frame: "light c n d \<Longrightarrow> jobs d' = jobs d \<Longrightarrow> alerts d' = alerts d \<Longrightarrow> light c n d'"
  by (simp add: light_def load_def)

text \<open>A job that is due later adds nothing.\<close>

lemma light_later: "light c n d \<Longrightarrow> \<not> runnable c k \<Longrightarrow> jobs d' = jobs d @ [k] \<Longrightarrow> alerts d' = alerts d \<Longrightarrow> light c n d'"
  by (simp add: light_def load_def)

lemma length_filter_row_upd:
  "(\<And>r. \<not> P (f r)) \<Longrightarrow> length (filter P (row_upd key k f rs)) \<le> length (filter P rs)"
  by (induction rs) (auto simp: row_upd_def)

lemma length_filter_row_del: "length (filter P (row_del key k rs)) \<le> length (filter P rs)"
  by (induction rs) (auto simp: row_del_def)

lemma light_row_upd:
  assumes "light c n d" and "\<And>j. \<not> runnable c (f j)"
  shows "light c n (d\<lparr>jobs := row_upd job_id i f (jobs d)\<rparr>)"
  using assms length_filter_row_upd [of "runnable c" f job_id i "jobs d"] by (simp add: light_def load_def)

lemma length_filter_row_upd_less:
  "(\<And>r. \<not> P (f r)) \<Longrightarrow> r \<in> set rs \<Longrightarrow> P r \<Longrightarrow> key r = k \<Longrightarrow>
   length (filter P (row_upd key k f rs)) < length (filter P rs)"
proof (induction rs)
  case (Cons x rs)
  then show ?case using length_filter_row_upd [of P f key k rs] by (auto simp: row_upd_def)
qed simp

lemma Claim_load:
  assumes "Claim n w = (Inr (Some j), w')"
  shows "load (clock w) (wdb w') < load (clock w) (wdb w)"
proof -
  from assms [unfolded Claim_def] obtain d where q: "q_claim n (clock w) (wdb w) = Inr (Some j, d)"
    and d: "wdb w' = d" by (rule sql_InrE)
  then obtain k where k: "next_job (clock w) (jobs (wdb w)) = Some k"
    and d: "wdb w' = (wdb w)\<lparr>jobs := row_upd job_id (job_id k) (lease (clock w) n) (jobs (wdb w))\<rparr>"
    by (auto simp: q_claim_def split: option.splits if_splits)
  have "length (filter (runnable (clock w)) (row_upd job_id (job_id k) (lease (clock w) n) (jobs (wdb w)))) <
    length (filter (runnable (clock w)) (jobs (wdb w)))"
    using next_job_Some(1,2) [OF k] by (intro length_filter_row_upd_less [of _ _ k]) (auto simp: runnable_def)
  then show ?thesis by (simp add: load_def d)
qed

text \<open>Handlers do not add to the load: what they enqueue is due later, or an alert pays for it.\<close>

definition resting :: "time \<Rightarrow> nat \<Rightarrow> world \<Rightarrow> bool" where
  "resting c n w \<longleftrightarrow> steady c 0 w \<and> light c n (wdb w)"

lemma keeps_resting: "keeps (steady c 0) m \<Longrightarrow> keeps (on_tables (light c n)) m \<Longrightarrow> keeps (resting c n) m"
  by (simp add: keeps_def resting_def on_tables_def)

lemma keeps_light_reads [keeps_intros]:
  "keeps (on_tables (light c n)) (SetStatus i st why)" "keeps (on_tables (light c n)) (Complete j)"
  "keeps (on_tables (light c n)) (sql (q_insert_dead k msg))" "keeps (on_tables (light c n)) (sql (q_delete_job j))"
proof -
  show "keeps (on_tables (light c n)) (SetStatus i st why)"
    by (rule keeps_SetStatus) (auto elim: light_frame)
  show "keeps (on_tables (light c n)) (Complete j)"
    unfolding Complete_def
    by (rule keeps_sql) (auto simp: q_complete_def runnable_def intro!: light_row_upd)
  show "keeps (on_tables (light c n)) (sql (q_insert_dead k msg))"
    by (rule keeps_sql) (auto simp: q_insert_dead_def elim!: light_frame split: if_splits)
  show "keeps (on_tables (light c n)) (sql (q_delete_job j))"
  proof (rule keeps_sql)
    fix now d x d' assume "light c n d" and "q_delete_job j now d = Inr (x, d')"
    moreover have "length (filter (runnable c) (row_del job_id j (jobs d))) \<le> length (filter (runnable c) (jobs d))"
      by (rule length_filter_row_del)
    ultimately show "light c n d'" by (auto simp: q_delete_job_def light_def load_def)
  qed
qed

lemma keeps_resting_Enqueue [keeps_intros]:
  "c < runAt \<Longrightarrow> keeps (resting c n) (Enqueue typ pl prio runAt maxAtt)"
  unfolding Enqueue_def
  by (rule keeps_resting, intro keeps_intros, intro keeps_intros)
    (auto simp: q_insert_job_def runnable_def elim!: light_later split: if_splits)

lemma keeps_resting_Retry [keeps_intros]:
  assumes "c < t"
  shows "keeps (resting c n) (Retry i t msg)"
  unfolding Retry_def
proof (rule keeps_resting, intro keeps_intros, rule keeps_sql)
  fix now d x d' assume "light c n d" and "q_retry i t msg now d = Inr (x, d')"
  with assms show "light c n d'"
    by (auto simp: q_retry_def runnable_def intro!: light_row_upd)
qed

lemma keeps_resting_fill [keeps_intros]: "keeps (resting c n) (runTx (fill_tx ord price))"
  unfolding keeps_def
proof (intro allI impI)
  fix w assume R: "resting c n w"
  obtain r w' where run: "runTx (fill_tx ord price) w = (r, w')" by fastforce
  have "keeps (steady c 0) (runTx (fill_tx ord price))" by (intro keeps_intros)
  then have S: "steady c 0 w'" using R run by (auto simp: resting_def dest: keepsD)
  have L: "light c n (wdb w)" and c: "clock w = c" using R by (simp_all add: resting_def steady_def)
  have "light c n (wdb w')"
  proof (cases r)
    case (Inl e)
    with run L show ?thesis by (auto dest!: runTx_Inl_tables intro: light_frame)
  next
    case (Inr x)
    with run obtain bs w2 cs where f: "fill_tx ord price (w\<lparr>faults := bs\<rparr>) = (Inr x, w2)" and "w' = w2\<lparr>faults := cs\<rparr>"
      by (auto elim: runTx_InrE)
    moreover from f have "light c n (wdb w2)"
    proof (cases rule: fill_tx_cases)
      case (Rejected why)
      with L show ?thesis by (auto simp: set_status_db_def intro: light_frame)
    next
      case (Booked tid jid sq)
      with L c show ?thesis
        by (intro light_later [OF L, of "settle_job jid (order_id ord) c"])
          (simp_all add: trade_db_def Let_def settle_job_def runnable_def)
    qed
    ultimately show ?thesis by simp
  qed
  with S run show "resting c n (snd (runTx (fill_tx ord price) w))" by (simp add: resting_def)
qed

lemma keeps_resting_reads [keeps_intros]:
  "(\<And>P. keeps (on_tables P) m) \<Longrightarrow> keeps (steady c 0) m \<Longrightarrow> keeps (resting c n) m"
  by (rule keeps_resting)

lemma keeps_resting_SetStatus: "keeps (resting c n) (SetStatus i st why)"
  by (rule keeps_resting, unfold SetStatus_def, intro keeps_intros, fold SetStatus_def, intro keeps_intros)

lemma keeps_resting_ExecuteOrder: "keeps (resting c n) (ExecuteOrder m i)"
proof -
  have "keeps (resting c n) (Order_Get i)"
    by (rule keeps_resting, unfold Order_Get_def, intro keeps_intros, fold Order_Get_def, intro keeps_intros)
  moreover have "keeps (resting c n) (MD_Quote m s)" for s by (rule keeps_resting) (intro keeps_intros)+
  ultimately show ?thesis
    unfolding ExecuteOrder_def execute_priced_def reject_def
    by (auto intro!: keeps_bindE keeps_attempt keeps_If keeps_ret keeps_raise keeps_resting_fill keeps_resting_SetStatus
        split: sum.splits option.splits)
qed

text \<open>Every webhook job that a poll enqueues is paid for by an alert that is marked as triggered.\<close>

lemma fire_loop_load:
  assumes "steady c 0 w" and "set as \<subseteq> set (alerts (wdb w))" and "list_all (\<lambda>a. \<not> triggered a) as"
    and "distinct (map alert_id as)"
  shows "load c (wdb (snd (fire_loop ps as w))) \<le> load c (wdb w)"
  using assms
proof (induction as arbitrary: w)
  case (Cons a as)
  have nf: "faults w = []" and c: "clock w = c" using Cons.prems(1) by (simp_all add: steady_def)
  consider "fire_loop ps (a # as) w = fire_loop ps as w"
    | price where "map_of ps (alert_symbol a) = Some price" "crossed a price"
  proof (cases "map_of ps (alert_symbol a)")
    case (Some price)
    with that show ?thesis by (cases "crossed a price") simp_all
  qed (use that in simp)
  then show ?case
  proof cases
    case 1
    with Cons show ?thesis by simp
  next
    case 2
    obtain r w1 where e: "Enqueue JobAlertWebhook (alert_payload a price) 5 c 5 w = (r, w1)" by fastforce
    have "keeps (steady c 0) (Enqueue JobAlertWebhook (alert_payload a price) 5 c 5)"
      unfolding Enqueue_def by (intro keeps_intros)
    then have S1: "steady c 0 w1" using Cons.prems(1) e by (rule keepsD)
    show ?thesis
    proof (cases r)
      case (Inl x)
      then have "wdb w1 = wdb w"
        using e nf by (auto simp: Enqueue_def bindE_def run_simps split: sum.splits)
      with Cons.IH [OF S1] Cons.prems 2 Inl e c show ?thesis by (simp add: bindE_def run_simps attempt_def)
    next
      case (Inr i)
      let ?w2 = "w1\<lparr>wdb := (wdb w1)\<lparr>alerts := row_upd alert_id (alert_id a) (\<lambda>a. a\<lparr>triggered := True\<rparr>) (alerts (wdb w1))\<rparr>\<rparr>"
      have m: "MarkTriggered (alert_id a) w1 = (Inr (), ?w2)"
        using S1 by (simp add: MarkTriggered_def run_simps q_mark_triggered_def steady_def)
      have al: "alerts (wdb w1) = alerts (wdb w)" and "length (filter (runnable c) (jobs (wdb w1))) \<le> Suc (length (filter (runnable c) (jobs (wdb w))))"
        using e Inr by (auto elim!: Enqueue_InrE)
      moreover have "length (filter (\<lambda>a. \<not> triggered a) (alerts (wdb ?w2))) < length (filter (\<lambda>a. \<not> triggered a) (alerts (wdb w1)))"
        using Cons.prems(2,3) al by (simp, intro length_filter_row_upd_less [of _ _ a]) auto
      ultimately have "load c (wdb ?w2) \<le> load c (wdb w)" by (simp add: load_def)
      moreover have "load c (wdb (snd (fire_loop ps as ?w2))) \<le> load c (wdb ?w2)"
      proof (rule Cons.IH)
        show "steady c 0 ?w2" using S1 by (simp add: steady_def)
        have "alert_id b \<noteq> alert_id a" if "b \<in> set as" for b
          using Cons.prems(4) that by (auto simp: image_iff)
        then have "b \<in> set (alerts (wdb ?w2))" if "b \<in> set as" for b
          using Cons.prems(2) al that by (auto simp: row_upd_def intro!: image_eqI [of _ _ b])
        then show "set as \<subseteq> set (alerts (wdb ?w2))" by blast
      qed (use Cons.prems in simp_all)
      moreover have "fire_loop ps (a # as) w = fire_loop ps as ?w2"
        using 2 e Inr m c by (simp add: bindE_def run_simps attempt_def)
      ultimately show ?thesis by simp
    qed
  qed
qed (simp add: run_simps)

lemma keeps_light_alert_reads [keeps_intros]:
  "keeps (on_tables P) DistinctSymbols" "keeps (on_tables P) Alert_Symbols" "keeps (on_tables P) ListActive"
  unfolding DistinctSymbols_def Alert_Symbols_def ListActive_def by (auto intro!: keeps_sql)

lemma handlePollQuotes_load:
  assumes "resting c n w" and "distinct (map alert_id (alerts (wdb w)))"
  shows "resting c n (snd (handlePollQuotes env w))"
proof -
  let ?ds = "remdups (filter (\<lambda>i. i \<noteq> CASH) (map entry_instrument (entries (wdb w))))"
  let ?as = "filter (\<lambda>a. \<not> triggered a) (alerts (wdb w))"
  have nf: "faults w = []" and c: "clock w = c" and S: "steady c 0 w" and L: "light c n (wdb w)"
    using assms(1) by (simp_all add: resting_def steady_def)
  obtain r w1 where r: "refresh_loop (w_md env) (remdups (UniverseSymbols (w_md env) @ ?ds @ remdups (map alert_symbol ?as))) [] w = (r, w1)"
    by fastforce
  have w1: "wdb w1 = wdb w" using keeps_all_wdb [OF keeps_ledger_refresh r] .
  have S1: "steady c 0 w1" using keepsD [OF keeps_steady_refresh S r] .
  show ?thesis
  proof (cases r)
    case (Inl e)
    with r nf w1 S1 L show ?thesis
      by (simp add: handlePollQuotes_def bindE_def DistinctSymbols_def Alert_Symbols_def run_simps resting_def)
  next
    case (Inr ps)
    obtain q w2 where f: "fire_loop ps ?as w1 = (q, w2)" by fastforce
    have S2: "steady c 0 w2" using keepsD [OF keeps_steady_fire S1 f] .
    have "distinct (map alert_id ?as)" using assms(2) by (simp add: distinct_map_filter)
    then have "load c (wdb w2) \<le> load c (wdb w1)"
      using fire_loop_load [OF S1, of ?as ps] f w1 by (auto simp: list_all_iff)
    with L w1 S2 have R2: "resting c n w2" by (simp add: resting_def light_def)
    let ?rest = "\<lambda>_. bindE timeNow (\<lambda>now. bindE (Enqueue JobPollQuotes EmptyPayload 0 (now + pollEvery) 1000000) (\<lambda>_. ret ()))"
    have e: "resting c n (snd (Enqueue JobPollQuotes EmptyPayload 0 (c + pollEvery) 1000000 w2))"
      using keeps_resting_Enqueue [of c "c + pollEvery" n] R2 by (simp add: keeps_def pollEvery_def)
    have same: "w1\<lparr>wdb := wdb w\<rparr> = w1" using w1 by (cases w1) simp
    have "handlePollQuotes env w = bindE (fire_loop ps ?as) ?rest w1"
      using r nf w1 S1 Inr
      by (simp add: handlePollQuotes_def bindE_def DistinctSymbols_def Alert_Symbols_def ListActive_def run_simps steady_def same)
    with f R2 e show ?thesis
      by (cases q) (auto simp: bindE_def run_simps resting_def steady_def split: sum.splits prod.splits)
  qed
qed

lemma dispatch_load:
  assumes "resting c n w" and "distinct (map alert_id (alerts (wdb w)))"
  shows "resting c n (snd (dispatch env j w))"
proof -
  have g: "keeps (resting c n) (Order_Get i)" for i
    by (rule keeps_resting, unfold Order_Get_def, intro keeps_intros, fold Order_Get_def, intro keeps_intros)
  have "keeps (resting c n) (handleExecuteOrder env j)" "keeps (resting c n) (handleSettle j)"
    "keeps (resting c n) (handleAlertWebhook env j)"
    unfolding handleExecuteOrder_def handleSettle_def handleAlertWebhook_def
    by (auto intro!: keeps_bindE keeps_If keeps_ret keeps_raise keeps_timeNow keeps_resting_ExecuteOrder
        keeps_resting_SetStatus g split: payload.splits sum.splits)
  with assms show ?thesis
    using handlePollQuotes_load [OF assms] by (auto simp: dispatch_def keeps_def raise_def)
qed

lemma finish_load:
  assumes "resting c n w" and "0 < attempts j"
  shows "resting c n (snd (finish env j r w))"
proof -
  have b: "0 < backoff_secs (attempts j)" using assms(2) by (simp add: backoff_secs_def min_def)
  have "keeps (resting c n) (Complete (job_id j))"
    by (rule keeps_resting, unfold Complete_def, intro keeps_intros, fold Complete_def, intro keeps_intros)
  moreover have "keeps (resting c n) (MoveToDead j msg)" for msg
    unfolding MoveToDead_def by (rule keeps_resting) (intro keeps_bindE keeps_steady keeps_light_reads)+
  moreover have "keeps (resting c n) (Retry (job_id j) (c + backoff_secs (attempts j) * 1000) msg)" for msg
    using b by (intro keeps_resting_Retry) simp
  moreover have "clock w = c" using assms(1) by (simp add: resting_def steady_def)
  ultimately show ?thesis
    using assms(1) by (auto simp: finish_def bindE_def attempt_def run_simps keeps_def split: sum.splits prod.splits) (metis snd_conv)+
qed

section \<open>The loop rests\<close>

text \<open>What the loop relies on: the queue is sound, and no job can run out of its counter.\<close>

definition loop_inv :: "world \<Rightarrow> bool" where
  "loop_inv w \<longleftrightarrow> queue_ok {} (wdb w) \<and> typed {} w"

lemma loop_inv_turn:
  assumes "loop_inv w" and "worker_typed env" and "worker_turn env w = (r, w')"
  shows "loop_inv w' \<and> r = Inr ()"
proof -
  have "queue_ok {} (wdb w')"
    using keepsD [OF keeps_worker_turn_q _ assms(3)] assms(1) by (simp add: loop_inv_def on_tables_def)
  moreover have t: "typed {} w' \<and> calm anything r"
    using yieldsD [OF yields_worker_turn [OF assms(2), of "{}"] _ assms(3)] assms(1) by (simp add: loop_inv_def)
  moreover have "r = Inr ()"
    using assms(3) t
    by (auto simp: worker_turn_def process_def finish_def bindE_def attempt_def run_simps
        split: sum.splits prod.splits option.splits if_splits)
  ultimately show ?thesis by (simp add: loop_inv_def)
qed

definition effort :: "world \<Rightarrow> nat \<times> nat" where
  "effort w = (length (faults w), load (clock w) (wdb w))"

text \<open>A turn that does not find the queue empty makes the effort smaller.\<close>

lemma Claim_effort:
  assumes "Claim n w = (r, w')" and "faults w \<noteq> []"
  shows "steady (clock w) (length (faults w) - 1) w'"
  using assms by (auto simp: Claim_def sql_def ext_def steady_def neq_Nil_conv split: list.splits sum.splits if_splits)

lemma Claim_ok:
  assumes "loop_inv w" and "faults w = []" and "Claim n w = (r, w')"
  shows "(\<exists>x. r = Inr x) \<and> steady (clock w) 0 w'"
proof -
  have "attempts j + 1 < 2 ^ 31" if "next_job (clock w) (jobs (wdb w)) = Some j" for j
  proof -
    have j: "j \<in> set (jobs (wdb w))" "runnable (clock w) j" using next_job_Some [OF that] by auto
    then have "attempts j < max_attempts j" using assms(1) by (auto simp: loop_inv_def queue_ok_def job_ok_def runnable_def)
    moreover have "max_attempts j < 2 ^ 31"
      using assms(1) j(1) by (auto simp: loop_inv_def typed_def db_typed_def list_all_iff job_typed_def)
    ultimately show ?thesis by linarith
  qed
  then show ?thesis
    using assms(2,3) by (auto simp: Claim_def run_simps q_claim_def steady_def split: option.splits sum.splits if_splits)
qed

lemma turn_effort:
  assumes inv: "loop_inv w" and c: "Claim (leaseSecs env) w = (Inr (Some j), w1)" and p: "process env j w1 = (r, w2)"
  shows "(effort w2, effort w) \<in> less_than <*lex*> less_than"
proof (cases "faults w = []")
  case False
  have "steady (clock w) (length (faults w) - 1) w1" by (rule Claim_effort [OF c False])
  then have "steady (clock w) (length (faults w) - 1) w2" using keepsD [OF keeps_steady_process _ p] by blast
  with False show ?thesis by (auto simp: effort_def steady_def) (metis Suc_pred length_greater_0_conv less_Suc_eq_le)
next
  case True
  let ?c = "clock w" and ?n = "load (clock w) (wdb w1)"
  have S1: "steady ?c 0 w1" using Claim_ok [OF inv True c] by simp
  then have R1: "resting ?c ?n w1" by (simp add: resting_def light_def)
  have "typed {} w1" using Claim_typed [OF _ c] inv by (simp add: loop_inv_def)
  then have "distinct (map alert_id (alerts (wdb w1)))" by (simp add: typed_def db_typed_def)
  then have R2: "resting ?c ?n (snd (dispatch env j w1))" by (rule dispatch_load [OF R1])
  have "0 < attempts j"
  proof -
    from c [unfolded Claim_def] obtain d where "q_claim (leaseSecs env) ?c (wdb w) = Inr (Some j, d)" by (rule sql_InrE)
    then obtain k where "next_job ?c (jobs (wdb w)) = Some k" and "j = lease ?c (leaseSecs env) k"
      by (auto simp: q_claim_def split: option.splits if_splits)
    then show ?thesis using inv next_job_Some(1) [of ?c "jobs (wdb w)" k] by (auto simp: loop_inv_def queue_ok_def job_ok_def)
  qed
  then have "resting ?c ?n (snd (finish env j (fst (dispatch env j w1)) (snd (dispatch env j w1))))"
    by (rule finish_load [OF R2])
  then have "resting ?c ?n w2" using p by (auto simp: process_def bindE_def attempt_def split: prod.splits sum.splits)
  then have "faults w2 = []" "clock w2 = ?c" "load ?c (wdb w2) \<le> ?n" by (simp_all add: resting_def steady_def light_def)
  with True Claim_load [OF c] show ?thesis by (auto simp: effort_def)
qed

lemma worker_loop_rests:
  assumes "loop_inv w" and "worker_typed env" and "J w" and "\<And>v. loop_inv v \<Longrightarrow> J v \<Longrightarrow> J (snd (worker_turn env v))"
  shows "\<exists>w'. worker_loop env w = Some w' \<and> J w' \<and> clock w' = clock w \<and>
    (\<forall>j \<in> set (jobs (wdb w')). \<not> runnable (clock w') j)"
  using assms(1,3)
proof (induction "effort w" arbitrary: w rule: wf_induct_rule [OF wf_lex_prod [OF wf_less_than wf_less_than]])
  case 1
  note inv = \<open>loop_inv w\<close>
  obtain r w1 where c: "Claim (leaseSecs env) w = (r, w1)" by fastforce
  have S1: "steady (clock w) (length (faults w)) w1"
    using c by (auto simp: Claim_def sql_def ext_def steady_def split: list.splits sum.splits if_splits)
  consider (failed) e where "r = Inl e" | (idle) "r = Inr None" | (job) j where "r = Inr (Some j)"
    by (metis not_Some_eq sumE)
  then show ?case
  proof cases
    case failed
    then have t: "worker_turn env w = (Inr (), w1)" using c by (simp add: worker_turn_def bindE_def attempt_def run_simps)
    have nf: "faults w \<noteq> []" using Claim_ok [OF inv _ c] failed by auto
    have "(effort w1, effort w) \<in> less_than <*lex*> less_than"
      using Claim_effort [OF c nf] nf
      by (auto simp: effort_def steady_def) (metis Suc_pred length_greater_0_conv less_Suc_eq_le)
    then obtain w' where "worker_loop env w1 = Some w'" "J w'" "clock w' = clock w1"
      "\<forall>j \<in> set (jobs (wdb w')). \<not> runnable (clock w') j"
      using 1(1) [of w1] loop_inv_turn [OF inv assms(2) t] assms(4) [OF inv \<open>J w\<close>] t by auto
    with c failed S1 show ?thesis by (subst worker_loop.simps) (simp add: steady_def)
  next
    case idle
    then have t: "worker_turn env w = (Inr (), w1)" using c by (simp add: worker_turn_def bindE_def attempt_def run_simps)
    from c [unfolded Claim_def idle] obtain d where "q_claim (leaseSecs env) (clock w) (wdb w) = Inr (None, d)"
      and "wdb w1 = d" by (rule sql_InrE)
    then have "\<forall>j \<in> set (jobs (wdb w1)). \<not> runnable (clock w) j"
      by (auto simp: q_claim_def next_job_None split: option.splits if_splits)
    with c idle S1 assms(4) [OF inv \<open>J w\<close>] t show ?thesis by (subst worker_loop.simps) (simp add: steady_def)
  next
    case (job j)
    obtain q w2 where p: "process env j w1 = (q, w2)" by fastforce
    then have t: "worker_turn env w = (q, w2)" using c job by (simp add: worker_turn_def bindE_def attempt_def)
    note 2 = loop_inv_turn [OF inv assms(2) t]
    have "steady (clock w) (length (faults w)) w2" using keepsD [OF keeps_steady_process S1 p] .
    moreover obtain w' where "worker_loop env w2 = Some w'" "J w'" "clock w' = clock w2"
      "\<forall>j \<in> set (jobs (wdb w')). \<not> runnable (clock w') j"
      using 1(1) [of w2] turn_effort [OF inv _ p] c job 2 assms(4) [OF inv \<open>J w\<close>] t by auto
    ultimately show ?thesis using c job p 2 by (subst worker_loop.simps) (simp add: steady_def)
  qed
qed

end
