(* ===== verification/Platform.thy ===== *)
theory Platform
  imports Worker_Loop
begin

text \<open>
  The whole platform: any number of API processes (each with its own limiter) and worker processes over
  one database and one Redis. \<open>platform_step\<close> interleaves HTTP requests, turns of the workers' loops, the
  reaper, starts of worker processes and the passing of time, in any order; in each step any of the calls can fail,
  which covers a process that dies in the middle of an operation (all its later calls fail).
  Operations that overlap are the subject of \<open>Trading_Concurrency\<close>.
\<close>

type_synonym platform = "world \<times> limiter list"

inductive platform_step :: "http_env \<Rightarrow> wenv \<Rightarrow> platform \<Rightarrow> platform \<Rightarrow> bool" for api :: http_env and env :: wenv where
  request: "NewRouter api l r w = (resp, l', w') \<Longrightarrow> platform_step api env (w, ls @ l # ms) (w', ls @ l' # ms)"
| work: "platform_step api env (w, ls) (snd (worker_turn env w), ls)"
| reap: "platform_step api env (w, ls) (snd (reaper_turn w), ls)"
| seed: "platform_step api env (w, ls) (snd (seedPoller w), ls)"
| pass: "0 \<le> n \<Longrightarrow> platform_step api env (w, ls) (w\<lparr>clock := clock w + n, faults := bs\<rparr>, ls)"

section \<open>Books and queue\<close>

lemma keeps_ledger_worker_turn: "keeps (on_tables ledger_inv) (worker_turn env)"
proof -
  have "keeps (on_tables ledger_inv) (dispatch env j)" for j
  proof (cases "job_type j = JobExecuteOrder \<or> job_type j = JobSettle")
    case True
    then show ?thesis
      unfolding dispatch_def handleExecuteOrder_def handleSettle_def
      by (auto intro!: keeps_intros keeps_ExecuteOrder simp: statuses_def job_type_defs split: payload.splits)
  qed (simp add: keeps_ledger_other)
  then show ?thesis
    unfolding worker_turn_def process_def
    by (auto intro!: keeps_intros split: sum.splits option.splits)
qed

definition books :: "(uuid \<times> string \<times> payload) set \<Rightarrow> platform \<Rightarrow> bool" where
  "books K s \<longleftrightarrow> ledger_inv (wdb (fst s)) \<and> queue_ok K (wdb (fst s))"

lemma books_step:
  assumes "books K s" and "platform_step api env s t"
  shows "books K t"
proof -
  have L: "ledger_inv (wdb (fst s))" and Q: "queue_ok K (wdb (fst s))" using assms(1) by (simp_all add: books_def)
  from assms(2) show ?thesis
  proof cases
    case (request l r w resp l' w' ls ms)
    with L Q api_ledger.router_keeps [of w] api_queue.router_keeps [of K w] show ?thesis by (auto simp: books_def)
  next
    case (work w ls)
    with L Q keeps_ledger_worker_turn [of env] keeps_worker_turn_q [of K env] show ?thesis
      by (simp add: books_def keeps_def on_tables_def)
  next
    case (reap w ls)
    with L Q keeps_ledger_turns(1) keeps_reaper_turn_q [of K] show ?thesis by (simp add: books_def keeps_def on_tables_def)
  next
    case (seed w ls)
    with L Q keeps_ledger_turns(3) qinv.keeps_seedPoller_q [of K] show ?thesis by (simp add: books_def keeps_def on_tables_def)
  next
    case (pass n w ls bs)
    with L Q show ?thesis by (simp add: books_def)
  qed
qed


text \<open>Orders wait for their job.\<close>

definition books_waiting :: "platform \<Rightarrow> bool" where
  "books_waiting s \<longleftrightarrow> books {} s \<and> waiting (wdb (fst s))"

lemma waiting_step:
  assumes "books_waiting s" and "platform_step api env s t"
  shows "books_waiting t"
proof -
  have B: "books {} s" and W: "waiting (wdb (fst s))" using assms(1) by (simp_all add: books_waiting_def)
  have L: "ledger_inv (wdb (fst s))" and Q: "queue_ok {} (wdb (fst s))" using B by (simp_all add: books_def)
  have "waiting (wdb (fst t))"
    using assms(2)
  proof cases
    case (request l r w resp l' w' ls ms)
    with Q W api_tracking.router_keeps [of "{}" w] show ?thesis by (auto simp: tracking_def)
  next
    case (work w ls)
    with worker_turn_waiting [of w "{}"] L Q W show ?thesis by simp
  next
    case (reap w ls)
    with W keeps_waiting_reaper_turn show ?thesis by (simp add: keeps_def on_tables_def)
  next
    case (seed w ls)
    with W keeps_waiting_seedPoller show ?thesis by (simp add: keeps_def on_tables_def)
  next
    case (pass n w ls bs)
    with W show ?thesis by simp
  qed
  with books_step [OF B assms(2)] show ?thesis by (simp add: books_waiting_def)
qed

interpretation platform_waiting: step_system "platform_step api env" books_waiting for api env
  by unfold_locales (rule waiting_step)

section \<open>Types\<close>

text \<open>What the platform needs of the code outside the repository.\<close>

definition inputs_typed :: "http_env \<Rightarrow> wenv \<Rightarrow> bool" where
  "inputs_typed api env \<longleftrightarrow> md_typed (api_md api) \<and> worker_typed env"

definition types_kept :: "http_env \<Rightarrow> wenv \<Rightarrow> platform \<Rightarrow> bool" where
  "types_kept api env s \<longleftrightarrow> (inputs_typed api env \<longrightarrow> typed {} (fst s))"

interpretation platform_types: step_system "platform_step api env" "types_kept api env" for api env
proof
  fix s t assume T: "types_kept api env s" and "platform_step api env s t"
  from this(2) show "types_kept api env t"
  proof cases
    case (request l r w resp l' w' ls ms)
    with T router_typed [of api "{}" w] show ?thesis by (auto simp: types_kept_def inputs_typed_def)
  next
    case (work w ls)
    with T yields_keeps [OF yields_worker_turn, of env "{}"] show ?thesis
      by (auto simp: types_kept_def inputs_typed_def keeps_def)
  next
    case (reap w ls)
    with T yields_keeps [OF yields_reaper_turn, of "{}"] show ?thesis by (auto simp: types_kept_def keeps_def)
  next
    case (seed w ls)
    with T yields_keeps [OF yields_seedPoller, of "{}"] show ?thesis by (auto simp: types_kept_def keeps_def)
  next
    case (pass n w ls bs)
    with T show ?thesis by (simp add: types_kept_def)
  qed
qed

section \<open>From an empty database\<close>

definition fresh_world :: "world \<Rightarrow> bool" where
  "fresh_world w \<longleftrightarrow> wdb w = empty_db \<and> wredis w = Map.empty"

lemma fresh_world_ok:
  assumes "fresh_world w"
  shows "books_waiting (w, ls)" and "typed {} w"
  using assms ledger_inv_empty
  by (simp_all add: fresh_world_def books_waiting_def books_def queue_ok_def waiting_def pending_ids_def typed_def
      db_typed_def redis_typed_def empty_db_def)

lemma reachable_ok:
  assumes "fresh_world w" and "(platform_step api env)\<^sup>*\<^sup>* (w, ls) (w', ls')"
  shows "books_waiting (w', ls')" and "inputs_typed api env \<Longrightarrow> typed {} w'"
proof -
  show "books_waiting (w', ls')"
    using platform_waiting.steps_inv [OF assms(2)] fresh_world_ok [OF assms(1)] by simp
  show "inputs_typed api env \<Longrightarrow> typed {} w'"
    using platform_types.steps_inv [OF assms(2)] fresh_world_ok(2) [OF assms(1)] by (simp add: types_kept_def)
qed


text \<open>
  C7. No accepted order is forgotten. In every state that the platform reaches from an empty database, whichever calls
  failed on the way, every pending order has an execution job that is queued or being worked on, or
  that waits among the dead letters to be replayed.
\<close>
theorem no_order_forgotten:
  assumes "fresh_world w" and "(platform_step api env)\<^sup>*\<^sup>* (w, ls) (w', ls')"
    and "ord \<in> set (orders (wdb w'))" and "order_status ord = ''pending''"
  shows "(\<exists>j \<in> set (jobs (wdb w')). job_type j = JobExecuteOrder \<and> job_payload j = OrderPayload (order_id ord) \<and>
      (job_status j = ''queued'' \<or> job_status j = ''inflight'')) \<or>
    (\<exists>l \<in> set (dead_letters (wdb w')). dl_type l = JobExecuteOrder \<and> dl_payload l = OrderPayload (order_id ord))"
proof -
  have B: "books_waiting (w', ls')" by (rule reachable_ok [OF assms(1,2)])
  have "order_id ord \<in> pending_ids (wdb w')" using assms(3,4) by (auto simp: pending_ids_def)
  then have "tracked (order_id ord) (wdb w')" using B by (simp add: books_waiting_def waiting_def)
  moreover have "job_status j \<in> {''queued'', ''inflight'', ''done''}" if "j \<in> set (jobs (wdb w'))" for j
    using B that by (auto simp: books_waiting_def books_def queue_ok_def job_ok_def)
  ultimately show ?thesis by (fastforce simp: tracked_def exec_for_def)
qed

text \<open>
  C8. The stored data is well typed. In every state that the platform reaches from an empty database and an empty Redis:
  every stored number fits the Go type it is read into, the text columns hold the values the code
  branches on, every limit order has a limit price, every job (dead letters included) carries the payload
  that its handler decodes and names an order that exists, and every Redis key holds the kind of value its family is read
  as, so that no decoding of stored data ever fails.
\<close>
theorem data_well_typed:
  assumes "fresh_world w" and "(platform_step api env)\<^sup>*\<^sup>* (w, ls) (w', ls')" and "inputs_typed api env"
  shows "db_typed (wdb w') \<and> redis_typed (wredis w')"
  using reachable_ok(2) [OF assms] by (simp add: typed_def)

text \<open>
  A worker never panics: whatever job it claims in a reachable state, and whichever calls fail, its turn
  ends normally. In particular the limit price that \<open>ExecuteOrder\<close> dereferences is never nil.
\<close>
theorem worker_never_panics:
  assumes "fresh_world w" and "(platform_step api env)\<^sup>*\<^sup>* (w, ls) (w', ls')" and "inputs_typed api env"
  shows "fst (worker_turn env w') = Inr ()"
proof -
  have "loop_inv w'"
    using reachable_ok [OF assms(1,2)] assms(3) by (simp add: loop_inv_def books_waiting_def books_def)
  with loop_inv_turn [of w' env "fst (worker_turn env w')" "snd (worker_turn env w')"] assms(3) show ?thesis
    by (simp add: inputs_typed_def)
qed


section \<open>A sample run\<close>

definition shop_http :: http_env where
  "shop_http = demo_http\<lparr>parse_uuid := (\<lambda>s. if s = ''100'' then Some 100 else None),
     route := (\<lambda>meth path.
       (if meth = ''POST'' \<and> path = ''/v1/portfolios'' then V1 (Some Portfolio_create)
        else if meth = ''POST'' \<and> path = ''/v1/orders'' then V1 (Some Order_place) else Unrouted, (\<lambda>k. [])))\<rparr>"

definition buy_request :: request where
  "buy_request = demo_request ''POST'' ''/v1/orders'' (Some (JObj [(''portfolio_id'', JStr ''100''), (''side'', JStr ''buy''),
     (''instrument'', JStr ''INFY''), (''quantity'', JInt 2), (''type'', JStr ''limit''), (''limit_price'', JInt 100)]))"

definition shop_start :: world where
  "shop_start = \<lparr>wdb = empty_db, wredis = Map.empty, clock = 0, rng = (\<lambda>n. 100 + n), drawn = 0, faults = []\<rparr>"

definition serve_one :: "request \<Rightarrow> platform \<Rightarrow> platform" where
  "serve_one r s = (case s of (w, l # ls) \<Rightarrow> (case NewRouter shop_http l r w of (resp, l', w') \<Rightarrow> (w', l' # ls)) | _ \<Rightarrow> s)"

definition shop_sys :: platform where
  "shop_sys = serve_one buy_request (serve_one open_request (shop_start, [New_limiter 10 20]))"

lemma serve_one_step: "(platform_step shop_http env)\<^sup>*\<^sup>* s (serve_one r s)"
proof (cases "snd s")
  case (Cons l ls)
  obtain resp l' w' where run: "NewRouter shop_http l r (fst s) = (resp, l', w')" by (metis prod_cases3)
  show ?thesis
    using platform_step.request [OF run, of env "[]" ls] Cons run by (cases s) (auto simp: serve_one_def)
qed (cases s; simp add: serve_one_def)

lemma shop_reachable: "(platform_step shop_http env)\<^sup>*\<^sup>* (shop_start, [New_limiter 10 20]) (fst shop_sys, snd shop_sys)"
  unfolding shop_sys_def using serve_one_step rtranclp_trans by (metis prod.collapse)

lemma shop_fresh: "fresh_world shop_start"
  by (simp add: fresh_world_def shop_start_def)

lemma shop_inputs: "inputs_typed shop_http sample_env"
  by (simp add: inputs_typed_def md_typed_def worker_typed_def shop_http_def demo_http_def sample_env_def sample_md_def
      sample_provider_def in_int64_def)

lemma shop_orders:
  "map (\<lambda>ord. (order_id ord, order_status ord, limit_price ord)) (orders (wdb (fst shop_sys))) = [(102, ''pending'', Some 100)]"
  by code_simp


theorem no_order_forgotten_witness:
  "\<exists>ord \<in> set (orders (wdb (fst shop_sys))). order_id ord = 102 \<and> order_status ord = ''pending'' \<and>
     ((\<exists>j \<in> set (jobs (wdb (fst shop_sys))). job_payload j = OrderPayload (order_id ord)) \<or>
      (\<exists>l \<in> set (dead_letters (wdb (fst shop_sys))). dl_payload l = OrderPayload (order_id ord)))"
proof -
  obtain ord where "ord \<in> set (orders (wdb (fst shop_sys)))" "order_id ord = 102" "order_status ord = ''pending''"
    using shop_orders by (auto simp: map_eq_Cons_conv)
  then show ?thesis using no_order_forgotten [OF shop_fresh shop_reachable [of sample_env]] by blast
qed

theorem data_well_typed_witness:
  "let w' = fst shop_sys in length (orders (wdb w')) = 1 \<and> db_typed (wdb w') \<and> redis_typed (wredis w')"
  using data_well_typed [OF shop_fresh shop_reachable shop_inputs] arg_cong [OF shop_orders, of length]
  by (simp add: Let_def)

theorem worker_never_panics_witness:
  "fst (Claim 30 (fst shop_sys)) \<noteq> Inr None \<and> fst (worker_turn sample_env (fst shop_sys)) = Inr ()"
proof -
  have "fst (Claim 30 (fst shop_sys)) \<noteq> Inr None" by code_simp
  then show ?thesis using worker_never_panics [OF shop_fresh shop_reachable shop_inputs] by simp
qed


end
