(* ===== verification/Ledger_Invariants.thy ===== *)
theory Ledger_Invariants
  imports Platform
begin

text \<open>
  Invariants of the tables from what happens to them. All that the program does to portfolios, entries and orders is: opening a portfolio, placing an
  order, changing the status of an order, and booking a trade. The locale \<open>trading_pred\<close> asks of a predicate that these four
  changes keep it, and gives that every operation of the services, every turn of a worker and every step of the
  platform does, whichever calls fail.
\<close>

section \<open>Predicates on the ledger and the orders\<close>

locale ledger_pred =
  fixes P :: "db \<Rightarrow> bool"
  assumes frame: "P d \<Longrightarrow> portfolios d' = portfolios d \<Longrightarrow> entries d' = entries d \<Longrightarrow> orders d' = orders d \<Longrightarrow> P d'"
begin

lemma keeps_queue_sql:
  "keeps (on_tables P) (Claim n)" "keeps (on_tables P) (Complete i)" "keeps (on_tables P) (Retry i t msg)"
  "keeps (on_tables P) (MoveToDead j msg)" "keeps (on_tables P) ReapExpired" "keeps (on_tables P) (Replay i)"
  "keeps (on_tables P) (Enqueue typ pl prio runAt maxAtt)" "keeps (on_tables P) (MarkTriggered a)"
  "keeps (on_tables P) (Alert_Create symb dir thr url)"
  unfolding Claim_def Complete_def Retry_def MoveToDead_def ReapExpired_def Replay_def Enqueue_def MarkTriggered_def
    Alert_Create_def
  by (auto intro!: keeps_intros elim!: frame split: option.splits if_splits
      simp: q_claim_def q_complete_def q_retry_def q_insert_dead_def q_delete_job_def q_reap_dead_def q_reap_requeue_def
        q_replay_def q_insert_job_def q_mark_triggered_def q_insert_alert_def Let_def)

lemma keeps_fire_loop_l: "keeps (on_tables P) (fire_loop prices as)"
  by (induction as) (auto intro!: keeps_intros keeps_queue_sql split: option.splits sum.splits)

lemma keeps_poll: "keeps (on_tables P) (handlePollQuotes env)"
  unfolding handlePollQuotes_def
  by (auto intro!: keeps_intros keeps_queue_sql keeps_fire_loop_l keeps_light_alert_reads)

lemma keeps_finish_l: "keeps (on_tables P) (finish env j r)"
  unfolding finish_def by (auto intro!: keeps_intros keeps_queue_sql split: sum.splits)

lemma keeps_turns:
  "keeps (on_tables P) reaper_turn" "keeps (on_tables P) seedPoller"
  unfolding reaper_turn_def seedPoller_def HasActive_def
  by (auto intro!: keeps_intros keeps_queue_sql split: sum.splits)

text \<open>What remains to be shown of a worker: the two handlers that write the orders.\<close>

lemma keeps_worker_turn:
  assumes "\<And>i. keeps (on_tables P) (ExecuteOrder (w_md env) i)" and "\<And>j. keeps (on_tables P) (handleSettle j)"
  shows "keeps (on_tables P) (worker_turn env)"
proof -
  have "keeps (on_tables P) (dispatch env j)" for j
    unfolding dispatch_def handleExecuteOrder_def handleAlertWebhook_def
    by (auto intro!: keeps_intros keeps_poll assms split: payload.splits sum.splits)
  then show ?thesis
    unfolding worker_turn_def process_def
    by (auto intro!: keeps_intros keeps_queue_sql keeps_finish_l split: sum.splits option.splits)
qed

end

section \<open>Changes of the tables\<close>

text \<open>The changes of the status of an order that the program makes, filling apart.\<close>

definition moves_to :: "string \<Rightarrow> string \<Rightarrow> bool" where
  "moves_to old new \<longleftrightarrow> old = ''pending'' \<and> new \<in> {''rejected'', ''cancelled''} \<or> old = ''filled'' \<and> new = ''settled''"

locale trading_pred = ledger_pred +
  assumes sound: "P d \<Longrightarrow> ledger_inv d"
    and status_kept: "P d \<Longrightarrow> row_get order_id i (orders d) = Some ord \<Longrightarrow> moves_to (order_status ord) new \<Longrightarrow>
      P (set_status_db i new why d)"
    and trade_kept: "P d \<Longrightarrow> row_get order_id (order_id ord) (orders d) = Some ord \<Longrightarrow> order_status ord = ''pending'' \<Longrightarrow>
      order_static d ord \<Longrightarrow> cost = wrap64 (order_quantity ord * price) \<Longrightarrow> can_trade ord cost sq d \<Longrightarrow>
      P (trade_db now tid jid ord price cost sq d)"
    and outbox_kept: "P d \<Longrightarrow> insertable ord d \<Longrightarrow> order_static d ord \<Longrightarrow> order_status ord = ''pending'' \<Longrightarrow>
      P (outbox_db now jid ord d)"
    and open_kept: "P d \<Longrightarrow> i \<notin> pf_id ` set (portfolios d) \<Longrightarrow> P (open_db now tid i name amount d)"
begin

lemma same_tables_kept: "P d \<Longrightarrow> same_tables d d' \<Longrightarrow> P d'"
  by (erule frame) (simp_all add: same_tables_def, (metis db.ext_inject db.surjective db.update_convs)+)

lemma keeps_ExecuteOrder_p: "keeps (on_tables P) (ExecuteOrder m i)"
  unfolding keeps_def on_tables_def
proof (intro allI impI)
  fix w :: world assume A: "P (wdb w)"
  then have inv: "ledger_inv (wdb w)" by (rule sound)
  obtain r w' where run: "ExecuteOrder m i w = (r, w')" by fastforce
  have "P (wdb w')"
  proof (cases r)
    case (Inl e)
    with run A show ?thesis by (auto dest!: ExecuteOrder_Inl_same intro: same_tables_kept)
  next
    case (Inr x)
    with run inv obtain ord where row: "row_get order_id i (orders (wdb w)) = Some ord" and st: "order_static (wdb w) ord"
      and res: "order_status ord \<noteq> ''pending'' \<and> wdb w' = wdb w \<or>
        order_status ord = ''pending'' \<and> exec_result ord (clock w) (wdb w) (wdb w')"
      using ExecuteOrder_Inr_cases [of m i w x w'] by metis
    have "order_id ord = i" using row_get_SomeD [OF row] by simp
    with res show ?thesis
      using A status_kept [OF A row, of "''rejected''"] trade_kept [OF A _ _ st] row
      by (auto simp: exec_result_def moves_to_def)
  qed
  with run show "P (wdb (snd (ExecuteOrder m i w)))" by simp
qed

text \<open>Reading an order and then changing its status.\<close>

lemma keeps_status:
  assumes "moves_to old new" and f: "\<And>ord x. keeps (on_tables P) (f ord x)" and g: "\<And>ord. keeps (on_tables P) (g ord)"
  shows "keeps (on_tables P) (bindE (Order_Get i) (\<lambda>ord.
    if order_status ord = old then bindE (SetStatus i new (Some why)) (f ord) else g ord))"
proof (rule keeps_bindE_post [where J = "\<lambda>ord w. row_get order_id i (orders (wdb w)) = Some ord"])
  fix ord w assume A: "on_tables P w" and row: "row_get order_id i (orders (wdb w)) = Some ord"
  have s: "P (wdb w')" if "SetStatus i new (Some why) w = (r, w')" "order_status ord = old" for r w'
  proof (cases r)
    case (Inl e)
    with that A show ?thesis by (auto simp: SetStatus_def on_tables_def dest!: sql_Inl_wdb)
  next
    case (Inr x)
    with that A row show ?thesis
      using status_kept [of "wdb w" i ord new why] assms(1) by (auto simp: on_tables_def elim!: SetStatus_InrE)
  qed
  show "on_tables P (snd ((if order_status ord = old then bindE (SetStatus i new (Some why)) (f ord) else g ord) w))"
    using A f g s by (auto simp: bindE_def keeps_def on_tables_def split: prod.splits sum.splits)
qed (auto intro!: keeps_intros elim!: Order_Get_InrE)

lemma keeps_settle: "keeps (on_tables P) (handleSettle j)"
proof -
  have r: "bindE m ret = m" for m :: "unit io"
    by (rule HOL.ext) (auto simp: bindE_def ret_def split: prod.splits sum.splits)
  have "keeps (on_tables P) (bindE (Order_Get i) (\<lambda>ord. if order_status ord = ''filled''
      then bindE (SetStatus i ''settled'' (Some ''settled (T+1)'')) ret else ret ()))" for i
    by (rule keeps_status) (auto simp: moves_to_def intro: keeps_intros)
  then show ?thesis unfolding handleSettle_def r by (auto intro: keeps_raise split: payload.splits)
qed

lemma keeps_CancelOrder_p: "keeps (on_tables P) (CancelOrder i)"
proof -
  let ?set = "\<lambda>ord. bindE (SetStatus i ''cancelled'' (Some ''cancelled by user'')) (\<lambda>_. ret (ord\<lparr>order_status := ''cancelled''\<rparr>))"
  let ?no = "raise (InvariantError ''only pending orders can be cancelled'')"
  have k: "keeps (on_tables P) (bindE (Order_Get i) (\<lambda>ord. if order_status ord = ''pending'' then ?set ord else ?no))"
    by (rule keeps_status) (auto simp: moves_to_def intro: keeps_intros)
  have eq: "(\<lambda>ord. if order_status ord = ''pending'' then ?set ord else ?no) =
      (\<lambda>ord. if order_status ord \<noteq> ''pending'' then ?no else ?set ord)"
    by (rule HOL.ext) simp
  show ?thesis unfolding CancelOrder_def by (rule subst [OF eq, of "\<lambda>f. keeps (on_tables P) (bindE (Order_Get i) f)"]) (rule k)
qed

lemma keeps_PlaceOrder_p: "keeps (on_tables P) (PlaceOrder req)"
proof (cases "valid_req req")
  case True
  have "keeps (on_tables P) (runTx (outbox_tx (req_order req (eff_type req) i)))" for i
  proof (rule keeps_runTx)
    let ?ord = "req_order req (eff_type req) i"
    fix w x w' assume A: "P (wdb w)" and "outbox_tx ?ord w = (Inr x, w')"
    then obtain jid where ins: "insertable ?ord (wdb w)" and d: "wdb w' = outbox_db (clock w) jid ?ord (wdb w)"
      by (auto elim: outbox_tx_InrE)
    have "order_static (wdb w) ?ord" using True ins by (intro req_order_static) (simp_all add: insertable_def)
    then show "P (wdb w')" using outbox_kept [OF A ins] by (simp add: d)
  qed (auto elim: frame)
  with True show ?thesis
    by (auto simp: PlaceOrder_valid place_new_def intro!: keeps_intros split: option.splits)
next
  case False
  then show ?thesis by (metis PlaceOrder_invalid keeps_def snd_conv)
qed

lemma keeps_CreatePortfolio_p: "keeps (on_tables P) (CreatePortfolio name seed)"
  unfolding CreatePortfolio_def
  by (intro keeps_If keeps_raise keeps_runTx) (auto elim!: create_body_InrE intro: open_kept frame)

end

text \<open>Such a predicate holds through every HTTP request and every step of the platform.\<close>

sublocale trading_pred \<subseteq> api_invariant P
  by unfold_locales
     (rule keeps_CreatePortfolio_p keeps_PlaceOrder_p keeps_CancelOrder_p keeps_queue_sql)+

context trading_pred
begin

lemma platform_kept:
  assumes "P (wdb (fst s))" and "platform_step api env s t"
  shows "P (wdb (fst t))"
  using assms(2)
proof cases
  case (request l r w resp l' w' ls ms)
  with assms(1) router_keeps [of w] show ?thesis by auto
qed (use assms(1) keeps_worker_turn [OF keeps_ExecuteOrder_p keeps_settle, of env] keeps_turns
     in \<open>simp_all add: keeps_def on_tables_def\<close>)

lemma platform_steps_kept:
  assumes "(platform_step api env)\<^sup>*\<^sup>* (w, ls) (w', ls')" and "P (wdb w)"
  shows "P (wdb w')"
proof -
  have "P (wdb (fst t))" if "(platform_step api env)\<^sup>*\<^sup>* (w, ls) t" for t
    using that assms(2) by (induction rule: rtranclp_induct) (auto intro: platform_kept)
  from this [OF assms(1)] show ?thesis by simp
qed

end

section \<open>Laws beside the ledger invariant\<close>

text \<open>Most predicates of this kind hold together with the ledger invariant, which the four changes keep.\<close>

lemma ledger_inv_cong:
  "ledger_inv d \<Longrightarrow> portfolios d' = portfolios d \<Longrightarrow> entries d' = entries d \<Longrightarrow> orders d' = orders d \<Longrightarrow> ledger_inv d'"
  by (simp add: ledger_inv_defs balance_def portfolio_entries_def order_static_def)

locale trading_law =
  fixes G :: "db \<Rightarrow> bool"
  assumes law_frame: "G d \<Longrightarrow> portfolios d' = portfolios d \<Longrightarrow> entries d' = entries d \<Longrightarrow> orders d' = orders d \<Longrightarrow> G d'"
    and law_status: "ledger_inv d \<Longrightarrow> G d \<Longrightarrow> row_get order_id i (orders d) = Some ord \<Longrightarrow> moves_to (order_status ord) new \<Longrightarrow>
      G (set_status_db i new why d)"
    and law_trade: "ledger_inv d \<Longrightarrow> G d \<Longrightarrow> row_get order_id (order_id ord) (orders d) = Some ord \<Longrightarrow>
      order_status ord = ''pending'' \<Longrightarrow> order_static d ord \<Longrightarrow> can_trade ord (wrap64 (order_quantity ord * price)) sq d \<Longrightarrow>
      G (trade_db now tid jid ord price (wrap64 (order_quantity ord * price)) sq d)"
    and law_outbox: "ledger_inv d \<Longrightarrow> G d \<Longrightarrow> insertable ord d \<Longrightarrow> order_status ord = ''pending'' \<Longrightarrow> G (outbox_db now jid ord d)"
    and law_open: "ledger_inv d \<Longrightarrow> G d \<Longrightarrow> i \<notin> pf_id ` set (portfolios d) \<Longrightarrow> G (open_db now tid i name amount d)"

sublocale trading_law \<subseteq> trading_pred "\<lambda>d. ledger_inv d \<and> G d"
proof
  show "ledger_inv (set_status_db i new why d) \<and> G (set_status_db i new why d)"
    if "ledger_inv d \<and> G d" "row_get order_id i (orders d) = Some ord" "moves_to (order_status ord) new" for d i ord new why
    using that law_status by (auto simp: moves_to_def statuses_def intro!: set_status_inv)
qed (auto intro: ledger_inv_cong law_frame trade_db_inv law_trade outbox_inv law_outbox open_db_inv law_open)

end
