(* ===== verification/Reconciliation.thy ===== *)
theory Reconciliation
  imports Ledger_Invariants
begin

text \<open>
  The ledger and the orders tell the same story. The balances of a portfolio are derived from the
  entries; the orders are updated separately, in the same transactions. In every state of the platform the shares of an
  instrument are exactly those that the filled orders bought less those that they sold, and the
  cash is the seed less what was paid plus what was received, at the fill prices the orders show.
\<close>

section \<open>Orders and balances\<close>











section \<open>The platform\<close>







end
