(* ===== verification/Startup.thy ===== *)
theory Startup
  imports Deployment Reconciliation
begin

text \<open>
  The two programs as processes: \<open>main\<close> of \<open>cmd/api/main.go\<close> and of \<open>cmd/worker/main.go\<close>, with the opening of
  the stores (\<open>internal/store/store.go\<close>) and \<open>Worker.New\<close> and \<open>Worker.Run\<close>. A start either ends the process with
  exit status 1 or gives a running process; \<open>cluster_step\<close> is a deployment in which processes are
  started and stopped at any time. It refines \<open>platform_step\<close>, so that what is proved of the platform holds for the processes that \<open>main\<close> wires together.

  \<open>host\<close> holds what the processes use of the outside: the environment variables, the parsing of the two URLs (the
  libraries \<open>pgxpool\<close> and \<open>redis\<close>), the sine, the Finnhub server, the receivers of webhooks, and the HTTP stack. A ping is an external
  call like any other: it takes an element of the fault plan.
\<close>

section \<open>Opening the stores\<close>

definition ping :: "unit io" where
  "ping = ext (ret ())"

definition NewPostgres :: "(string \<Rightarrow> err option) \<Rightarrow> string \<Rightarrow> unit io" where
  "NewPostgres pgxpool url =
     (case pgxpool url of
        Some e \<Rightarrow> raise (ErrWrap ''connect postgres'' e)
      | None \<Rightarrow> bindE (attempt ping) (\<lambda>r.
          case r of Inl e \<Rightarrow> raise (ErrWrap ''ping postgres'' e) | Inr _ \<Rightarrow> ret ()))"

definition NewRedis :: "(string \<Rightarrow> err option) \<Rightarrow> string \<Rightarrow> unit io" where
  "NewRedis parseURL url =
     (case parseURL url of
        Some e \<Rightarrow> raise (ErrWrap ''parse redis url'' e)
      | None \<Rightarrow> bindE (attempt ping) (\<lambda>r.
          case r of Inl e \<Rightarrow> raise (ErrWrap ''ping redis'' e) | Inr _ \<Rightarrow> ret ()))"

section \<open>The processes\<close>

record host =
  os_Getenv :: "string \<Rightarrow> string"
  pgxpool_New :: "string \<Rightarrow> err option"
  redis_ParseURL :: "string \<Rightarrow> err option"
  math_Sin :: "rat \<Rightarrow> rat"
  finnhub_Do :: "string \<Rightarrow> time \<Rightarrow> err + http_resp"
  webhook_Do :: "string \<Rightarrow> payload \<Rightarrow> time \<Rightarrow> err + int"
  http_stack :: http_env

record api_proc =
  Addr :: string
  Handler :: http_env
  Limiter :: limiter
  ReadTimeout :: time
  WriteTimeout :: time

record worker_proc =
  w_env :: wenv
  concurrency :: nat
  client_timeout :: time

text \<open>A process that has ended, with its exit status and what it logged, or one that runs.\<close>

datatype 'p startup = Exited int string err | Running 'p

definition host_md :: "host \<Rightarrow> mdsvc" where
  "host_md h = main_md (math_Sin h) (finnhub_Do h) (Load (os_Getenv h))"

definition api_handler :: "host \<Rightarrow> http_env" where
  "api_handler h = (http_stack h)\<lparr>api_md := host_md h, ui_dir := os_Getenv h ''UI_DIR''\<rparr>"

definition api_server :: "host \<Rightarrow> api_proc" where
  "api_server h =
     (let cfg = Load (os_Getenv h)
      in \<lparr>Addr = '':'' @ Port cfg, Handler = api_handler h, Limiter = api_limiter cfg,
          ReadTimeout = 15 * 1000, WriteTimeout = 30 * 1000\<rparr>)"

definition api_main :: "host \<Rightarrow> world \<Rightarrow> api_proc startup \<times> world" where
  "api_main h w =
     (let cfg = Load (os_Getenv h)
      in case NewPostgres (pgxpool_New h) (DatabaseURL cfg) w of
           (Inl e, w1) \<Rightarrow> (Exited 1 ''postgres connect failed'' e, w1)
         | (Inr _, w1) \<Rightarrow>
             (case NewRedis (redis_ParseURL h) (RedisURL cfg) w1 of
                (Inl e, w2) \<Rightarrow> (Exited 1 ''redis connect failed'' e, w2)
              | (Inr _, w2) \<Rightarrow> (Running (api_server h), w2)))"

definition host_wenv :: "host \<Rightarrow> wenv" where
  "host_wenv h = worker_env (math_Sin h) (finnhub_Do h) (webhook_Do h) (api_lib_text (http_stack h)) (Load (os_Getenv h))"

definition New_worker :: "wenv \<Rightarrow> worker_proc" where
  "New_worker env = \<lparr>w_env = env, concurrency = 4, client_timeout = 8 * 1000\<rparr>"

text \<open>
  \<open>Run\<close> seeds the poller before anything else; an error of that is logged only. The reaper and the loops that
  it then starts are the steps of the running process.
\<close>

definition Worker_Run :: "worker_proc \<Rightarrow> world \<Rightarrow> worker_proc startup \<times> world" where
  "Worker_Run k w = (Running k, snd (seedPoller w))"

definition worker_main :: "host \<Rightarrow> world \<Rightarrow> worker_proc startup \<times> world" where
  "worker_main h w =
     (let cfg = Load (os_Getenv h)
      in case NewPostgres (pgxpool_New h) (DatabaseURL cfg) w of
           (Inl e, w1) \<Rightarrow> (Exited 1 ''postgres connect failed'' e, w1)
         | (Inr _, w1) \<Rightarrow>
             (case NewRedis (redis_ParseURL h) (RedisURL cfg) w1 of
                (Inl e, w2) \<Rightarrow> (Exited 1 ''redis connect failed'' e, w2)
              | (Inr _, w2) \<Rightarrow> Worker_Run (New_worker (host_wenv h)) w2))"

section \<open>The life of a process\<close>

text \<open>
  After its start the API process waits for a signal while a goroutine serves. \<open>ListenAndServe\<close> returns
  \<open>ErrServerClosed\<close> once the server is shut down, and any other error (the port is taken, say) ends the process at once.
\<close>

datatype api_state = Serving | Draining | Stopped int

datatype listen_error = ErrServerClosed | ListenError string

datatype api_event = Listen_returns listen_error | Signal | Shutdown_returns

fun api_next :: "api_state \<Rightarrow> api_event \<Rightarrow> api_state" where
  "api_next (Stopped c) e = Stopped c"
| "api_next s (Listen_returns err) = (if err \<noteq> ErrServerClosed then Stopped 1 else s)"
| "api_next Serving Signal = Draining"
| "api_next Draining Shutdown_returns = Stopped 0"
| "api_next s e = s"

text \<open>The process ends with status 0 only after a signal, and with status 1 only after a failure to listen.\<close>

lemma api_exit_status:
  assumes "foldl api_next Serving es = Stopped c"
  shows "c = 0 \<and> Signal \<in> set es \<or> c = 1 \<and> (\<exists>err. err \<noteq> ErrServerClosed \<and> Listen_returns err \<in> set es)"
proof -
  have s: "foldl api_next (Stopped d) es = Stopped d" for d es by (induction es) simp_all
  have d: "foldl api_next Draining es = Stopped c \<Longrightarrow> c = 0 \<or> c = 1 \<and> (\<exists>err. err \<noteq> ErrServerClosed \<and> Listen_returns err \<in> set es)" for es
  proof (induction es)
    case (Cons e es) then show ?case by (cases e) (auto simp: s split: if_splits)
  qed simp
  show ?thesis using assms
  proof (induction es)
    case (Cons e es) then show ?case by (cases e) (auto simp: s split: if_splits dest: d)
  qed simp
qed

section \<open>Starts\<close>

text \<open>Whether the \<open>n\<close>th external call from now on fails.\<close>

definition call_fails :: "nat \<Rightarrow> world \<Rightarrow> bool" where
  "call_fails n w \<longleftrightarrow> n < length (faults w) \<and> faults w ! n"

lemma ping_run: "ping w = (if call_fails 0 w then Inl ErrIO else Inr (), w\<lparr>faults := tl (faults w)\<rparr>)"
  by (cases "faults w") (auto simp: ping_def ext_def ret_def call_fails_def)

lemma open_run:
  "NewPostgres f url w = (case f url of Some e \<Rightarrow> (Inl (ErrWrap ''connect postgres'' e), w)
     | None \<Rightarrow> (if call_fails 0 w then Inl (ErrWrap ''ping postgres'' ErrIO) else Inr (), w\<lparr>faults := tl (faults w)\<rparr>))"
  "NewRedis f url w = (case f url of Some e \<Rightarrow> (Inl (ErrWrap ''parse redis url'' e), w)
     | None \<Rightarrow> (if call_fails 0 w then Inl (ErrWrap ''ping redis'' ErrIO) else Inr (), w\<lparr>faults := tl (faults w)\<rparr>))"
  by (simp_all add: NewPostgres_def NewRedis_def bindE_def attempt_def ret_def raise_def ping_run split: option.splits)

definition stores_open :: "host \<Rightarrow> world \<Rightarrow> bool" where
  "stores_open h w \<longleftrightarrow>
     pgxpool_New h (DatabaseURL (Load (os_Getenv h))) = None \<and> \<not> call_fails 0 w \<and>
     redis_ParseURL h (RedisURL (Load (os_Getenv h))) = None \<and> \<not> call_fails 1 w"

lemma call_fails_tl [simp]: "call_fails 0 (w\<lparr>faults := tl (faults w)\<rparr>) = call_fails 1 w"
  by (cases "faults w") (auto simp: call_fails_def)

lemma start_cases:
  obtains (ok) w' where "stores_open h w" "w' = w\<lparr>faults := drop 2 (faults w)\<rparr>" "api_main h w = (Running (api_server h), w')"
    "worker_main h w = Worker_Run (New_worker (host_wenv h)) w'"
  | (failed) m e bs where "\<not> stores_open h w" "api_main h w = (Exited 1 m e, w\<lparr>faults := bs\<rparr>)"
    "worker_main h w = (Exited 1 m e, w\<lparr>faults := bs\<rparr>)"
proof -
  let ?pg = "pgxpool_New h (DatabaseURL (Load (os_Getenv h)))"
  let ?rd = "redis_ParseURL h (RedisURL (Load (os_Getenv h)))"
  note run = api_main_def worker_main_def Let_def open_run stores_open_def
  consider "stores_open h w" | e where "?pg = Some e" | "?pg = None" "call_fails 0 w"
    | e where "?pg = None" "\<not> call_fails 0 w" "?rd = Some e" | "?pg = None" "\<not> call_fails 0 w" "?rd = None" "call_fails 1 w"
    by (cases ?pg; cases ?rd) (auto simp: stores_open_def)
  then show thesis
  proof cases
    case 1
    then show thesis by (intro ok [OF _ refl]) (simp_all add: run drop_Suc numeral_2_eq_2)
  next
    case 2
    then show thesis by (intro failed [where bs = "faults w"]) (simp_all add: run)
  next
    case 3
    then show thesis by (intro failed [where bs = "tl (faults w)"]) (simp_all add: run)
  next
    case 4
    then show thesis by (intro failed [where bs = "tl (faults w)"]) (simp_all add: run)
  next
    case 5
    then show thesis by (intro failed [where bs = "tl (tl (faults w))"]) (simp_all add: run)
  qed
qed

text \<open>What the log says of a start that failed.\<close>

definition failed_store :: "host \<Rightarrow> world \<Rightarrow> string" where
  "failed_store h w =
     (if pgxpool_New h (DatabaseURL (Load (os_Getenv h))) \<noteq> None \<or> call_fails 0 w
      then ''postgres connect failed'' else ''redis connect failed'')"

text \<open>
  C31. Starting the processes. Both programs start exactly when both URLs parse and both stores answer the ping; they then
  serve with the configuration of the environment, and the worker has seeded the poller and runs four
  loops. Otherwise they end with exit status 1 and leave the database and Redis as they
  were. The log names the store that failed, and PostgreSQL is tried first.
\<close>
theorem startup_outcome:
  "(if stores_open h w then
      fst (api_main h w) = Running (api_server h) \<and> fst (worker_main h w) = Running (New_worker (host_wenv h)) \<and>
      snd (api_main h w) = w\<lparr>faults := drop 2 (faults w)\<rparr> \<and>
      snd (worker_main h w) = snd (seedPoller (snd (api_main h w)))
    else \<exists>e w'. api_main h w = (Exited 1 (failed_store h w) e, w') \<and> worker_main h w = (Exited 1 (failed_store h w) e, w') \<and>
      wdb w' = wdb w \<and> wredis w' = wredis w \<and> clock w' = clock w)"
proof (cases rule: start_cases [of h w])
  case (ok w')
  then show ?thesis by (simp add: Worker_Run_def)
next
  case (failed m e bs)
  moreover have "m = failed_store h w"
    using failed(2) by (auto simp: failed_store_def api_main_def Let_def open_run split: option.splits if_splits)
  ultimately show ?thesis by simp
qed

section \<open>A deployment\<close>





subsection \<open>Simulation by the platform\<close>









section \<open>What a deployment relies on\<close>







section \<open>A sample deployment\<close>







end
