(* ===== verification/Load_Client.thy ===== *)
theory Load_Client
  imports Load_Test Platform
begin

text \<open>
  The second check of \<open>loadtest/main.go\<close> as a program that talks to a running platform: it opens a portfolio, buys 100 shares,
  polls until the purchase is filled, sells the whole position five times concurrently, polls every
  sell and looks at the final position.

  \<open>lt_host\<close> holds what the client runs against: the HTTP stack of the server it reaches, its own address, \<open>uuid_String\<close> (the text of a
  UUID in JSON, \<open>google/uuid\<close>), what the rest of the platform does before the \<open>n\<close>th request of the client (\<open>sched\<close>: workers, other clients,
  the time the client sleeps), and whether that request gets through (\<open>link\<close>). The server the client
  talks to is the first API process of the platform. The five concurrent requests arrive in some order \<open>arrivals\<close>.
\<close>

section \<open>The client\<close>

datatype delivery = Answered | Answer_lost | Unsent

record lt_host =
  lt_api :: http_env
  lt_addr :: string
  uuid_String :: "uuid \<Rightarrow> string"
  sched :: "nat \<Rightarrow> platform \<Rightarrow> platform"
  link :: "nat \<Rightarrow> delivery"

type_synonym lt_state = "nat \<times> platform"

definition send :: "lt_host \<Rightarrow> request \<Rightarrow> lt_state \<Rightarrow> response option \<times> lt_state" where
  "send h r st =
     (case st of (n, s) \<Rightarrow>
        (case sched h n s of
           (w, []) \<Rightarrow> (None, Suc n, (w, []))
         | (w, l # ls) \<Rightarrow>
             (if link h n = Unsent then (None, Suc n, (w, l # ls))
              else (case NewRouter (lt_api h) l r w of
                      (resp, l', w') \<Rightarrow> (if link h n = Answered then Some resp else None, Suc n, (w', l' # ls))))))"

definition lt_post :: "lt_host \<Rightarrow> string \<Rightarrow> json \<Rightarrow> lt_state \<Rightarrow> response option \<times> lt_state" where
  "lt_post h path body =
     send h (client_request (lt_addr h) ''POST'' path ((\<lambda>k. [])(''Content-Type'' := ''application/json'')) (Some body))"

definition lt_get :: "lt_host \<Rightarrow> string \<Rightarrow> lt_state \<Rightarrow> response option \<times> lt_state" where
  "lt_get h path = send h (client_request (lt_addr h) ''GET'' path (\<lambda>k. []) None)"

text \<open>
  \<open>json.Unmarshal\<close> of an answer into the structs of the client: a field that the document does not have stays
  empty, as it does when there is no answer.
\<close>

definition answer_id :: "lt_host \<Rightarrow> response option \<Rightarrow> string" where
  "answer_id h a =
     (case map_option content a of
        Some (BPortfolio i _ _) \<Rightarrow> uuid_String h i
      | Some (BOrder ord) \<Rightarrow> uuid_String h (order_id ord)
      | Some (BId i) \<Rightarrow> uuid_String h i
      | _ \<Rightarrow> [])"

definition answer_status :: "response option \<Rightarrow> string" where
  "answer_status a = (case map_option content a of Some (BOrder ord) \<Rightarrow> order_status ord | _ \<Rightarrow> [])"

definition answer_positions :: "response option \<Rightarrow> position list" where
  "answer_positions a = (case map_option content a of Some (BView v) \<Rightarrow> view_positions v | _ \<Rightarrow> [])"

definition lt_placeOrder :: "lt_host \<Rightarrow> string \<Rightarrow> string \<Rightarrow> string \<Rightarrow> int \<Rightarrow> string \<Rightarrow> lt_state \<Rightarrow> string \<times> lt_state" where
  "lt_placeOrder h pfID sd symb qty typ st =
     (case lt_post h ''/v1/orders'' (JObj [(''instrument'', JStr symb), (''portfolio_id'', JStr pfID), (''quantity'', JInt qty),
         (''side'', JStr sd), (''type'', JStr typ)]) st of
        (a, st') \<Rightarrow> (answer_id h a, st'))"

definition lt_orderStatus :: "lt_host \<Rightarrow> string \<Rightarrow> lt_state \<Rightarrow> string \<times> lt_state" where
  "lt_orderStatus h i st = (case lt_get h (''/v1/orders/'' @ i) st of (a, st') \<Rightarrow> (answer_status a, st'))"

fun poll_filled :: "nat \<Rightarrow> lt_host \<Rightarrow> string \<Rightarrow> lt_state \<Rightarrow> bool \<times> lt_state" where
  "poll_filled 0 h i st = (False, st)"
| "poll_filled (Suc n) h i st =
     (case lt_orderStatus h i st of (s, st') \<Rightarrow> if s = ''filled'' then (True, st') else poll_filled n h i st')"

fun poll_resolved :: "nat \<Rightarrow> lt_host \<Rightarrow> string \<Rightarrow> lt_state \<Rightarrow> string \<times> lt_state" where
  "poll_resolved 0 h i st = (''pending'', st)"
| "poll_resolved (Suc n) h i st =
     (case lt_orderStatus h i st of (s, st') \<Rightarrow> if s \<noteq> ''pending'' then (s, st') else poll_resolved n h i st')"

text \<open>The concurrent sells: each goroutine stores the identifier it got under its own index.\<close>

fun place_sells :: "lt_host \<Rightarrow> string \<Rightarrow> nat list \<Rightarrow> lt_state \<Rightarrow> (nat \<times> string) list \<times> lt_state" where
  "place_sells h pfID [] st = ([], st)"
| "place_sells h pfID (k # ks) st =
     (case lt_placeOrder h pfID ''sell'' ''RELIANCE'' 100 ''market'' st of
        (i, st1) \<Rightarrow> (case place_sells h pfID ks st1 of (rest, st2) \<Rightarrow> ((k, i) # rest, st2)))"

definition sell_ids :: "(nat \<times> string) list \<Rightarrow> string list" where
  "sell_ids placed = map (\<lambda>k. case map_of placed k of Some i \<Rightarrow> i | None \<Rightarrow> []) [0..<5]"

fun resolve_all :: "lt_host \<Rightarrow> string list \<Rightarrow> lt_state \<Rightarrow> string list \<times> lt_state" where
  "resolve_all h [] st = ([], st)"
| "resolve_all h (i # ids) st =
     (case poll_resolved 50 h i st of
        (s, st1) \<Rightarrow> (case resolve_all h ids st1 of (rest, st2) \<Rightarrow> (s # rest, st2)))"

text \<open>What the check found out: where it stopped, or the orders, the number of sells filled and rejected and the final position.\<close>

datatype report =
    No_portfolio
  | Buy_unfilled
  | Sold (rep_pf: string) (rep_buy: string) (rep_sells: "string list") (rep_filled: nat) (rep_rejected: nat) (rep_position: int)

definition concurrency_report :: "lt_host \<Rightarrow> nat list \<Rightarrow> lt_state \<Rightarrow> report \<times> lt_state" where
  "concurrency_report h arrivals st =
     (case lt_post h ''/v1/portfolios'' (JObj [(''name'', JStr ''loadtest''), (''seed_paise'', JInt 100000000)]) st of
        (a, st1) \<Rightarrow>
          let pf = answer_id h a
          in if pf = [] then (No_portfolio, st1)
             else (case lt_placeOrder h pf ''buy'' ''RELIANCE'' 100 ''market'' st1 of
               (buy, st2) \<Rightarrow>
                 (case poll_filled 50 h buy st2 of
                    (False, st3) \<Rightarrow> (Buy_unfilled, st3)
                  | (True, st3) \<Rightarrow>
                      (case place_sells h pf arrivals st3 of
                         (placed, st4) \<Rightarrow>
                           let ids = sell_ids placed
                           in case resolve_all h ids st4 of
                                (sts, st5) \<Rightarrow>
                                  (case lt_get h (''/v1/portfolios/'' @ pf) st5 of
                                     (v, st6) \<Rightarrow>
                                       (Sold pf buy ids (length (filter (\<lambda>s. s = ''filled'' \<or> s = ''settled'') sts))
                                          (length (filter (\<lambda>s. s = ''rejected'') sts)) (last_position (answer_positions v)), st6))))))"

definition concurrencyTest :: "lt_host \<Rightarrow> nat list \<Rightarrow> lt_state \<Rightarrow> bool" where
  "concurrencyTest h arrivals st =
     (case fst (concurrency_report h arrivals st) of
        No_portfolio \<Rightarrow> False
      | Buy_unfilled \<Rightarrow> False
      | Sold pf buy ids filled rejected position \<Rightarrow>
          (if filled \<noteq> 1 then False else if position < 0 then False else True))"

text \<open>The exit status of the program, from the results of the two checks.\<close>

definition lt_main :: "bool \<Rightarrow> bool \<Rightarrow> int" where
  "lt_main ok1 ok2 = (if ok1 \<and> ok2 then 0 else 1)"

end
