(* ===== verification/Served_Views.thy ===== *)
theory Served_Views
  imports Ledger_Invariants
begin

text \<open>
  What clients see of a portfolio. A current view comes from the snapshot in Redis or is computed from the
  ledger. In every state of the platform, each snapshot shows the ledger of its portfolio as it was after some number of
  its events, never an amount that was not there; so every view that is served does, whichever calls fail,
  although a snapshot can be out of date (its invalidation can fail).
\<close>

section \<open>Views of an event stream\<close>

definition shows_events :: "entry list \<Rightarrow> portfolio_view \<Rightarrow> bool" where
  "shows_events es v \<longleftrightarrow> view_cash v = net es CASH \<and>
     (\<lambda>p. (pos_instrument p, pos_quantity p)) ` set (view_positions v) = {(i, net es i) |i. i \<noteq> CASH \<and> net es i \<noteq> 0}"

text \<open>The view of a portfolio after the first events, where no balance is negative.\<close>

definition view_true :: "db \<Rightarrow> uuid \<Rightarrow> portfolio_view \<Rightarrow> bool" where
  "view_true d i v \<longleftrightarrow> view_portfolio v = i \<and>
     (\<exists>es ds. portfolio_entries i None d = es @ ds \<and> (\<forall>j. 0 \<le> net es j) \<and> shows_events es v)"

lemma positions_loop_rows:
  assumes "positions_loop m h ps tot w = (Inr (qs, mv), w')"
  shows "map (\<lambda>p. (pos_instrument p, pos_quantity p)) qs = map (\<lambda>p. (pos_instrument p, pos_quantity p)) ps @ filter held h"
  using assms
proof (induction h arbitrary: ps tot w)
  case (Cons x h)
  obtain i qty where x: "x = (i, qty)" by fastforce
  show ?case
  proof (cases "held x")
    case True
    then obtain p tot' w1 where "positions_loop m h (ps @ [p]) tot' w1 = (Inr (qs, mv), w')" "pos_instrument p = i" "pos_quantity p = qty"
      using Cons.prems by (auto simp: x held_def Let_def elim!: bindE_InrE)
    from Cons.IH [OF this(1)] True this(2,3) show ?thesis by (simp add: x)
  next
    case False
    then show ?thesis using Cons.IH [of ps tot w] Cons.prems by (auto simp: x held_def)
  qed
qed (simp add: run_simps)

lemma compute_view_shows:
  assumes "compute_view m i None w = (Inr v, w')"
  shows "view_portfolio v = i \<and> shows_events (portfolio_entries i None (wdb w)) v"
proof -
  obtain h w1 ps mv w2 where hold: "Holdings i None w1 = (Inr h, w2)" "wdb w1 = wdb w"
    and loop: "positions_loop m h [] 0 w2 = (Inr (ps, mv), w')"
    and v: "view_portfolio v = i" "view_cash v = map_at h CASH" "view_positions v = sort_key pos_instrument ps"
    using assms
    by (auto simp: compute_view_def Portfolio_Exists_def timeNow_def raise_def ret_def elim!: bindE_InrE sql_InrE
        split: if_splits prod.splits)
  let ?es = "portfolio_entries i None (wdb w)"
  have h: "h = map (\<lambda>i. (i, net ?es i)) (remdups (map entry_instrument ?es))"
    using hold by (auto simp: Holdings_def q_holdings_def Let_def elim!: sql_InrE split: if_splits)
  have "(\<lambda>p. (pos_instrument p, pos_quantity p)) ` set ps = set (filter held h)"
    using arg_cong [OF positions_loop_rows [OF loop], of set] by simp
  then show ?thesis using held_rows [of ?es] v by (simp add: shows_events_def h map_at_rows)
qed

section \<open>Events are only appended\<close>

definition appended :: "db \<Rightarrow> db \<Rightarrow> bool" where
  "appended d0 d \<longleftrightarrow> (\<exists>ds. entries d = entries d0 @ ds)"

interpretation append_only: trading_law "appended d0" for d0
  by unfold_locales
     (auto simp: appended_def trade_db_all_entries set_status_db_def outbox_db_def open_db_def post_entry_def Let_def)

lemma view_true_appended:
  assumes "view_true d i v" and "appended d d'"
  shows "view_true d' i v"
proof -
  obtain ds where "portfolio_entries i None d' = portfolio_entries i None d @ ds"
    using assms(2) by (auto simp: appended_def portfolio_entries_def)
  with assms(1) show ?thesis unfolding view_true_def by (metis append.assoc)
qed

section \<open>Snapshots in Redis\<close>

text \<open>No snapshot beyond those of an earlier state.\<close>

definition old_snaps :: "redis \<Rightarrow> world \<Rightarrow> bool" where
  "old_snaps r w \<longleftrightarrow> (\<forall>i v t. wredis w (snapKey i) = Some (RSnapshot v, t) \<longrightarrow> (\<exists>t. r (snapKey i) = Some (RSnapshot v, t)))"

lemma old_snaps_wdb [simp]: "old_snaps r (w\<lparr>wdb := d\<rparr>) = old_snaps r w" "old_snaps r (w\<lparr>faults := bs\<rparr>) = old_snaps r w"
  by (simp_all add: old_snaps_def)

lemma keeps_old_snaps [keeps_intros]:
  "keeps (old_snaps r) (sql q)" "keeps (old_snaps r) uuid_New" "keeps (old_snaps r) (redis_get k)"
  "keeps (old_snaps r) (redis_set (quoteKey s) v ttl)" "keeps (old_snaps r) (redis_set (cfgKey s) v ttl)"
  "keeps (old_snaps r) (redis_del k)"
  by (auto simp: keeps_def old_snaps_def sql_def ext_def uuid_New_def redis_get_def redis_set_def redis_del_def
      split: list.splits sum.splits)

lemma keeps_old_snaps_runTx [keeps_intros]:
  assumes "keeps (old_snaps r) fn"
  shows "keeps (old_snaps r) (runTx fn)"
proof -
  have ext: "old_snaps r v' = old_snaps r v" if "ext (ret x) v = (y, v')" for x y v v'
    using that by (auto simp: ext_def ret_def split: list.splits if_splits)
  show ?thesis
    using assms
    by (auto simp: keeps_def runTx_def rollback_def split: prod.splits sum.splits dest!: ext)
qed

lemma keeps_old_snaps_quotes [keeps_intros]:
  "keeps (old_snaps r) (MD_Quote m s)" "keeps (old_snaps r) (Refresh m s)"
  unfolding MD_Quote_def Refresh_def GetQuote_def SetQuote_def Let_def
  by (auto intro!: keeps_intros split: sum.splits option.splits rval.splits)

lemma keeps_old_snaps_loops [keeps_intros]:
  "keeps (old_snaps r) (refresh_loop m ss ps)" "keeps (old_snaps r) (fire_loop qs as)"
  "keeps (old_snaps r) (stocks_loop m sts)"
proof -
  show "keeps (old_snaps r) (refresh_loop m ss ps)"
    by (induction ss arbitrary: ps) (auto intro!: keeps_intros split: sum.splits)
  show "keeps (old_snaps r) (fire_loop qs as)"
    by (induction as) (auto intro!: keeps_intros simp: Enqueue_def MarkTriggered_def split: option.splits sum.splits)
  show "keeps (old_snaps r) (stocks_loop m sts)"
    by (induction sts) (auto intro!: keeps_intros split: sum.splits)
qed

lemma keeps_old_snaps_worker:
  "keeps (old_snaps r) (worker_turn env)" "keeps (old_snaps r) reaper_turn" "keeps (old_snaps r) seedPoller"
  unfolding worker_turn_def process_def finish_def dispatch_def handleExecuteOrder_def handleSettle_def handlePollQuotes_def
    handleAlertWebhook_def ExecuteOrder_def execute_priced_def reject_def fill_tx_def book_trade_def Let_def
    Claim_def Complete_def Retry_def MoveToDead_def LockForUpdate_def Holdings_def SetStatus_def Entry_Insert_def BumpSeq_def
    SetFilled_def Enqueue_def InvalidateSnapshot_def Order_Get_def DistinctSymbols_def Alert_Symbols_def ListActive_def
    reaper_turn_def ReapExpired_def seedPoller_def HasActive_def
  by (auto intro!: keeps_intros split: payload.splits sum.splits option.splits)

lemma keeps_old_snaps_positions: "keeps (old_snaps r) (positions_loop m h ps tot)"
  by (induction h arbitrary: ps tot rule: list.induct) (auto intro!: keeps_intros simp: Let_def split: prod.splits)

lemma keeps_old_snaps_view: "keeps (old_snaps r) (compute_view m i t)"
  unfolding compute_view_def Portfolio_Exists_def Holdings_def
  by (auto intro!: keeps_intros keeps_old_snaps_positions split: prod.splits)

lemma serve_old_snaps:
  assumes "ep \<noteq> Portfolio_get"
  shows "hkeeps (old_snaps r) (serve env l ep rq)"
proof -
  have s: "keeps (old_snaps r) (CreatePortfolio name seed)" "keeps (old_snaps r) (PlaceOrder req)" "keeps (old_snaps r) (CancelOrder i)"
    "keeps (old_snaps r) (GetOrder i)" "keeps (old_snaps r) (History i)" "keeps (old_snaps r) (AlertService_Create a)"
    "keeps (old_snaps r) QueueService_Stats" "keeps (old_snaps r) (QueueService_ListDead n)" "keeps (old_snaps r) (QueueService_Replay i)"
    "keeps (old_snaps r) (Stocks m)" "keeps (old_snaps r) (Trending m n)"
    "keeps (old_snaps r) (GetConfig l k)" "keeps (old_snaps r) (SetConfig k c)" for name seed req i a n m l k c
    unfolding CreatePortfolio_def PlaceOrder_def place_new_def find_existing_def outbox_tx_def CancelOrder_def GetOrder_def
      History_def AlertService_Create_def QueueService_Stats_def QueueService_ListDead_def QueueService_Replay_def Stocks_def Trending_def
      GetConfig_def SetConfig_def Let_def Portfolio_Create_def LockForUpdate_def Entry_Insert_def BumpSeq_def Portfolio_Exists_def GetByIdempotencyKey_def
      Order_Create_def Order_Get_def Enqueue_def SetStatus_def Entry_List_def ListByPortfolio_def Alert_Create_def Stats_def ListDead_def Replay_def
    by (auto intro!: keeps_intros split: sum.splits option.splits rval.splits prod.splits)
  show ?thesis
    using assms by (cases ep) (auto simp: handler_defs Let_def intro!: hkeeps_intros keeps_old_snaps_quotes s split: option.splits prod.splits)
qed

lemma Allow_old_snaps:
  assumes "old_snaps r w" and "Allow l key w = (res, l', w')"
  shows "old_snaps r w'"
proof -
  obtain c w1 where g: "GetConfig l key w = (c, w1)" by fastforce
  have k: "keeps (old_snaps r) (GetConfig l key)"
    unfolding GetConfig_def by (auto intro!: keeps_intros split: option.splits rval.splits)
  have 1: "old_snaps r w1" using keepsD [OF k assms(1) g] .
  have t: "tokenBucket (bucketKey key) rt b now w1 = (x, v) \<Longrightarrow> old_snaps r v" for rt b now x v
    using 1 by (auto simp: tokenBucket_def ext_def pexpire_def Let_def old_snaps_def split: list.splits option.splits rval.splits prod.splits if_splits)
  have s: "slidingWindow (bucketKey key) now win lim mem w1 = (x, v) \<Longrightarrow> old_snaps r v" for now win lim mem x v
    using 1 by (auto simp: slidingWindow_def ext_def pexpire_def Let_def old_snaps_def split: list.splits option.splits prod.splits if_splits)
  show ?thesis
    using assms(2) g 1 by (auto simp: Allow_def Let_def split: sum.splits if_splits prod.splits dest: t s)
qed

section \<open>Every snapshot is true\<close>

definition view_inv :: "world \<Rightarrow> bool" where
  "view_inv w \<longleftrightarrow> ledger_inv (wdb w) \<and>
     (\<forall>i v t. wredis w (snapKey i) = Some (RSnapshot v, t) \<longrightarrow> view_true (wdb w) i v)"

lemma view_true_now:
  assumes "ledger_inv d" and "view_portfolio v = i" and "shows_events (portfolio_entries i None d) v"
  shows "view_true d i v"
  using assms unfolding view_true_def
  by (intro conjI exI [of _ "portfolio_entries i None d"] exI [of _ "[]"]) (auto simp: ledger_inv_def balances_ok_def balance_def)

lemma view_inv_step:
  assumes "view_inv w" and "ledger_inv (wdb w') \<and> appended (wdb w) (wdb w')" and "old_snaps (wredis w) w'"
  shows "view_inv w'"
  using assms view_true_appended by (fastforce simp: view_inv_def old_snaps_def)

lemma view_inv_same: "view_inv w \<Longrightarrow> wdb w' = wdb w \<Longrightarrow> old_snaps (wredis w) w' \<Longrightarrow> view_inv w'"
  by (rule view_inv_step) (simp_all add: view_inv_def appended_def)

lemma start_kept: "view_inv w \<Longrightarrow> (ledger_inv (wdb w) \<and> appended (wdb w) (wdb w)) \<and> old_snaps (wredis w) w"
  by (auto simp: view_inv_def appended_def old_snaps_def)

lemma view_inv_keeps:
  assumes "keeps (on_tables (\<lambda>d. ledger_inv d \<and> appended (wdb w) d)) m" and "keeps (old_snaps (wredis w)) m" and "view_inv w"
  shows "view_inv (snd (m w))"
  using view_inv_step [OF assms(3), of "snd (m w)"] start_kept [OF assms(3)] assms(1,2) by (simp add: keeps_def on_tables_def)

lemma Portfolio_true:
  assumes inv: "view_inv w" and run: "Portfolio m i t w = (r, w')"
  shows "view_inv w' \<and> (t = None \<longrightarrow> r = Inr v \<longrightarrow> view_true (wdb w) i v)"
proof -
  have db: "wdb w' = wdb w" by (rule keeps_all_wdb [OF keeps_Portfolio run])
  have old: "old_snaps (wredis w) w" using start_kept [OF inv] by simp
  show ?thesis
  proof (cases t)
    case (Some now)
    then have "compute_view m i t w = (r, w')" using run by (simp add: Portfolio_def)
    from view_inv_same [OF inv db keepsD [OF keeps_old_snaps_view old this]] Some show ?thesis by simp
  next
    case None
    obtain g w1 where g: "GetSnapshot i w = (g, w1)" by fastforce
    have old1: "old_snaps (wredis w) w1" and db1: "wdb w1 = wdb w"
      using g old by (auto simp: GetSnapshot_def bindE_def redis_get_def ext_def raise_def ret_def
          split: list.splits option.splits rval.splits if_splits)
    show ?thesis
    proof (cases g)
      case (Inr u)
      then have u: "wredis w (snapKey i) = Some (RSnapshot u, None) \<or> (\<exists>x. wredis w (snapKey i) = Some (RSnapshot u, Some x))"
        using g by (auto simp: GetSnapshot_def bindE_def redis_get_def ext_def raise_def ret_def rlive_def
            split: list.splits option.splits rval.splits if_splits)
      have "r = Inr u" "w' = w1" using run None g Inr by (simp_all add: Portfolio_def bindE_def attempt_def run_simps)
      with u inv view_inv_same [OF inv db] old1 show ?thesis by (auto simp: view_inv_def)
    next
      case (Inl e)
      obtain c w2 where c: "compute_view m i None w1 = (c, w2)" by fastforce
      have old2: "old_snaps (wredis w) w2" by (rule keepsD [OF keeps_old_snaps_view old1 c])
      show ?thesis
      proof (cases c)
        case (Inl e')
        with run None g c \<open>g = Inl e\<close> have "r = Inl e'" "w' = w2" by (simp_all add: Portfolio_def bindE_def attempt_def run_simps)
        with view_inv_same [OF inv db] old2 show ?thesis by simp
      next
        case (Inr u)
        have "view_true (wdb w) i u"
          using compute_view_shows [of m i w1 u w2] c Inr db1 inv by (intro view_true_now) (simp_all add: view_inv_def)
        moreover from this have "view_portfolio u = i" by (simp add: view_true_def)
        moreover have "r = Inr u" and "w' = snd (SetSnapshot u w2)"
          using run None g c \<open>g = Inl e\<close> Inr by (auto simp: Portfolio_def bindE_def attempt_def run_simps split: prod.splits)
        ultimately show ?thesis
          using inv db old2
          by (auto simp: view_inv_def old_snaps_def SetSnapshot_def redis_set_def ext_def split: list.splits if_splits)
      qed
    qed
  qed
qed

lemma serve_view_inv: "hkeeps view_inv (serve env l ep r)"
proof (cases "ep = Portfolio_get")
  case True
  have "keeps view_inv (Portfolio m i t)" for m i t
    unfolding keeps_def using Portfolio_true by (metis prod.collapse)
  with True show ?thesis by (auto simp: portfolio_get_def Let_def intro!: hkeeps_intros split: option.splits)
next
  case False
  show ?thesis
    unfolding hkeeps_def
  proof (intro allI impI)
    fix w assume inv: "view_inv w"
    show "view_inv (snd (serve env l ep r w))"
      using view_inv_step [OF inv, of "snd (serve env l ep r w)"] start_kept [OF inv]
        append_only.serve_keeps [of "wdb w" env l ep r] serve_old_snaps [OF False, of "wredis w" env l r]
      by (simp add: hkeeps_def on_tables_def)
  qed
qed

lemma router_view_inv:
  assumes "view_inv w" and "NewRouter env l r w = (resp, l', w')"
  shows "view_inv w'"
proof -
  have h: "hkeeps view_inv (\<lambda>w. case ep of None \<Rightarrow> (unmatched env, w) | Some e \<Rightarrow> serve env l e r' w)" for ep r'
    using serve_view_inv by (auto simp: hkeeps_def split: option.splits)
  have "view_inv w2" if "RateLimit l (\<lambda>w. case ep of None \<Rightarrow> (unmatched env, w) | Some e \<Rightarrow> serve env l e r' w) r w = (p, l2, w2)" for ep r' p l2 w2
  proof -
    obtain a l1 w1 where al: "Allow l (client_key r) w = (a, l1, w1)" by (metis prod_cases3)
    have "view_inv w1"
      using view_inv_same [OF assms(1) Allow_wdb [OF al] Allow_old_snaps [OF _ al]] start_kept [OF assms(1)] by simp
    with h that al show ?thesis
      by (auto simp: RateLimit_def hkeeps_def split: sum.splits if_splits prod.splits) (metis snd_conv)+
  qed
  with assms show ?thesis
    by (auto simp: NewRouter_def corsAllowAll_def Let_def split: if_splits prod.splits target.splits)
qed

interpretation platform_views: step_system "platform_step api env" "\<lambda>s. view_inv (fst s)" for api env
proof
  fix s t assume inv: "view_inv (fst s)" and "platform_step api env s t"
  note tables = append_only.keeps_worker_turn [OF append_only.keeps_ExecuteOrder_p append_only.keeps_settle]
  from \<open>platform_step api env s t\<close> show "view_inv (fst t)"
  proof cases
    case (request l r w resp l' w' ls ms)
    with inv router_view_inv show ?thesis by simp
  next
    case (work w ls)
    with inv view_inv_keeps [OF tables keeps_old_snaps_worker(1)] show ?thesis by simp
  next
    case (reap w ls)
    with inv view_inv_keeps [OF append_only.keeps_turns(1) keeps_old_snaps_worker(2)] show ?thesis by simp
  next
    case (seed w ls)
    with inv view_inv_keeps [OF append_only.keeps_turns(2) keeps_old_snaps_worker(3)] show ?thesis by simp
  next
    case (pass n w ls bs)
    with inv show ?thesis by (simp add: view_inv_def)
  qed
qed

lemma reachable_views:
  assumes "fresh_world w" and "(platform_step api env)\<^sup>*\<^sup>* (w, ls) (w', ls')"
  shows "view_inv w'"
proof -
  have "view_inv w" using assms(1) ledger_inv_empty by (simp add: fresh_world_def view_inv_def)
  with platform_views.steps_inv [OF assms(2)] show ?thesis by simp
qed

text \<open>
  C16. Clients see the ledger. In every state that the platform reaches from empty stores, whichever calls failed and
  fail now: a current view of a portfolio, from the snapshot cache or computed, shows the cash and exactly
  the positions that the first so many events of the portfolio's stream add up to, and there no amount is negative. A view
  can be behind the ledger, but it never shows a state that the portfolio did not have.
\<close>
theorem views_show_ledger:
  assumes "fresh_world w" and "(platform_step api env)\<^sup>*\<^sup>* (w, ls) (w', ls')" and "Portfolio m i None w' = (Inr v, w'')"
  shows "view_portfolio v = i \<and> (\<exists>es ds. portfolio_entries i None (wdb w') = es @ ds \<and> (\<forall>j. 0 \<le> net es j) \<and>
    view_cash v = net es CASH \<and>
    (\<lambda>p. (pos_instrument p, pos_quantity p)) ` set (view_positions v) = {(j, net es j) |j. j \<noteq> CASH \<and> net es j \<noteq> 0})"
  using Portfolio_true [OF reachable_views [OF assms(1,2)] assms(3), of v] by (simp add: view_true_def shows_events_def)

theorem views_show_ledger_witness:
  "\<exists>v w''. Portfolio sample_md 100 None (fst shop_sys) = (Inr v, w'') \<and> view_cash v = 500 \<and>
     (\<exists>es ds. portfolio_entries 100 None (wdb (fst shop_sys)) = es @ ds \<and> (\<forall>j. 0 \<le> net es j) \<and> net es CASH = 500)"
proof -
  have "map_sum (\<lambda>_. ()) view_cash (fst (Portfolio sample_md 100 None (fst shop_sys))) = Inr 500" by code_simp
  then obtain v w'' where v: "Portfolio sample_md 100 None (fst shop_sys) = (Inr v, w'')" "view_cash v = 500"
    by (cases "Portfolio sample_md 100 None (fst shop_sys)"; cases "fst (Portfolio sample_md 100 None (fst shop_sys))") auto
  from views_show_ledger [OF shop_fresh shop_reachable [of sample_env] v(1)] v show ?thesis by auto
qed

end
