(* ===== verification/Recovery.thy ===== *)
theory Recovery
  imports Platform
begin

text \<open>
  Crash recovery. A worker that dies leaves its job \<open>inflight\<close> under a lease. Once the lease has run out, one run of the reaper makes the job available again
  or moves it to the dead letters, so that no accepted order depends on a process that is gone.
\<close>

section \<open>A run of the reaper\<close>









end
