(* ===== verification/Redis_Keys.thy ===== *)
theory Redis_Keys
  imports Store
begin

text \<open>
  The keys of Redis as text: \<open>quoteKey\<close> and \<open>snapKey\<close> of \<open>internal/cache/cache.go\<close>, \<open>cfgKey\<close> and \<open>bucketKey\<close> of
  \<open>internal/ratelimit/ratelimit.go\<close>. Symbols and client keys are arbitrary text, chosen by clients. The four prefixes keep the families
  apart whatever follows them, so that the constructors of the type \<open>rkey\<close> are a faithful picture of the keys.
\<close>

definition cache_key_text :: "(uuid \<Rightarrow> string) \<Rightarrow> rkey \<Rightarrow> string" where
  "cache_key_text uuid_text k =
     (case k of quoteKey symb \<Rightarrow> ''quote:'' @ symb | snapKey i \<Rightarrow> ''snap:'' @ uuid_text i | _ \<Rightarrow> [])"

definition limit_key_text :: "rkey \<Rightarrow> string" where
  "limit_key_text k = (case k of cfgKey key \<Rightarrow> ''rlcfg:'' @ key | bucketKey key \<Rightarrow> ''rlbucket:'' @ key | _ \<Rightarrow> [])"

definition redis_key_text :: "(uuid \<Rightarrow> string) \<Rightarrow> rkey \<Rightarrow> string" where
  "redis_key_text uuid_text k =
     (case k of quoteKey _ \<Rightarrow> cache_key_text uuid_text k | snapKey _ \<Rightarrow> cache_key_text uuid_text k | _ \<Rightarrow> limit_key_text k)"

lemma redis_key_text_inj:
  assumes "inj uuid_text"
  shows "inj (redis_key_text uuid_text)"
proof (rule injI)
  fix x y assume "redis_key_text uuid_text x = redis_key_text uuid_text y"
  with assms show "x = y"
    by (cases x; cases y) (auto simp: redis_key_text_def cache_key_text_def limit_key_text_def dest: injD)
qed

end
