(* ===== verification/Spec2Isabelle.thy ===== *)
theory Spec2Isabelle
  imports Trading_Concurrency Market_Data_Properties Rate_Limit_Properties Http_Properties Load_Test_Properties
    Startup Load_Client_Properties Recovery Redis_Keys
begin

text \<open>
  \<^bold>\<open>Verification of Bourse, a paper-trading platform written in Go.\<close>

  \<^bold>\<open>The program.\<close> An API process (\<open>cmd/api\<close>) accepts HTTP requests: portfolios, orders, quotes, price
  alerts, administration of the queue and of the rate limits. It writes orders together with an execution job
  into PostgreSQL. Worker processes (\<open>cmd/worker\<close>) claim jobs from that database under a lease, execute
  orders against a market price by appending two ledger entries, settle them a day later, poll
  quotes and send webhooks; a reaper takes back expired leases. Redis holds quotes, portfolio
  snapshots and the state of the rate limiter. All balances are derived from the append-only ledger.

  \<^bold>\<open>Theories and the code they model\<close> (paths under \<open>src/Bourse\<close>).
  \<^item> \<open>Prelude\<close>: \<open>int64\<close> arithmetic with wrap-around, tables as lists of rows, the locale \<open>step_system\<close> for
    invariants of transition systems. \<open>Model\<close>: \<open>internal/model/model.go\<close>, the rows of the schema, the errors.
  \<^item> \<open>Store\<close>: the \<open>Querier\<close> of \<open>internal/store\<close> and \<open>runTx\<close>; the record \<open>world\<close> (tables, Redis, clock, random source, fault
    plan), operations of type \<open>'a io\<close>, transactions with rollback, and the predicate \<open>keeps\<close> with its rules.
    \<open>Redis_Keys\<close>: the keys of Redis as text, and that different keys have different texts.
  \<^item> \<open>Ledger_Repository\<close>, \<open>Job_Repository\<close>: \<open>internal/repository\<close>, one function on the tables per SQL
    statement (\<open>q_..\<close>), one operation per method. The locale \<open>posting\<close> is what appending an entry promises.
  \<^item> \<open>Go_Float\<close>, \<open>Go_Text\<close>: what the code uses of Go's standard library: rounding to a 53-bit significand,
    \<open>strconv\<close>, \<open>path/filepath.Clean\<close>, decoding of JSON values into structs.
  \<^item> \<open>Market_Data\<close> (\<open>internal/marketdata\<close>, locale \<open>price_provider\<close>, interpreted on the stub and on the Finnhub client),
    \<open>Cache\<close> (\<open>internal/cache\<close>), \<open>Market_Data_Service\<close> (\<open>internal/service/marketdata_service.go\<close>).
  \<^item> \<open>Trading_Service\<close>: \<open>internal/service/trading_service.go\<close>. \<open>Worker\<close>: \<open>internal/worker/worker.go\<close>.
  \<^item> \<open>Rate_Limit\<close>: \<open>internal/ratelimit\<close> with its two Lua scripts.
  \<^item> \<open>Http_Api\<close>: \<open>internal/service/{alert,queue}_service.go\<close>, \<open>internal/controller\<close>, \<open>internal/middleware\<close>,
    \<open>internal/api/router.go\<close>. \<open>Config\<close>: \<open>internal/config\<close>.
  \<^item> \<open>Deployment\<close>, \<open>Startup\<close>: \<open>cmd/api/main.go\<close>, \<open>cmd/worker/main.go\<close>, \<open>NewPostgres\<close> and \<open>NewRedis\<close> of \<open>internal/store/store.go\<close>:
    opening the stores, building the services from the configuration, serving, shutting down.
  \<^item> \<open>Load_Test\<close>, \<open>Load_Client\<close>: \<open>loadtest/main.go\<close>, its first check as requests to the server, its second as a program of
    requests whose answers may depend on anything that happens in between.

  \<^bold>\<open>What is shown.\<close>
  \<^item> Trading (\<open>Trading_Ledger\<close>, \<open>Trading_Properties\<close>, \<open>Trading_Views\<close>): \<open>ExecuteOrder\<close> refines an abstract broker
    over unbounded integers when the amounts fit 64 bits; it is all or nothing whichever call fails; it is idempotent
    when executions follow one another; \<open>PlaceOrder\<close> stores order and job together, validates and deduplicates;
    the views are functions of the event stream.
  \<^item> Queue and worker (\<open>Job_Queue\<close>, \<open>Worker_Properties\<close>): \<open>Claim\<close> is correct, no job is lost, attempts are bounded,
    retries back off, alerts fire once; what goes wrong when a statement fails between two others. The
    locale \<open>queue_pred\<close> collects what a predicate on the queue has to satisfy to survive all handlers.
  \<^item> Concurrency (\<open>Trading_Concurrency\<close>): calls split at their database operations and interleaved arbitrarily, with crashes; the ledger
    stays sound and the past is stable in every reachable state, and the interleavings that fill an order twice, report a filled order as
    cancelled or cache a stale view are reachable.
  \<^item> Limiter (\<open>Rate_Limit_Properties\<close>): a bound for the token bucket including rounding and key expiry,
    equivalence of the sliding window with a reference algorithm, and what a change of mode does.
  \<^item> HTTP (\<open>Http_Properties\<close>): the locale \<open>api_invariant\<close> lifts invariants of the tables to the router; errors have no
    effect, \<open>GET\<close> is safe, the headers report the limiter's state, static files stay inside their directory.
  \<^item> Stored data (\<open>Well_Typed\<close>, \<open>Typed_Services\<close>): a type invariant of the tables and of Redis that every method, handler and
    endpoint keeps, by rules (\<open>yields\<close>) that follow the structure of the code and also exclude panics.
  \<^item> The composition (\<open>Order_Tracking\<close>, \<open>Worker_Loop\<close>, \<open>Platform\<close>): any number of API and worker processes over
    one store. Ledger and queue stay sound, stored data stays well typed, no pending order loses its job, no worker
    panics, and the worker's loop always comes to rest.
  \<^item> Further invariants of the composition, on the locales \<open>trading_pred\<close> and \<open>trading_law\<close> of \<open>Ledger_Invariants\<close>, which ask only what
    the commits of a trade, a cancellation and a new portfolio do: the orders account for every share and every cent of the ledger
    (\<open>Reconciliation\<close>), and a current view, cached or not, shows a state the ledger has been in (\<open>Served_Views\<close>).
  \<^item> Crash recovery (\<open>Recovery\<close>): one run of the reaper after the leases have run out resumes the work of dead workers.
  \<^item> Deployment (\<open>Startup\<close>): both programs start exactly when both stores open; processes that are started and stopped at any time
    refine the platform, and so everything shown of it holds of the deployment.
  \<^item> Load test (\<open>Load_Test_Properties\<close>, \<open>Load_Client_Properties\<close>): its first check passes against the model of the server; its second
    never reports a lost update, whatever workers, other clients and failures do between its requests, and a complete run of it
    passes. A client that sends a different \<open>X-Forwarded-For\<close> with each request is never limited.
  \<^item> Market data and configuration (\<open>Market_Data_Properties\<close>, \<open>Deployment\<close>): bounds of the offline prices, cases of the
    live ones, age and origin of cached quotes, top movers, defaults.

  \<^bold>\<open>Conventions.\<close> A UUID is a natural number and a time stamp an integer number of milliseconds. Every external call takes one
  element of a fault plan and can fail without effect; a failed commit is a rollback. A transaction is one step: the row lock
  of \<open>LockForUpdate\<close> serialises those that touch the same portfolio. The clock does not advance within an operation.
  Random identifiers are an arbitrary sequence, so collisions are possible and surface as unique violations.

  \<^bold>\<open>Parameters\<close> stand for code outside the repository: \<open>math.Sin\<close>, the Finnhub server, webhook receivers, UUID and RFC 3339
  parsing, chi's matching, the file server, the texts of driver errors. The assumptions on them are named where they are used
  (\<open>md_typed\<close>, \<open>worker_typed\<close>, \<open>routes_registered\<close>, \<open>outside_sane\<close>) and witnesses instantiate them. The record \<open>host\<close> collects those that
  the two programs find on their machine, the parsing of the database URLs included.

  \<^bold>\<open>Loops and fuel.\<close> Loops over lists are structural recursion. \<open>worker_loop\<close> is a partial function that is proved to
  have a value. \<open>drain\<close> runs a thread for four operations, the most that a job needs. The polling loops of the load test
  make at most 50 polls, as in the code.

  \<^bold>\<open>Not modelled.\<close> The front end in JavaScript; the SQL schema and the container files, of which the constraints are part of the
  repository operations; logging and sleeping, which are pure output and delay; JSON text (values are parsed outside the model, their
  decoding into structs is modelled); the names of infinities and hexadecimal notation in \<open>ParseFloat\<close>; the wrap-around of a \<open>QUOTE_TTL\<close> of more
  than 292 years; the data race on the limiter's counter, which is passed along as a value.

  \<^bold>\<open>Plan.\<close> Next: stored data under overlapping operations; \<open>Complete\<close> and \<open>Retry\<close> by a worker whose lease was
  taken over; the survival of the poll job.
\<close>

end
